(* ===== verification/Prelude.thy ===== *)
theory Prelude
  imports Main "HOL-Library.Word" "HOL-Library.AList" "HOL-Library.Code_Target_Nat"
begin

text \<open>
  Shared vocabulary of the development.  Bytes and byte strings as the C code has them
  (\<open>guint8\<close> arrays, zero terminated \<open>char *\<close>), bounds-checked reads, the big-endian
  and single-byte truncations the encoders use, JSON values as the service builds
  them, and the contracts (locales) that several components share: machines that
  answer a request exactly once, machines with a bounded number of steps, machines
  with an invariant, and counters that advance by one.
\<close>

unbundle bit_operations_syntax

named_theorems wire_simps \<open>lengths and shapes of encoded byte strings\<close>
named_theorems c_simps \<open>reading back what the C casts produce\<close>

section \<open>Bytes\<close>

type_synonym byte = "8 word"
type_synonym bytes = "8 word list"

text \<open>\<open>(guint8) n\<close> for an unsigned \<open>n\<close>: the low eight bits.\<close>

definition byte_of :: "nat \<Rightarrow> byte" where
  "byte_of n = word_of_nat n"

text \<open>The two bytes \<open>(guint8)(n >> 8), (guint8)(n & 0xff)\<close>.\<close>

definition be16 :: "nat \<Rightarrow> bytes" where
  "be16 n = [byte_of (n div 256), byte_of (n mod 256)]"

text \<open>The four bytes of a big-endian 32-bit counter.\<close>

definition be32 :: "nat \<Rightarrow> bytes" where
  "be32 n = [byte_of (n div 16777216), byte_of (n div 65536), byte_of (n div 256), byte_of n]"

text \<open>\<open>(int) n\<close> for a size that is handed to a signed 32-bit JSON number.\<close>

definition i32_of_nat :: "nat \<Rightarrow> int" where
  "i32_of_nat n = sint (word_of_nat n :: 32 word)"

text \<open>String literals of the source as bytes.\<close>

definition str :: "string \<Rightarrow> bytes" where
  "str s = map of_char s"

text \<open>
  The C string that starts at a buffer: everything before the first zero byte.
  \<open>g_strndup (p, n)\<close> followed by a use as a C string is \<open>c_str (take n p)\<close>.
\<close>

definition c_str :: "bytes \<Rightarrow> bytes" where
  "c_str bs = takeWhile (\<lambda>b. b \<noteq> 0) bs"

definition nul_free :: "bytes \<Rightarrow> bool" where
  "nul_free bs \<longleftrightarrow> 0 \<notin> set bs"

text \<open>
  A read of a C buffer.  \<open>None\<close> is an access outside the buffer, which in C is
  undefined behaviour: a parser of untrusted bytes is memory safe when it never
  yields \<open>None\<close>.
\<close>

definition rd :: "bytes \<Rightarrow> nat \<Rightarrow> byte option" where
  "rd buf i = (if i < length buf then Some (buf ! i) else None)"

definition rd_n :: "bytes \<Rightarrow> nat \<Rightarrow> nat \<Rightarrow> bytes option" where
  "rd_n buf off n = (if off + n \<le> length buf then Some (take n (drop off buf)) else None)"

lemma unat_byte_of [c_simps]: "unat (byte_of n) = n mod 256"
  by (simp add: byte_of_def unat_of_nat)

lemma unat_byte_of_small [simp]: "n < 256 \<Longrightarrow> unat (byte_of n) = n"
  by (simp add: unat_byte_of)

lemma byte_of_unat [simp]: "byte_of (unat b) = b"
  by (simp add: byte_of_def)

lemma unat_byte_less [simp]: "unat (b :: byte) < 256"
  by (rule order_less_le_trans [OF unsigned_less]) simp

lemma byte_of_mod [simp]: "byte_of (n mod 256) = byte_of n"
  by (simp add: byte_of_def word_of_nat_eq_iff take_bit_eq_mod)

lemma byte_of_inj: "m < 256 \<Longrightarrow> n < 256 \<Longrightarrow> byte_of m = byte_of n \<longleftrightarrow> m = n"
  by (metis unat_byte_of_small)

lemma length_be16 [wire_simps]: "length (be16 n) = 2"
  by (simp add: be16_def)

lemma length_be32 [wire_simps]: "length (be32 n) = 4"
  by (simp add: be32_def)

lemma be16_read [c_simps]:
  "n < 65536 \<Longrightarrow> unat (be16 n ! 0) * 256 + unat (be16 n ! 1) = n"
  by (simp add: be16_def unat_byte_of less_mult_imp_div_less)

lemma i32_of_nat_small [c_simps]: "n < 2147483648 \<Longrightarrow> i32_of_nat n = int n"
  by (simp add: i32_of_nat_def sint_uint signed_take_bit_int_eq_self uint_nat unat_of_nat)

lemma length_str [wire_simps]: "length (str s) = length s"
  by (simp add: str_def)

lemma byte_of_char: "byte_of (of_char c) = of_char c"
  by (cases c) (simp add: byte_of_def of_char_def)

lemma str_eq_iff [simp]: "str a = str b \<longleftrightarrow> a = b"
proof
  have "inj (of_char :: char \<Rightarrow> byte)"
    by (metis injI byte_of_char byte_of_inj nat_of_char_less_256 of_char_eq_iff)
  moreover assume "str a = str b"
  ultimately show "a = b" by (simp add: str_def inj_map_eq_map)
qed simp

lemma c_str_id [simp]: "nul_free bs \<Longrightarrow> c_str bs = bs"
  unfolding c_str_def nul_free_def by (auto simp: takeWhile_eq_all_conv)

lemma nul_free_c_str [simp]: "nul_free (c_str bs)"
  unfolding c_str_def nul_free_def by (auto dest: set_takeWhileD)

lemma nul_free_append [simp]: "nul_free (xs @ ys) \<longleftrightarrow> nul_free xs \<and> nul_free ys"
  by (auto simp: nul_free_def)

lemma nul_free_drop: "nul_free xs \<Longrightarrow> nul_free (drop n xs)"
  by (auto simp: nul_free_def dest: in_set_dropD)

lemma nul_free_take: "nul_free xs \<Longrightarrow> nul_free (take n xs)"
  by (auto simp: nul_free_def dest: in_set_takeD)

lemma c_str_length: "length (c_str bs) \<le> length bs"
  by (simp add: c_str_def length_takeWhile_le)

lemma rd_Some [simp]: "i < length buf \<Longrightarrow> rd buf i = Some (buf ! i)"
  by (simp add: rd_def)

lemma rd_None_iff: "rd buf i = None \<longleftrightarrow> length buf \<le> i"
  by (simp add: rd_def)

lemma rd_n_Some [simp]: "off + n \<le> length buf \<Longrightarrow> rd_n buf off n = Some (take n (drop off buf))"
  by (simp add: rd_n_def)

lemma take_drop_append:
  "length xs = k \<Longrightarrow> take n (drop k (xs @ ys)) = take n ys"
  by simp

text \<open>
  What a parser of untrusted bytes does: read outside its buffer, refuse the input, or
  deliver a result.  \<open>read_or r k\<close> puts a checked read in front of the rest of a parse.
\<close>

datatype 'a outcome = Undefined | Malformed | Parsed 'a

definition read_or :: "'a option \<Rightarrow> ('a \<Rightarrow> 'b outcome) \<Rightarrow> 'b outcome" where
  "read_or r k = (case r of None \<Rightarrow> Undefined | Some x \<Rightarrow> k x)"

lemma read_or_Some [simp]: "read_or (Some x) k = k x"
  by (simp add: read_or_def)

lemma read_or_Parsed: "read_or r k = Parsed h \<longleftrightarrow> (\<exists>x. r = Some x \<and> k x = Parsed h)"
  by (auto simp: read_or_def split: option.splits)

lemma read_or_Undefined: "read_or r k = Undefined \<longleftrightarrow> r = None \<or> (\<exists>x. r = Some x \<and> k x = Undefined)"
  by (auto simp: read_or_def split: option.splits)

lemma rd_n_SomeD: "rd_n buf off n = Some x \<Longrightarrow> off + n \<le> length buf \<and> x = take n (drop off buf)"
  by (auto simp: rd_n_def split: if_splits)

lemma rd_SomeD: "rd buf i = Some b \<Longrightarrow> i < length buf \<and> b = buf ! i"
  by (auto simp: rd_def split: if_splits)

text \<open>
  The comparison both \<open>bac.c\<close> and \<open>pace.c\<close> use for authentication codes: every byte
  is looked at, the differences are collected in one accumulator.
\<close>

lemma xor_zero_iff: "(x :: byte) XOR y = 0 \<longleftrightarrow> x = y"
proof
  assume "x XOR y = 0"
  then have "(x XOR y) XOR y = 0 XOR y" by simp
  then show "x = y" by (simp add: xor.assoc)
qed simp

definition bytes_equal :: "bytes \<Rightarrow> bytes \<Rightarrow> nat \<Rightarrow> bool" where
  "bytes_equal a b n \<longleftrightarrow> foldl (\<lambda>diff i. diff OR (a ! i XOR b ! i)) 0 [0..<n] = 0"

lemma foldl_or_zero:
  "foldl (\<lambda>diff i. diff OR (f i)) (d :: byte) is = 0 \<longleftrightarrow> d = 0 \<and> (\<forall>i \<in> set is. f i = 0)"
  by (induction "is" arbitrary: d) (auto simp: or_eq_0_iff)

lemma bytes_equal_iff:
  assumes "n \<le> length a" and "n \<le> length b"
  shows "bytes_equal a b n \<longleftrightarrow> take n a = take n b"
proof -
  have "bytes_equal a b n \<longleftrightarrow> (\<forall>i < n. a ! i = b ! i)"
    by (auto simp: bytes_equal_def foldl_or_zero xor_zero_iff)
  also have "\<dots> \<longleftrightarrow> take n a = take n b"
    using assms by (auto simp: list_eq_iff_nth_eq)
  finally show ?thesis .
qed

section \<open>JSON values\<close>

text \<open>
  The pbnjson values the service builds and inspects.  An object keeps its members in
  insertion order; putting an existing key replaces its value.
\<close>

datatype jvalue =
    JNull
  | JBool bool
  | JNum int
  | JStr bytes
  | JArr "jvalue list"
  | JObj "(string \<times> jvalue) list"

fun jobject_put :: "string \<Rightarrow> jvalue \<Rightarrow> jvalue \<Rightarrow> jvalue" where
  "jobject_put k v (JObj ms) = JObj (AList.update k v ms)"
| "jobject_put k v j = j"

fun jget :: "jvalue \<Rightarrow> string \<Rightarrow> jvalue option" where
  "jget (JObj ms) k = map_of ms k"
| "jget j k = None"

fun is_jobj :: "jvalue \<Rightarrow> bool" where
  "is_jobj (JObj ms) = True"
| "is_jobj j = False"

definition jobject_create :: jvalue where
  "jobject_create = JObj []"

lemma is_jobj_create [simp]: "is_jobj jobject_create"
  by (simp add: jobject_create_def)

lemma is_jobj_put [simp]: "is_jobj (jobject_put k v j) = is_jobj j"
  by (cases j) auto

lemma jget_create [simp]: "jget jobject_create k = None"
  by (simp add: jobject_create_def)

lemma jget_put [simp]:
  "is_jobj j \<Longrightarrow> jget (jobject_put k v j) k' = (if k' = k then Some v else jget j k')"
  by (cases j) (auto simp: update_conv')

section \<open>Request machines\<close>

text \<open>
  An asynchronous operation of the daemon is a chain of D-Bus callbacks.  The model of
  one is a step function from the state of the request and the result of the pending
  call to the next state and the list of effects the callback had.  \<open>run\<close> feeds it a
  sequence of results.
\<close>

fun run :: "('s \<Rightarrow> 'e \<Rightarrow> 's \<times> 'o list) \<Rightarrow> 's \<Rightarrow> 'e list \<Rightarrow> 's \<times> 'o list" where
  "run step s [] = (s, [])"
| "run step s (e # es) =
     (let (s1, o1) = step s e; (s2, o2) = run step s1 es in (s2, o1 @ o2))"

lemma run_append:
  "run step s (es @ fs) =
     (let (s1, o1) = run step s es; (s2, o2) = run step s1 fs in (s2, o1 @ o2))"
  by (induction es arbitrary: s) (auto simp: Let_def split: prod.splits)

lemma run_fst_Cons: "fst (run step s (e # es)) = fst (run step (fst (step s e)) es)"
  by (simp add: Let_def split: prod.splits)

lemma run_snd_Cons: "snd (run step s (e # es)) = snd (step s e) @ snd (run step (fst (step s e)) es)"
  by (simp add: Let_def split: prod.splits)

text \<open>Every effect of a run is an effect of one of its steps.\<close>

lemma run_emits:
  "out \<in> set (snd (run step s es)) \<Longrightarrow> \<exists>pre e. out \<in> set (snd (step (fst (run step s pre)) e))"
proof (induction es arbitrary: s)
  case (Cons e es)
  show ?case
  proof (cases "out \<in> set (snd (step s e))")
    case True
    then have "out \<in> set (snd (step (fst (run step s [])) e))" by simp
    then show ?thesis by blast
  next
    case False
    with Cons.prems have "out \<in> set (snd (run step (fst (step s e)) es))"
      by (simp add: run_snd_Cons del: run.simps(2))
    from Cons.IH [OF this] obtain pre e' where "out \<in> set (snd (step (fst (run step s (e # pre))) e'))"
      by (auto simp: run_fst_Cons simp del: run.simps(2))
    then show ?thesis by blast
  qed
qed simp

lemmas run_Cons_simps = run_fst_Cons run_snd_Cons

lemma list_all_True [simp]: "list_all (\<lambda>_. True) xs"
  by (simp add: list_all_iff)

text \<open>
  The contract every request keeps towards its caller: while it is live it stays silent,
  the step that ends it emits exactly one reply, and a finished request does nothing; the
  first two for the admissible results of the pending call.
\<close>

locale reply_machine =
  fixes step :: "'s \<Rightarrow> 'e \<Rightarrow> 's \<times> 'o list"
    and live :: "'s \<Rightarrow> bool"
    and is_reply :: "'o \<Rightarrow> bool"
    and admissible :: "'e \<Rightarrow> bool"
  assumes dead_step: "\<not> live s \<Longrightarrow> step s e = (s, [])"
    and live_quiet: "live s \<Longrightarrow> admissible e \<Longrightarrow> live (fst (step s e)) \<Longrightarrow>
      filter is_reply (snd (step s e)) = []"
    and live_final: "live s \<Longrightarrow> admissible e \<Longrightarrow> \<not> live (fst (step s e)) \<Longrightarrow>
      length (filter is_reply (snd (step s e))) = 1"
begin

lemma dead_run: "\<not> live s \<Longrightarrow> run step s es = (s, [])"
  by (induction es) (simp_all add: dead_step)

lemma reply_count:
  "live s \<Longrightarrow> list_all admissible es \<Longrightarrow> length (filter is_reply (snd (run step s es))) =
     (if live (fst (run step s es)) then 0 else 1)"
proof (induction es arbitrary: s)
  case Nil
  then show ?case by simp
next
  case (Cons e es)
  show ?case
  proof (cases "live (fst (step s e))")
    case True
    with Cons show ?thesis
      by (simp add: live_quiet run_Cons_simps del: run.simps(2))
  next
    case False
    with Cons.prems show ?thesis
      by (simp add: live_final dead_run run_Cons_simps del: run.simps(2))
  qed
qed

lemma at_most_one_reply: "list_all admissible es \<Longrightarrow> length (filter is_reply (snd (run step s es))) \<le> 1"
  using reply_count [of s es] dead_run [of s es] by (cases "live s") auto

end

text \<open>
  A request machine that also ends: every admissible result of the pending call uses up fuel.
\<close>

locale terminating_machine = reply_machine +
  fixes fuel :: "'s \<Rightarrow> nat"
  assumes fuel_decreases:
    "live s \<Longrightarrow> admissible e \<Longrightarrow> live (fst (step s e)) \<Longrightarrow> fuel (fst (step s e)) < fuel s"
begin

lemma run_terminates: "fuel s < length es \<Longrightarrow> list_all admissible es \<Longrightarrow> \<not> live (fst (run step s es))"
proof (induction es arbitrary: s)
  case Nil
  then show ?case by simp
next
  case (Cons e es)
  show ?case
  proof (cases "live s \<and> live (fst (step s e))")
    case True
    with fuel_decreases [of s e] Cons.prems have "fuel (fst (step s e)) < length es"
      by simp
    from Cons.IH [OF this] Cons.prems show ?thesis by (simp add: run_fst_Cons del: run.simps(2))
  next
    case False
    then have "\<not> live (fst (step s e))" by (auto simp: dead_step)
    then show ?thesis by (simp add: dead_run run_fst_Cons del: run.simps(2))
  qed
qed

lemma exactly_one_reply:
  "live s \<Longrightarrow> fuel s < length es \<Longrightarrow> list_all admissible es \<Longrightarrow>
    length (filter is_reply (snd (run step s es))) = 1"
  using reply_count run_terminates by simp

end

text \<open>A machine with an invariant of its states.\<close>

locale invariant_machine =
  fixes step :: "'s \<Rightarrow> 'e \<Rightarrow> 's \<times> 'o list"
    and inv :: "'s \<Rightarrow> bool"
  assumes inv_step: "inv s \<Longrightarrow> inv (fst (step s e))"
begin

lemma inv_run: "inv s \<Longrightarrow> inv (fst (run step s es))"
  by (induction es arbitrary: s) (simp_all add: inv_step run_fst_Cons del: run.simps(2))

end

text \<open>
  A request that takes an exclusive lock on the tag: no step of a live request releases
  the lock except the one that ends it, and that one does exactly if the lock was taken.
\<close>

locale locking_machine = reply_machine +
  fixes took :: "'s \<Rightarrow> bool"
    and is_release :: "'o \<Rightarrow> bool"
  assumes release_step: "live s \<Longrightarrow> length (filter is_release (snd (step s e))) =
      (if \<not> live (fst (step s e)) \<and> took (fst (step s e)) then 1 else 0)"
begin

lemma release_count:
  "live s \<Longrightarrow> length (filter is_release (snd (run step s es))) =
     (if \<not> live (fst (run step s es)) \<and> took (fst (run step s es)) then 1 else 0)"
proof (induction es arbitrary: s)
  case Nil
  then show ?case by simp
next
  case (Cons e es)
  show ?case
  proof (cases "live (fst (step s e))")
    case True
    with Cons show ?thesis
      by (simp add: release_step run_Cons_simps del: run.simps(2))
  next
    case False
    with Cons.prems show ?thesis
      by (simp add: release_step dead_run run_Cons_simps del: run.simps(2))
  qed
qed

end

text \<open>
  A machine whose effects are all of a certain kind, as long as the results of its calls are
  admissible: the invariant speaks about states and effects together.
\<close>

locale safe_machine =
  fixes step :: "'s \<Rightarrow> 'e \<Rightarrow> 's \<times> 'o list"
    and good_state :: "'s \<Rightarrow> bool"
    and good_out :: "'o \<Rightarrow> bool"
    and admissible :: "'e \<Rightarrow> bool"
  assumes good_step: "good_state s \<Longrightarrow> admissible e \<Longrightarrow>
      good_state (fst (step s e)) \<and> list_all good_out (snd (step s e))"
begin

lemma good_run:
  "good_state s \<Longrightarrow> list_all admissible es \<Longrightarrow>
    good_state (fst (run step s es)) \<and> list_all good_out (snd (run step s es))"
  by (induction es arbitrary: s) (simp_all add: good_step run_Cons_simps del: run.simps(2))

lemma good_outs: "good_state s \<Longrightarrow> list_all admissible es \<Longrightarrow> out \<in> set (snd (run step s es)) \<Longrightarrow> good_out out"
  using good_run by (auto simp: list_all_iff)

end

text \<open>
  A machine that keeps accounts: every effect has a weight, and the level of the state moves
  by the weight of the effects, in the states that satisfy the invariant.  Acquiring and
  releasing a resource are weights of 1 and -1.
\<close>

locale accounting_machine = invariant_machine +
  fixes level :: "'s \<Rightarrow> int"
    and weight :: "'o \<Rightarrow> int"
  assumes inv_level: "inv s \<Longrightarrow> level (fst (step s e)) = level s + sum_list (map weight (snd (step s e)))"
begin

lemma inv_level_run: "inv s \<Longrightarrow> level (fst (run step s es)) = level s + sum_list (map weight (snd (run step s es)))"
  by (induction es arbitrary: s) (simp_all add: inv_step inv_level run_Cons_simps del: run.simps(2))

end

text \<open>A machine whose accounts are in order in every state needs no invariant.\<close>

locale balanced_machine =
  fixes step :: "'s \<Rightarrow> 'e \<Rightarrow> 's \<times> 'o list"
    and level :: "'s \<Rightarrow> int"
    and weight :: "'o \<Rightarrow> int"
  assumes level_step: "level (fst (step s e)) = level s + sum_list (map weight (snd (step s e)))"

sublocale balanced_machine \<subseteq> accounts: accounting_machine step "\<lambda>_. True" level weight
  by unfold_locales (simp_all add: level_step)

context balanced_machine
begin

lemma level_run: "level (fst (run step s es)) = level s + sum_list (map weight (snd (run step s es)))"
  by (rule accounts.inv_level_run) simp

end

text \<open>
  A machine that implements an abstract one: every step moves the abstraction as the
  specification says.
\<close>

locale refining_machine =
  fixes step :: "'s \<Rightarrow> 'e \<Rightarrow> 's \<times> 'o list"
    and abs :: "'s \<Rightarrow> 'a"
    and spec :: "'a \<Rightarrow> 'e \<Rightarrow> 'a"
  assumes refines_step: "abs (fst (step s e)) = spec (abs s) e"
begin

lemma refines_run: "abs (fst (run step s es)) = foldl spec (abs s) es"
  by (induction es arbitrary: s) (simp_all add: refines_step run_fst_Cons del: run.simps(2))

end

text \<open>
  A machine that publishes a view of its state: the view after a step is the one it last
  published, or the one before if it published none.
\<close>

locale publishing_machine = invariant_machine +
  fixes view :: "'s \<Rightarrow> 'v"
    and published :: "'o \<Rightarrow> 'v list"
  assumes publishes: "inv s \<Longrightarrow> last (view s # concat (map published (snd (step s e)))) = view (fst (step s e))"
begin

lemma publishes_run:
  "inv s \<Longrightarrow> last (view s # concat (map published (snd (run step s es)))) = view (fst (run step s es))"
proof (induction es arbitrary: s)
  case (Cons e es)
  have trans: "last (a # xs @ ys) = last (last (a # xs) # ys)" for a :: 'v and xs ys by (simp add: last_append)
  from Cons.IH [OF inv_step [OF Cons.prems]] show ?case
    by (simp add: run_Cons_simps trans publishes [OF Cons.prems] del: run.simps(2) last.simps)
qed simp

end

end
