(* ===== verification/Ndef.thy ===== *)
theory Ndef
  imports Prelude
begin

text \<open>
  \<open>src/ndef.c\<close>: rendering of NDEF records and messages as JSON, the encoders behind
  \<open>writeTag\<close>, hex strings and the Type 2 TLV wrapper.  The parser reads through
  \<open>rd\<close> and \<open>rd_n\<close>, so its outer \<open>option\<close> is \<open>None\<close> exactly when it leaves its buffer;
  the inner \<open>option\<close> is the NULL it returns for a malformed message.  The two GLib
  character-set routines it calls are parameters (record \<open>glib_utf\<close>).
\<close>

section \<open>Constants\<close>

definition NDEF_TNF_WELL_KNOWN :: nat where "NDEF_TNF_WELL_KNOWN = 1"
definition NDEF_TNF_MEDIA_TYPE :: nat where "NDEF_TNF_MEDIA_TYPE = 2"
definition NDEF_TNF_ABSOLUTE_URI :: nat where "NDEF_TNF_ABSOLUTE_URI = 3"
definition NDEF_TNF_EXTERNAL :: nat where "NDEF_TNF_EXTERNAL = 4"

definition NDEF_HDR_MB :: byte where "NDEF_HDR_MB = 0x80"
definition NDEF_HDR_ME :: byte where "NDEF_HDR_ME = 0x40"
definition NDEF_HDR_SR :: byte where "NDEF_HDR_SR = 0x10"
definition NDEF_HDR_IL :: byte where "NDEF_HDR_IL = 0x08"
definition NDEF_HDR_TNF :: byte where "NDEF_HDR_TNF = 0x07"

lemmas ndef_consts =
  NDEF_TNF_WELL_KNOWN_def NDEF_TNF_MEDIA_TYPE_def NDEF_TNF_ABSOLUTE_URI_def NDEF_TNF_EXTERNAL_def
  NDEF_HDR_MB_def NDEF_HDR_ME_def NDEF_HDR_SR_def NDEF_HDR_IL_def NDEF_HDR_TNF_def

text \<open>\<open>flag x f\<close> is the C test \<open>x & f\<close>.\<close>

definition flag :: "byte \<Rightarrow> byte \<Rightarrow> bool" where
  "flag x f \<longleftrightarrow> x AND f \<noteq> 0"

definition uri_prefixes :: "bytes list" where
  "uri_prefixes = map str [
     '''', ''http://www.'', ''https://www.'', ''http://'', ''https://'', ''tel:'', ''mailto:'',
     ''ftp://anonymous:anonymous@'', ''ftp://ftp.'', ''ftps://'', ''sftp://'', ''smb://'',
     ''nfs://'', ''ftp://'', ''dav://'', ''news:'', ''telnet://'', ''imap:'', ''rtsp://'',
     ''urn:'', ''pop:'', ''sip:'', ''sips:'', ''tftp:'', ''btspp://'', ''btl2cap://'',
     ''btgoep://'', ''tcpobex://'', ''irdaobex://'', ''file://'', ''urn:epc:id:'',
     ''urn:epc:tag:'', ''urn:epc:pat:'', ''urn:epc:raw:'', ''urn:epc:'', ''urn:nfc:'']"

section \<open>Hex strings\<close>

text \<open>One \<open>"%02x"\<close>.\<close>

definition hex_digit :: "nat \<Rightarrow> byte" where
  "hex_digit n = (if n < 10 then byte_of (48 + n) else byte_of (87 + n))"

definition hex_byte :: "byte \<Rightarrow> bytes" where
  "hex_byte b = [hex_digit (unat b div 16), hex_digit (unat b mod 16)]"

definition ndef_bytes_to_hex :: "bytes \<Rightarrow> bytes" where
  "ndef_bytes_to_hex data = concat (map hex_byte data)"

text \<open>\<open>g_ascii_xdigit_value\<close>: \<open>None\<close> for its \<open>-1\<close>.\<close>

definition xdigit_value :: "byte \<Rightarrow> nat option" where
  "xdigit_value c = (let n = unat c in
     if 48 \<le> n \<and> n \<le> 57 then Some (n - 48)
     else if 97 \<le> n \<and> n \<le> 102 then Some (n - 87)
     else if 65 \<le> n \<and> n \<le> 70 then Some (n - 55)
     else None)"

fun hex_pairs :: "bytes \<Rightarrow> bytes option" where
  "hex_pairs [] = Some []"
| "hex_pairs [c] = None"
| "hex_pairs (c # d # cs) =
     (case (xdigit_value c, xdigit_value d) of
        (Some hi, Some lo) \<Rightarrow> map_option (\<lambda>bs. byte_of (hi * 16 + lo) # bs) (hex_pairs cs)
      | _ \<Rightarrow> None)"

definition ndef_hex_to_bytes :: "bytes option \<Rightarrow> bytes option" where
  "ndef_hex_to_bytes hex =
     (case hex of None \<Rightarrow> None
      | Some h \<Rightarrow> if length h = 0 \<or> length h mod 2 \<noteq> 0 then None else hex_pairs h)"

section \<open>Decoding one record\<close>

text \<open>
  GLib routines the decoder calls.  \<open>g_utf16_to_utf8 p n\<close> converts \<open>n\<close> 16-bit units
  starting at \<open>p\<close>; \<open>None\<close> is its NULL.
\<close>

record glib_utf =
  g_utf8_validate :: "bytes \<Rightarrow> bool"
  g_utf16_to_utf8 :: "bytes \<Rightarrow> nat \<Rightarrow> bytes option"

definition type_to_string :: "bytes \<Rightarrow> bytes option" where
  "type_to_string ty =
     (if ty = [] then None
      else if \<exists>b \<in> set ty. b < 0x20 \<or> 0x7e < b then None
      else Some (c_str ty))"

definition type_equals :: "bytes \<Rightarrow> string \<Rightarrow> bool" where
  "type_equals ty expected \<longleftrightarrow> ty = str expected"

definition decode_uri_payload :: "bytes \<Rightarrow> bytes option" where
  "decode_uri_payload payload =
     (if length payload < 1 then None
      else let code = unat (payload ! 0);
               prefix = (if code < length uri_prefixes then uri_prefixes ! code else [])
           in Some (prefix @ c_str (drop 1 payload)))"

text \<open>Result: text, language and the UTF-16 flag; \<open>None\<close> is the FALSE return.\<close>

definition decode_text_payload :: "glib_utf \<Rightarrow> bytes \<Rightarrow> (bytes \<times> bytes \<times> bool) option" where
  "decode_text_payload g payload =
     (if length payload < 1 then None
      else let utf16 = flag (payload ! 0) 0x80;
               lang_len = unat (payload ! 0 AND 0x3f)
           in if length payload < 1 + lang_len then None
              else let language = c_str (take lang_len (drop 1 payload));
                       rest = drop (1 + lang_len) payload;
                       text = (if utf16
                               then g_utf16_to_utf8 g rest ((length payload - 1 - lang_len) div 2)
                               else Some (c_str rest))
                   in (case text of None \<Rightarrow> None | Some t \<Rightarrow> Some (t, language, utf16)))"

definition has_prefix :: "bytes \<Rightarrow> bytes \<Rightarrow> bool" where
  "has_prefix s p \<longleftrightarrow> take (length p) s = p"

text \<open>The raw members every record carries.\<close>

definition record_raw_fields :: "nat \<Rightarrow> bytes \<Rightarrow> bytes \<Rightarrow> bytes \<Rightarrow> jvalue" where
  "record_raw_fields tnf ty rid payload =
     (let o1 = jobject_put ''tnf'' (JNum (i32_of_nat tnf)) jobject_create;
          o2 = (case type_to_string ty of None \<Rightarrow> o1 | Some s \<Rightarrow> jobject_put ''type'' (JStr s) o1);
          o3 = jobject_put ''typeHex'' (JStr (ndef_bytes_to_hex ty)) o2;
          o4 = (if 0 < length rid then jobject_put ''idHex'' (JStr (ndef_bytes_to_hex rid)) o3 else o3);
          o5 = jobject_put ''payloadHex'' (JStr (ndef_bytes_to_hex payload)) o4
      in jobject_put ''payloadSize'' (JNum (i32_of_nat (length payload))) o5)"

text \<open>
  The friendly members of the record kinds that do not nest.  Together with the Smart
  Poster branch in \<open>ndef_record_to_json\<close> below this is the \<open>switch\<close> on the TNF.
\<close>

definition record_kind_fields :: "glib_utf \<Rightarrow> nat \<Rightarrow> bytes \<Rightarrow> bytes \<Rightarrow> jvalue \<Rightarrow> jvalue" where
  "record_kind_fields g tnf ty payload obj =
     (if tnf = NDEF_TNF_WELL_KNOWN then
        if type_equals ty ''U'' then
          (case decode_uri_payload payload of None \<Rightarrow> obj
           | Some uri \<Rightarrow> jobject_put ''uri'' (JStr uri) (jobject_put ''kind'' (JStr (str ''uri'')) obj))
        else if type_equals ty ''T'' then
          (case decode_text_payload g payload of None \<Rightarrow> obj
           | Some (text, language, utf16) \<Rightarrow>
               jobject_put ''utf16'' (JBool utf16)
                 (jobject_put ''language'' (JStr language)
                   (jobject_put ''text'' (JStr text)
                     (jobject_put ''kind'' (JStr (str ''text'')) obj))))
        else obj
      else if tnf = NDEF_TNF_MEDIA_TYPE then
        (let o1 = jobject_put ''kind'' (JStr (str ''media'')) obj in
         case type_to_string ty of None \<Rightarrow> o1
         | Some media \<Rightarrow>
             (let o2 = jobject_put ''mediaType'' (JStr media) o1 in
              if has_prefix media (str ''text/'') \<and> g_utf8_validate g payload
              then jobject_put ''text'' (JStr (c_str payload)) o2 else o2))
      else if tnf = NDEF_TNF_ABSOLUTE_URI then
        jobject_put ''uri'' (JStr (c_str payload)) (jobject_put ''kind'' (JStr (str ''uri'')) obj)
      else if tnf = NDEF_TNF_EXTERNAL then
        (let o1 = jobject_put ''kind'' (JStr (str ''external'')) obj in
         case type_to_string ty of None \<Rightarrow> o1
         | Some ext \<Rightarrow> jobject_put ''externalType'' (JStr ext) o1)
      else obj)"

section \<open>Parsing a message\<close>

text \<open>The header of one record: the values the loop body computes before it renders.\<close>

record ndef_head =
  hd_header :: byte
  hd_type :: bytes
  hd_id :: bytes
  hd_payload :: bytes
  hd_next :: nat

text \<open>
  The size arithmetic is done in \<open>gsize\<close>, whose width \<open>w\<close> is 64 on 64-bit and 32 on
  32-bit targets.  Only the sum that is compared with the buffer length can reach
  \<open>2 ^ w\<close> (the payload length is a 32-bit value read from the message), so that is
  where the wrap-around is written out.
\<close>

definition ndef_parse_body :: "nat \<Rightarrow> bytes \<Rightarrow> byte \<Rightarrow> nat \<Rightarrow> nat \<Rightarrow> nat \<Rightarrow> nat \<Rightarrow> ndef_head outcome" where
  "ndef_parse_body w data header type_len payload_len id_len pos =
     (if length data < (pos + type_len + id_len + payload_len) mod 2 ^ w then Malformed
      else read_or (rd_n data pos type_len) (\<lambda>ty.
           read_or (rd_n data (pos + type_len) id_len) (\<lambda>rid.
           read_or (rd_n data (pos + type_len + id_len) payload_len) (\<lambda>payload.
             Parsed \<lparr>hd_header = header, hd_type = ty, hd_id = rid, hd_payload = payload,
                     hd_next = pos + type_len + id_len + payload_len\<rparr>))))"

definition ndef_parse_id :: "nat \<Rightarrow> bytes \<Rightarrow> byte \<Rightarrow> nat \<Rightarrow> nat \<Rightarrow> nat \<Rightarrow> ndef_head outcome" where
  "ndef_parse_id w data header type_len payload_len pos =
     (if flag header NDEF_HDR_IL then
        if length data \<le> pos then Malformed
        else read_or (rd data pos) (\<lambda>b.
          ndef_parse_body w data header type_len payload_len (unat b) (pos + 1))
      else ndef_parse_body w data header type_len payload_len 0 pos)"

definition ndef_parse_record :: "nat \<Rightarrow> bytes \<Rightarrow> nat \<Rightarrow> ndef_head outcome" where
  "ndef_parse_record w data pos =
     read_or (rd data pos) (\<lambda>header.
       if length data \<le> pos + 1 then Malformed
       else read_or (rd data (pos + 1)) (\<lambda>tlen.
         if flag header NDEF_HDR_SR then
           if length data \<le> pos + 2 then Malformed
           else read_or (rd data (pos + 2)) (\<lambda>pl.
             ndef_parse_id w data header (unat tlen) (unat pl) (pos + 3))
         else
           if length data < pos + 2 + 4 then Malformed
           else read_or (rd_n data (pos + 2) 4) (\<lambda>q.
             ndef_parse_id w data header (unat tlen)
               (unat (q ! 0) * 16777216 + unat (q ! 1) * 65536 + unat (q ! 2) * 256 + unat (q ! 3))
               (pos + 6))))"

lemmas ndef_parse_defs = ndef_parse_record_def ndef_parse_id_def ndef_parse_body_def

lemma ndef_parse_body_Parsed:
  "ndef_parse_body w data hdr tlen plen ilen pos = Parsed h \<Longrightarrow>
     hd_next h = pos + tlen + ilen + length (hd_payload h) \<and> hd_next h \<le> length data"
  by (auto simp: ndef_parse_body_def read_or_Parsed dest!: rd_n_SomeD split: if_splits)

lemma ndef_parse_id_Parsed:
  "ndef_parse_id w data hdr tlen plen pos = Parsed h \<Longrightarrow>
     pos + length (hd_payload h) \<le> hd_next h \<and> hd_next h \<le> length data"
  by (auto simp: ndef_parse_id_def read_or_Parsed dest!: ndef_parse_body_Parsed split: if_splits)

text \<open>A parsed record lies inside the buffer and moves the position forward.\<close>

lemma ndef_parse_record_Parsed:
  "ndef_parse_record w data pos = Parsed h \<Longrightarrow>
     pos + 3 + length (hd_payload h) \<le> hd_next h \<and> hd_next h \<le> length data"
  by (auto simp: ndef_parse_record_def read_or_Parsed dest!: ndef_parse_id_Parsed split: if_splits)

section \<open>Records and messages\<close>

text \<open>
  \<open>ndef_record_to_json\<close> and the loop of \<open>ndef_message_to_json\<close> call each other: a Smart
  Poster record holds a message of its own.  Results: \<open>None\<close> when a read left the
  buffer, and for the loop \<open>Some None\<close> for a malformed message.
\<close>

function ndef_record_to_json ::
  "glib_utf \<Rightarrow> nat \<Rightarrow> nat \<Rightarrow> bytes \<Rightarrow> bytes \<Rightarrow> bytes \<Rightarrow> jvalue option"
and ndef_message_loop ::
  "glib_utf \<Rightarrow> nat \<Rightarrow> bytes \<Rightarrow> nat \<Rightarrow> jvalue list \<Rightarrow> jvalue list option option" where
  "ndef_record_to_json g w tnf ty rid payload =
     (let raw = record_raw_fields tnf ty rid payload in
      if tnf = NDEF_TNF_WELL_KNOWN \<and> type_equals ty ''Sp'' then
        (let poster = jobject_put ''kind'' (JStr (str ''smartposter'')) raw in
         if payload = [] then Some poster
         else (case ndef_message_loop g w payload 0 [] of
                 None \<Rightarrow> None
               | Some None \<Rightarrow> Some poster
               | Some (Some nested) \<Rightarrow> Some (jobject_put ''records'' (JArr nested) poster)))
      else Some (record_kind_fields g tnf ty payload raw))"
| "ndef_message_loop g w data pos recs =
     (if pos < length data then
        (case ndef_parse_record w data pos of
           Undefined \<Rightarrow> None
         | Malformed \<Rightarrow> Some None
         | Parsed h \<Rightarrow>
             (case ndef_record_to_json g w (unat (hd_header h AND NDEF_HDR_TNF)) (hd_type h)
                     (hd_id h) (hd_payload h) of
                None \<Rightarrow> None
              | Some r \<Rightarrow>
                  if flag (hd_header h) NDEF_HDR_ME then Some (Some (recs @ [r]))
                  else ndef_message_loop g w data (hd_next h) (recs @ [r])))
      else Some (Some recs))"
  by pat_completeness auto
termination
  by (relation "measure (\<lambda>x. case x of
        Inl (g, w, tnf, ty, rid, payload) \<Rightarrow> 2 * length payload + 2
      | Inr (g, w, data, pos, recs) \<Rightarrow> 2 * (length data - pos) + 1)")
    (auto dest!: ndef_parse_record_Parsed)

declare ndef_record_to_json.simps [simp del] ndef_message_loop.simps [simp del]

definition ndef_message_to_json :: "glib_utf \<Rightarrow> nat \<Rightarrow> bytes \<Rightarrow> jvalue option option" where
  "ndef_message_to_json g w data =
     (if data = [] then Some None
      else map_option (map_option JArr) (ndef_message_loop g w data 0 []))"

section \<open>Encoders\<close>

text \<open>
  A \<open>char *\<close> argument is its bytes before the terminator, and \<open>None\<close> when it is NULL.
  An encoder returns \<open>None\<close> for its NULL.
\<close>

definition build_single_record :: "nat \<Rightarrow> bytes \<Rightarrow> bytes \<Rightarrow> bytes option" where
  "build_single_record tnf ty payload =
     (let type_len = byte_of (length ty) in
      if 0xff < length payload then None
      else Some ([NDEF_HDR_MB OR NDEF_HDR_ME OR NDEF_HDR_SR OR (byte_of tnf AND NDEF_HDR_TNF),
                  type_len, byte_of (length payload)]
                 @ take (unat type_len) ty @ payload))"

text \<open>The scan for the longest abbreviation: code and length of the best match so far.\<close>

fun best_prefix :: "bytes \<Rightarrow> nat list \<Rightarrow> nat \<times> nat \<Rightarrow> nat \<times> nat" where
  "best_prefix uri [] best = best"
| "best_prefix uri (n # ns) (best_code, best_len) =
     (let prefix_len = length (uri_prefixes ! n) in
      if best_len < prefix_len \<and> has_prefix uri (uri_prefixes ! n)
      then best_prefix uri ns (n, prefix_len)
      else best_prefix uri ns (best_code, best_len))"

definition ndef_build_uri_message :: "bytes option \<Rightarrow> bytes option" where
  "ndef_build_uri_message uri =
     (case uri of None \<Rightarrow> None
      | Some u \<Rightarrow>
          (let (best_code, best_len) = best_prefix u [1..<length uri_prefixes] (0, 0)
           in build_single_record NDEF_TNF_WELL_KNOWN (str ''U'')
                (byte_of best_code # drop best_len u)))"

definition ndef_build_text_message :: "bytes option \<Rightarrow> bytes option \<Rightarrow> bytes option" where
  "ndef_build_text_message text language =
     (case text of None \<Rightarrow> None
      | Some t \<Rightarrow>
          (let lang = (case language of None \<Rightarrow> str ''en''
                       | Some l \<Rightarrow> if l = [] then str ''en'' else l);
               lang_len = length lang
           in if 0x3f < lang_len then None
              else build_single_record NDEF_TNF_WELL_KNOWN (str ''T'')
                     (byte_of lang_len # lang @ t)))"

text \<open>Present and not empty: the C test \<open>p && *p\<close>.\<close>

definition given :: "bytes option \<Rightarrow> bytes option" where
  "given s = (case s of None \<Rightarrow> None | Some x \<Rightarrow> if x = [] then None else Some x)"

definition crlf :: bytes where
  "crlf = [13, 10]"

definition ndef_build_vcard_message ::
  "bytes option \<Rightarrow> bytes option \<Rightarrow> bytes option \<Rightarrow> bytes option" where
  "ndef_build_vcard_message name phone email =
     (case given name of None \<Rightarrow> None
      | Some n \<Rightarrow>
          (let vcard =
             str ''BEGIN:VCARD'' @ crlf @ str ''VERSION:3.0'' @ crlf
             @ str ''N:;'' @ n @ str '';;;'' @ crlf
             @ str ''FN:'' @ n @ crlf
             @ (case given phone of None \<Rightarrow> [] | Some p \<Rightarrow> str ''TEL:'' @ p @ crlf)
             @ (case given email of None \<Rightarrow> [] | Some e \<Rightarrow> str ''EMAIL:'' @ e @ crlf)
             @ str ''END:VCARD'' @ crlf
           in build_single_record NDEF_TNF_MEDIA_TYPE (str ''text/vcard'') vcard))"

section \<open>Wi-Fi credentials\<close>

definition WSC_ATTR_SSID :: nat where "WSC_ATTR_SSID = 0x1045"
definition WSC_ATTR_AUTH_TYPE :: nat where "WSC_ATTR_AUTH_TYPE = 0x1003"
definition WSC_ATTR_ENCRYPTION_TYPE :: nat where "WSC_ATTR_ENCRYPTION_TYPE = 0x100f"
definition WSC_ATTR_NETWORK_KEY :: nat where "WSC_ATTR_NETWORK_KEY = 0x1027"
definition WSC_ATTR_MAC_ADDRESS :: nat where "WSC_ATTR_MAC_ADDRESS = 0x1020"
definition WSC_ATTR_CREDENTIAL :: nat where "WSC_ATTR_CREDENTIAL = 0x100e"

lemmas wsc_consts = WSC_ATTR_SSID_def WSC_ATTR_AUTH_TYPE_def WSC_ATTR_ENCRYPTION_TYPE_def
  WSC_ATTR_NETWORK_KEY_def WSC_ATTR_MAC_ADDRESS_def WSC_ATTR_CREDENTIAL_def

text \<open>\<open>len\<close> is a \<open>guint16\<close>; the callers cast the length to it.\<close>

definition wsc_append_tlv :: "bytes \<Rightarrow> nat \<Rightarrow> bytes \<Rightarrow> nat \<Rightarrow> bytes" where
  "wsc_append_tlv out ty val len = out @ be16 ty @ be16 len @ take len val"

definition wsc_append_tlv_u16 :: "bytes \<Rightarrow> nat \<Rightarrow> nat \<Rightarrow> bytes" where
  "wsc_append_tlv_u16 out ty val = wsc_append_tlv out ty (be16 val) 2"

definition ascii_tolower :: "byte \<Rightarrow> byte" where
  "ascii_tolower c = (if 65 \<le> c \<and> c \<le> 90 then c + 32 else c)"

definition token_is :: "bytes option \<Rightarrow> string \<Rightarrow> bool" where
  "token_is val candidate =
     (case val of None \<Rightarrow> False
      | Some v \<Rightarrow> map ascii_tolower v = map ascii_tolower (str candidate))"

definition wsc_auth_type :: "bytes option \<Rightarrow> nat" where
  "wsc_auth_type auth =
     (if token_is auth ''Open'' \<or> token_is auth ''None'' then 0x0001
      else if token_is auth ''WPA-Personal'' \<or> token_is auth ''WPA'' then 0x0002
      else if token_is auth ''WPA2-Personal'' \<or> token_is auth ''WPA2'' then 0x0020
      else 0x0022)"

definition wsc_encryption_type :: "bytes option \<Rightarrow> nat" where
  "wsc_encryption_type encryption =
     (if token_is encryption ''None'' then 0x0001
      else if token_is encryption ''WEP'' then 0x0002
      else if token_is encryption ''TKIP'' then 0x0004
      else if token_is encryption ''AES'' then 0x0008
      else 0x000c)"

definition wifi_credential ::
  "bytes \<Rightarrow> bytes option \<Rightarrow> bytes option \<Rightarrow> bytes option \<Rightarrow> bytes" where
  "wifi_credential ssid password auth encryption =
     (let c1 = wsc_append_tlv [] WSC_ATTR_SSID ssid (length ssid mod 65536);
          c2 = wsc_append_tlv_u16 c1 WSC_ATTR_AUTH_TYPE (wsc_auth_type auth);
          c3 = wsc_append_tlv_u16 c2 WSC_ATTR_ENCRYPTION_TYPE (wsc_encryption_type encryption);
          c4 = (case given password of None \<Rightarrow> c3
                | Some k \<Rightarrow> wsc_append_tlv c3 WSC_ATTR_NETWORK_KEY k (length k mod 65536))
      in wsc_append_tlv c4 WSC_ATTR_MAC_ADDRESS (replicate 6 0xff) 6)"

definition ndef_build_wifi_message ::
  "bytes option \<Rightarrow> bytes option \<Rightarrow> bytes option \<Rightarrow> bytes option \<Rightarrow> bytes option" where
  "ndef_build_wifi_message ssid password auth encryption =
     (case given ssid of None \<Rightarrow> None
      | Some s \<Rightarrow>
          if 32 < length s then None
          else if (case password of None \<Rightarrow> False | Some p \<Rightarrow> 64 < length p) then None
          else (let credential = wifi_credential s password auth encryption;
                    payload = wsc_append_tlv [] WSC_ATTR_CREDENTIAL credential
                                (length credential mod 65536)
                in build_single_record NDEF_TNF_MEDIA_TYPE (str ''application/vnd.wfa.wsc'')
                     payload))"

section \<open>Bluetooth pairing\<close>

text \<open>
  \<open>sscanf\<close>'s \<open>%x\<close>: white space is skipped, a sign and a \<open>0x\<close> prefix are accepted, and
  the value is that of \<open>strtoul\<close> (saturating at \<open>ULONG_MAX\<close>, negated modulo \<open>2^64\<close>)
  stored in an \<open>unsigned int\<close>.  \<open>None\<close> is a matching failure.
\<close>

definition is_space :: "byte \<Rightarrow> bool" where
  "is_space c \<longleftrightarrow> c = 32 \<or> (9 \<le> c \<and> c \<le> 13)"

definition scan_sign :: "bytes \<Rightarrow> bool \<times> bytes" where
  "scan_sign s = (case s of [] \<Rightarrow> (False, [])
     | c # r \<Rightarrow> if c = 45 then (True, r) else if c = 43 then (False, r) else (False, s))"

definition skip_0x :: "bytes \<Rightarrow> bytes" where
  "skip_0x s = (if has_prefix s [48, 120] \<or> has_prefix s [48, 88] then drop 2 s else s)"

definition strtoul_uint :: "bool \<Rightarrow> nat \<Rightarrow> nat" where
  "strtoul_uint neg v =
     (if 2 ^ 64 \<le> v then 2 ^ 32 - 1
      else if neg then nat (- int v mod 2 ^ 32) else v mod 2 ^ 32)"

definition hex_number :: "bytes \<Rightarrow> nat" where
  "hex_number ds = foldl (\<lambda>v d. v * 16 + (case xdigit_value d of None \<Rightarrow> 0 | Some x \<Rightarrow> x)) 0 ds"

definition scan_hex :: "bytes \<Rightarrow> (nat \<times> bytes) option" where
  "scan_hex s =
     (let (neg, s2) = scan_sign (dropWhile is_space s);
          s3 = skip_0x s2;
          ds = takeWhile (\<lambda>c. xdigit_value c \<noteq> None) s3
      in if ds = [] then None
         else Some (strtoul_uint neg (hex_number ds), drop (length ds) s3))"

text \<open>The conversions of \<open>"%x:%x:%x:%x:%x:%x"\<close>; the result counts only when all match.\<close>

fun scan_fields :: "nat \<Rightarrow> bytes \<Rightarrow> nat list option" where
  "scan_fields 0 s = Some []"
| "scan_fields (Suc n) s =
     (case scan_hex s of None \<Rightarrow> None
      | Some (v, r) \<Rightarrow>
          if n = 0 then Some [v]
          else (case r of [] \<Rightarrow> None
                | c # r' \<Rightarrow> if c = 58 then map_option (Cons v) (scan_fields n r') else None))"

definition parse_mac_address :: "bytes option \<Rightarrow> bytes option" where
  "parse_mac_address text =
     (case text of None \<Rightarrow> None
      | Some t \<Rightarrow>
          (case scan_fields 6 t of None \<Rightarrow> None
           | Some values \<Rightarrow> if \<exists>v \<in> set values. 0xff < v then None else Some (map byte_of values)))"

definition ndef_build_bluetooth_message :: "bytes option \<Rightarrow> bytes option \<Rightarrow> bytes option" where
  "ndef_build_bluetooth_message mac_address device_name =
     (case parse_mac_address mac_address of None \<Rightarrow> None
      | Some mac \<Rightarrow>
          (let name = (case device_name of None \<Rightarrow> [] | Some d \<Rightarrow> d);
               name_len = length name;
               reversed = map (\<lambda>n. mac ! (5 - n)) [0..<6];
               eir = (if 0 < name_len \<and> name_len \<le> 0xfc
                      then [byte_of (name_len + 1), 0x09] @ name else []);
               payload = [0, 0] @ reversed @ eir;
               total_len = (length payload - 2) mod 65536;
               payload' = payload[0 := byte_of (total_len mod 256), 1 := byte_of (total_len div 256)]
           in build_single_record NDEF_TNF_MEDIA_TYPE
                (str ''application/vnd.bluetooth.ep.oob'') payload'))"

section \<open>Type 2 TLV\<close>

definition ndef_wrap_type2_tlv :: "bytes option \<Rightarrow> bytes option" where
  "ndef_wrap_type2_tlv message =
     (case message of None \<Rightarrow> None
      | Some m \<Rightarrow>
          Some ([0x03]
            @ (if length m < 0xff then [byte_of (length m)]
               else [0xff, byte_of (length m div 256), byte_of (length m mod 256)])
            @ m @ [0xfe]))"

end
