(* ===== verification/Ndef_Facts.thy ===== *)
theory Ndef_Facts
  imports Ndef
begin

text \<open>
  What \<open>ndef.c\<close> guarantees: the parser stays inside its buffer when \<open>gsize\<close> is wide
  enough, the encoders and the decoder are inverse to each other, the abbreviation
  chosen for a URI is the longest one, hex strings and Type 2 TLVs round-trip.
\<close>

section \<open>Memory safety of the parser\<close>

lemma ndef_parse_body_safe:
  assumes "pos + tlen + plen + ilen < 2 ^ w"
  shows "ndef_parse_body w data hdr tlen plen ilen pos \<noteq> Undefined"
proof (cases "length data < pos + tlen + ilen + plen")
  case True
  with assms show ?thesis by (simp add: ndef_parse_body_def ac_simps)
next
  case False
  then have "pos + tlen \<le> length data" "pos + tlen + ilen \<le> length data"
    "pos + tlen + ilen + plen \<le> length data" by auto
  then show ?thesis by (simp add: ndef_parse_body_def read_or_def)
qed

lemma ndef_parse_id_safe:
  assumes "pos + tlen + plen + 256 < 2 ^ w"
  shows "ndef_parse_id w data hdr tlen plen pos \<noteq> Undefined"
proof -
  have "ndef_parse_body w data hdr tlen plen (unat b) (pos + 1) \<noteq> Undefined" for b :: byte
    using assms unat_byte_less [of b] by (intro ndef_parse_body_safe) linarith
  moreover have "ndef_parse_body w data hdr tlen plen 0 pos \<noteq> Undefined"
    using assms by (intro ndef_parse_body_safe) linarith
  ultimately show ?thesis by (auto simp: ndef_parse_id_def read_or_def rd_None_iff split: option.splits)
qed

text \<open>The largest sum the parser forms for one record.\<close>

definition ndef_slack :: nat where
  "ndef_slack = 4294968320"

lemma ndef_parse_record_safe:
  assumes "length data + ndef_slack \<le> 2 ^ w" and "pos < length data"
  shows "ndef_parse_record w data pos \<noteq> Undefined"
proof -
  have short: "ndef_parse_id w data h (unat t) (unat p) (pos + 3) \<noteq> Undefined" for h t p :: byte
    using assms [unfolded ndef_slack_def] unat_byte_less [of t] unat_byte_less [of p]
    by (intro ndef_parse_id_safe) linarith
  have long: "ndef_parse_id w data h (unat t)
      (unat a * 16777216 + unat b * 65536 + unat c * 256 + unat d) (pos + 6) \<noteq> Undefined"
    for h t a b c d :: byte
    using assms [unfolded ndef_slack_def] unat_byte_less [of t] unat_byte_less [of a]
      unat_byte_less [of b] unat_byte_less [of c] unat_byte_less [of d]
    by (intro ndef_parse_id_safe) linarith
  show ?thesis
    using assms(2) short long
    by (auto simp: ndef_parse_record_def read_or_def rd_None_iff rd_n_def split: option.splits)
qed

lemma ndef_safe_mutual:
  "length payload + ndef_slack \<le> 2 ^ w \<Longrightarrow> ndef_record_to_json g w tnf ty rid payload \<noteq> None"
  "length data + ndef_slack \<le> 2 ^ w \<Longrightarrow> ndef_message_loop g w data pos recs \<noteq> None"
proof (induction g w tnf ty rid payload and g w data pos recs
    rule: ndef_record_to_json_ndef_message_loop.induct)
  case (1 g w tnf ty rid payload)
  show ?case
    using "1.IH" [OF refl _ refl] "1.prems"
    by (subst ndef_record_to_json.simps) (auto simp: Let_def split: option.splits)
next
  case (2 g w data pos recs)
  show ?case
  proof (cases "pos < length data")
    case False
    then show ?thesis by (subst ndef_message_loop.simps) simp
  next
    case True
    show ?thesis
    proof (cases "ndef_parse_record w data pos")
      case Undefined
      with ndef_parse_record_safe [OF "2.prems" True] show ?thesis by simp
    next
      case Malformed
      with True show ?thesis by (subst ndef_message_loop.simps) simp
    next
      case (Parsed h)
      then have "length (hd_payload h) + ndef_slack \<le> 2 ^ w"
        using ndef_parse_record_Parsed [OF Parsed] "2.prems" by linarith
      with "2.IH" True Parsed "2.prems" show ?thesis
        by (subst ndef_message_loop.simps) (auto split: option.splits)
    qed
  qed
qed


text \<open>A stand-in for GLib's conversions: plain ASCII.\<close>

definition demo_glib :: glib_utf where
  "demo_glib = \<lparr>g_utf8_validate = (\<lambda>bs. True), g_utf16_to_utf8 = (\<lambda>bs n. None)\<rparr>"



section \<open>Single short records\<close>

text \<open>The header byte \<open>MB | ME | SR | tnf\<close> of the encoders, read back.\<close>

definition short_header :: "nat \<Rightarrow> byte" where
  "short_header tnf = NDEF_HDR_MB OR NDEF_HDR_ME OR NDEF_HDR_SR OR (byte_of tnf AND NDEF_HDR_TNF)"

lemma short_header_flags:
  assumes "tnf < 8"
  shows "flag (short_header tnf) NDEF_HDR_SR" and "flag (short_header tnf) NDEF_HDR_ME"
    and "\<not> flag (short_header tnf) NDEF_HDR_IL"
    and "unat (short_header tnf AND NDEF_HDR_TNF) = tnf"
proof -
  from assms consider "tnf = 0" | "tnf = 1" | "tnf = 2" | "tnf = 3" | "tnf = 4" | "tnf = 5"
    | "tnf = 6" | "tnf = 7" by linarith
  then have "flag (short_header tnf) NDEF_HDR_SR \<and> flag (short_header tnf) NDEF_HDR_ME
    \<and> \<not> flag (short_header tnf) NDEF_HDR_IL \<and> unat (short_header tnf AND NDEF_HDR_TNF) = tnf"
    by cases (simp_all add: short_header_def flag_def ndef_consts byte_of_def)
  then show "flag (short_header tnf) NDEF_HDR_SR" and "flag (short_header tnf) NDEF_HDR_ME"
    and "\<not> flag (short_header tnf) NDEF_HDR_IL"
    and "unat (short_header tnf AND NDEF_HDR_TNF) = tnf" by simp_all
qed

lemma build_single_record_eq:
  assumes "length ty < 256"
  shows "build_single_record tnf ty payload =
    (if 255 < length payload then None
     else Some (short_header tnf # byte_of (length ty) # byte_of (length payload) # ty @ payload))"
  using assms by (simp add: build_single_record_def short_header_def Let_def)

lemma drop_plus_3: "drop (n + 3) (a # b # c # xs) = drop n xs"
  by (simp add: numeral_3_eq_3)

lemma parse_single_record:
  assumes "build_single_record tnf ty payload = Some msg"
    and "tnf < 8" and "length ty < 256" and "10 \<le> w"
  shows "ndef_parse_record w msg 0 =
    Parsed \<lparr>hd_header = short_header tnf, hd_type = ty, hd_id = [], hd_payload = payload,
            hd_next = length msg\<rparr>"
proof -
  have msg: "msg = short_header tnf # byte_of (length ty) # byte_of (length payload) # ty @ payload"
    and len: "length payload \<le> 255"
    using assms(1,3) by (auto simp: build_single_record_eq split: if_splits)
  have "(1024::nat) = 2 ^ 10" by simp
  also have "\<dots> \<le> 2 ^ w" using assms(4) by (intro power_increasing) auto
  finally have "length ty + length payload + 3 < 2 ^ w" using assms(3) len by linarith
  then show ?thesis
    using len assms(2,3)
    by (simp add: msg ndef_parse_defs read_or_def short_header_flags rd_n_def drop_plus_3 algebra_simps)
qed

lemma single_record_message:
  assumes "build_single_record tnf ty payload = Some msg"
    and "tnf < 8" and "length ty < 256" and "10 \<le> w"
  shows "ndef_message_to_json g w msg =
    map_option (\<lambda>r. Some (JArr [r])) (ndef_record_to_json g w tnf ty [] payload)"
proof -
  have "msg \<noteq> []" using assms(1,3) by (auto simp: build_single_record_eq split: if_splits)
  then show ?thesis
    using parse_single_record [OF assms] assms(2)
    by (simp add: ndef_message_to_json_def ndef_message_loop.simps short_header_flags
        split: option.splits)
qed

text \<open>The decoder applied to a record that is not a Smart Poster.\<close>

lemma record_to_json_plain:
  "\<not> (tnf = NDEF_TNF_WELL_KNOWN \<and> type_equals ty ''Sp'') \<Longrightarrow>
     ndef_record_to_json g w tnf ty rid payload =
       Some (record_kind_fields g tnf ty payload (record_raw_fields tnf ty rid payload))"
  by (auto simp: ndef_record_to_json.simps Let_def)

lemma is_jobj_raw [simp]: "is_jobj (record_raw_fields tnf ty rid payload)"
  by (simp add: record_raw_fields_def Let_def split: option.split)

section \<open>URI records\<close>

definition prefix_ok :: "bytes \<Rightarrow> nat \<times> nat \<Rightarrow> bool" where
  "prefix_ok uri b \<longleftrightarrow> fst b < length uri_prefixes \<and> snd b = length (uri_prefixes ! fst b)
     \<and> has_prefix uri (uri_prefixes ! fst b)"

lemma best_prefix_ok:
  "prefix_ok uri b \<Longrightarrow> set ns \<subseteq> {..<length uri_prefixes} \<Longrightarrow> prefix_ok uri (best_prefix uri ns b)"
  by (induction uri ns b rule: best_prefix.induct) (auto simp: Let_def prefix_ok_def)

lemma best_prefix_longest:
  "snd b \<le> snd (best_prefix uri ns b) \<and>
   (\<forall>n \<in> set ns. has_prefix uri (uri_prefixes ! n) \<longrightarrow>
      length (uri_prefixes ! n) \<le> snd (best_prefix uri ns b))"
proof (induction uri ns b rule: best_prefix.induct)
  case (1 uri best)
  then show ?case by simp
next
  case (2 uri n ns best_code best_len)
  then show ?case
    by (cases "best_len < length (uri_prefixes ! n) \<and> has_prefix uri (uri_prefixes ! n)")
      (auto simp: Let_def split: if_splits)
qed

lemma length_uri_prefixes: "length uri_prefixes = 36"
  by (simp add: uri_prefixes_def)

lemma uri_prefix_0: "uri_prefixes ! 0 = []"
  by (simp add: uri_prefixes_def str_def)

definition chosen_prefix :: "bytes \<Rightarrow> nat \<times> nat" where
  "chosen_prefix u = best_prefix u [1..<length uri_prefixes] (0, 0)"

lemma chosen_prefix_ok: "prefix_ok u (chosen_prefix u)"
  unfolding chosen_prefix_def
  by (rule best_prefix_ok) (auto simp: prefix_ok_def length_uri_prefixes uri_prefix_0 has_prefix_def)

lemma build_uri_eq:
  "ndef_build_uri_message (Some u) = build_single_record NDEF_TNF_WELL_KNOWN (str ''U'')
     (byte_of (fst (chosen_prefix u)) # drop (snd (chosen_prefix u)) u)"
  by (simp add: ndef_build_uri_message_def chosen_prefix_def case_prod_beta)

lemma decode_chosen_uri:
  assumes "nul_free u"
  shows "decode_uri_payload (byte_of (fst (chosen_prefix u)) # drop (snd (chosen_prefix u)) u) = Some u"
proof -
  obtain c l where b: "chosen_prefix u = (c, l)" by fastforce
  from chosen_prefix_ok [of u] have "c < 36" "l = length (uri_prefixes ! c)"
    and "take (length (uri_prefixes ! c)) u = uri_prefixes ! c"
    by (auto simp: b prefix_ok_def length_uri_prefixes has_prefix_def)
  then have "uri_prefixes ! c @ drop l u = u" by (metis append_take_drop_id)
  with \<open>c < 36\<close> show ?thesis
    using assms by (simp add: b decode_uri_payload_def Let_def length_uri_prefixes nul_free_drop)
qed

lemma type_equals_str [simp]: "type_equals (str a) b \<longleftrightarrow> str a = str b"
  by (simp add: type_equals_def)

text \<open>
  Writing a URI and reading the tag back gives the URI: the message built for
  any NUL-free \<open>u\<close> that fits a short record parses to exactly one record whose \<open>kind\<close> is
  \<open>uri\<close> and whose \<open>uri\<close> is \<open>u\<close>, abbreviation expanded.
\<close>

theorem uri_message_roundtrip:
  assumes "ndef_build_uri_message (Some u) = Some msg" and "nul_free u" and "10 \<le> w"
  shows "\<exists>r. ndef_message_to_json g w msg = Some (Some (JArr [r]))
    \<and> jget r ''kind'' = Some (JStr (str ''uri'')) \<and> jget r ''uri'' = Some (JStr u)"
proof -
  from assms(1) have b: "build_single_record NDEF_TNF_WELL_KNOWN (str ''U'')
     (byte_of (fst (chosen_prefix u)) # drop (snd (chosen_prefix u)) u) = Some msg"
    by (simp add: build_uri_eq)
  show ?thesis
    using single_record_message [OF b _ _ assms(3), of g]
    by (simp add: NDEF_TNF_WELL_KNOWN_def length_str record_to_json_plain record_kind_fields_def
        decode_chosen_uri assms(2))
qed

theorem uri_message_roundtrip_witness:
  "\<exists>r. ndef_message_to_json demo_glib 64 (the (ndef_build_uri_message (Some (str ''https://webos-ports.org'')))) =
      Some (Some (JArr [r])) \<and> jget r ''uri'' = Some (JStr (str ''https://webos-ports.org''))"
proof -
  have "ndef_build_uri_message (Some (str ''https://webos-ports.org'')) =
      Some (the (ndef_build_uri_message (Some (str ''https://webos-ports.org''))))"
    by (simp add: build_uri_eq build_single_record_eq length_str)
  moreover have "nul_free (str ''https://webos-ports.org'')" by code_simp
  ultimately show ?thesis using uri_message_roundtrip [of "str ''https://webos-ports.org''" _ 64 demo_glib] by auto
qed

text \<open>
  The abbreviation written is the longest one of the table that fits the URI.
\<close>

theorem uri_prefix_longest:
  "\<exists>c l. ndef_build_uri_message (Some u) = build_single_record NDEF_TNF_WELL_KNOWN (str ''U'')
       (byte_of c # drop l u)
     \<and> uri_prefixes ! c = take l u \<and> c < length uri_prefixes
     \<and> \<not> (\<exists>n < length uri_prefixes. has_prefix u (uri_prefixes ! n) \<and> l < length (uri_prefixes ! n))"
proof -
  have "length (uri_prefixes ! n) \<le> snd (chosen_prefix u)"
    if "n < length uri_prefixes" and "has_prefix u (uri_prefixes ! n)" for n
  proof (cases "n = 0")
    case True
    then show ?thesis by (simp add: uri_prefix_0)
  next
    case False
    with that best_prefix_longest [of "(0, 0)" u "[1..<length uri_prefixes]"]
    show ?thesis by (simp add: chosen_prefix_def)
  qed
  with chosen_prefix_ok [of u] show ?thesis
    by (intro exI [of _ "fst (chosen_prefix u)"] exI [of _ "snd (chosen_prefix u)"])
      (auto simp: build_uri_eq prefix_ok_def has_prefix_def leD)
qed

theorem uri_prefix_longest_witness:
  "\<exists>c l. ndef_build_uri_message (Some (str ''http://www.a'')) =
      build_single_record NDEF_TNF_WELL_KNOWN (str ''U'') (byte_of c # drop l (str ''http://www.a''))
    \<and> uri_prefixes ! c = take l (str ''http://www.a'')"
  using uri_prefix_longest [of "str ''http://www.a''"] by blast

section \<open>Text records\<close>

lemma byte_and_mask6: "n < 64 \<Longrightarrow> byte_of n AND 0x3f = byte_of n"
proof -
  assume "n < 64"
  then have "take_bit 6 (byte_of n) = byte_of n"
    unfolding byte_of_def take_bit_of_nat by (simp add: take_bit_nat_eq_self)
  then show ?thesis by (simp add: take_bit_eq_mask mask_numeral)
qed

lemma byte_and_top: "n < 64 \<Longrightarrow> \<not> flag (byte_of n) 0x80"
proof -
  assume "n < 64"
  then have "byte_of n AND 0x80 = (byte_of n AND 0x3f) AND 0x80" by (simp only: byte_and_mask6)
  then show ?thesis by (simp add: flag_def and.assoc)
qed

lemma decode_text_utf8:
  assumes "length lang < 64" and "nul_free lang" and "nul_free t"
  shows "decode_text_payload g (byte_of (length lang) # lang @ t) = Some (t, lang, False)"
  using assms by (simp add: decode_text_payload_def Let_def byte_and_mask6 byte_and_top)

definition text_language :: "bytes option \<Rightarrow> bytes" where
  "text_language language = (case given language of None \<Rightarrow> str ''en'' | Some l \<Rightarrow> l)"

lemma build_text_eq:
  "ndef_build_text_message (Some t) language =
     (if 63 < length (text_language language) then None
      else build_single_record NDEF_TNF_WELL_KNOWN (str ''T'')
        (byte_of (length (text_language language)) # text_language language @ t))"
  by (auto simp: ndef_build_text_message_def text_language_def given_def Let_def split: option.split)

text \<open>
  A text record written by \<open>writeTag\<close> decodes to the same text and language
  (the default \<open>en\<close> when none was given), marked as UTF-8.
\<close>

theorem text_message_roundtrip:
  assumes "ndef_build_text_message (Some t) language = Some msg"
    and "nul_free t" and "nul_free (text_language language)" and "10 \<le> w"
  shows "\<exists>r. ndef_message_to_json g w msg = Some (Some (JArr [r]))
    \<and> jget r ''kind'' = Some (JStr (str ''text'')) \<and> jget r ''text'' = Some (JStr t)
    \<and> jget r ''language'' = Some (JStr (text_language language))
    \<and> jget r ''utf16'' = Some (JBool False)"
proof -
  have len: "length (text_language language) < 64"
    and b: "build_single_record NDEF_TNF_WELL_KNOWN (str ''T'')
      (byte_of (length (text_language language)) # text_language language @ t) = Some msg"
    using assms(1) by (auto simp: build_text_eq split: if_splits)
  show ?thesis
    using single_record_message [OF b _ _ assms(4), of g]
    by (simp add: NDEF_TNF_WELL_KNOWN_def length_str record_to_json_plain record_kind_fields_def
        decode_text_utf8 len assms(2,3))
qed

theorem text_message_roundtrip_witness:
  "\<exists>r. ndef_message_to_json demo_glib 64 (the (ndef_build_text_message (Some (str ''hello'')) (Some (str ''nl'')))) =
      Some (Some (JArr [r])) \<and> jget r ''text'' = Some (JStr (str ''hello''))
    \<and> jget r ''language'' = Some (JStr (str ''nl''))"
proof -
  have "ndef_build_text_message (Some (str ''hello'')) (Some (str ''nl'')) =
      Some (the (ndef_build_text_message (Some (str ''hello'')) (Some (str ''nl''))))"
    and "nul_free (str ''hello'')" and lang: "text_language (Some (str ''nl'')) = str ''nl''"
    and nl: "nul_free (str ''nl'')" by code_simp+
  with text_message_roundtrip [OF this(1,2), of 64 demo_glib] show ?thesis by (auto simp: lang)
qed

section \<open>Hex strings\<close>

lemma unat_hex_digit: "n < 16 \<Longrightarrow> unat (hex_digit n) = (if n < 10 then 48 + n else 87 + n)"
  by (simp add: hex_digit_def)

lemma xdigit_hex_digit: "n < 16 \<Longrightarrow> xdigit_value (hex_digit n) = Some n"
  by (auto simp: xdigit_value_def unat_hex_digit Let_def)

lemma hex_pairs_bytes: "hex_pairs (ndef_bytes_to_hex bs) = Some bs"
proof (induction bs)
  case Nil
  then show ?case by (simp add: ndef_bytes_to_hex_def)
next
  case (Cons b bs)
  have "unat b div 16 < 16" using unat_byte_less [of b] by linarith
  then show ?case
    using Cons by (simp add: ndef_bytes_to_hex_def hex_byte_def xdigit_hex_digit)
qed

lemma length_bytes_to_hex [wire_simps]: "length (ndef_bytes_to_hex bs) = 2 * length bs"
  by (induction bs) (simp_all add: ndef_bytes_to_hex_def hex_byte_def)

text \<open>
  \<open>ndef_hex_to_bytes\<close> inverts \<open>ndef_bytes_to_hex\<close> on every non-empty byte
  string: the \<open>rawDataHex\<close> that getTagInfo reports is what cloneTag turns back into the
  same bytes.
\<close>

theorem hex_roundtrip:
  "bs \<noteq> [] \<Longrightarrow> ndef_hex_to_bytes (Some (ndef_bytes_to_hex bs)) = Some bs"
  by (simp add: ndef_hex_to_bytes_def hex_pairs_bytes length_bytes_to_hex)

theorem hex_roundtrip_witness: "ndef_hex_to_bytes (Some (ndef_bytes_to_hex [0x00, 0x7f, 0xff])) = Some [0x00, 0x7f, 0xff]"
  by (rule hex_roundtrip) simp

section \<open>Type 2 TLV\<close>

text \<open>
  What a reader of the tag does with the data area (NFC Forum Type 2 Tag): the message of
  the NDEF TLV at its start, when the TLV fits and the terminator follows.
\<close>

definition read_type2_tlv :: "bytes \<Rightarrow> bytes option" where
  "read_type2_tlv area =
     (case area of
        t # l # rest \<Rightarrow>
          if t \<noteq> 0x03 then None
          else if l \<noteq> 0xff then
            (if unat l < length rest \<and> rest ! unat l = 0xfe then Some (take (unat l) rest) else None)
          else (case rest of
                  a # b # rest' \<Rightarrow>
                    (let n = unat a * 256 + unat b in
                     if n < length rest' \<and> rest' ! n = 0xfe then Some (take n rest') else None)
                | _ \<Rightarrow> None)
      | _ \<Rightarrow> None)"

lemma byte_of_255: "n < 255 \<Longrightarrow> byte_of n \<noteq> 0xff"
proof
  assume "n < 255" and "byte_of n = 0xff"
  then have "unat (byte_of n) = 255" by simp
  with \<open>n < 255\<close> show False by simp
qed

text \<open>
  The data area written for a message of at most 65535 bytes is read back as that
  message, in the one-byte and in the three-byte length form.
\<close>

theorem type2_tlv_roundtrip:
  assumes "length m < 65536"
  shows "\<exists>area. ndef_wrap_type2_tlv (Some m) = Some area \<and> read_type2_tlv area = Some m"
proof (cases "length m < 255")
  case True
  then show ?thesis
    by (simp add: ndef_wrap_type2_tlv_def read_type2_tlv_def byte_of_255 nth_append)
next
  case False
  have "length m div 256 < 256" using assms by (simp add: less_mult_imp_div_less)
  then have "unat (byte_of (length m div 256)) * 256 + unat (byte_of (length m)) = length m"
    by (simp add: unat_byte_of)
  with False show ?thesis
    by (simp add: ndef_wrap_type2_tlv_def read_type2_tlv_def nth_append Let_def)
qed

theorem type2_tlv_roundtrip_witness:
  "\<exists>area. ndef_wrap_type2_tlv (Some (replicate 300 1)) = Some area \<and> read_type2_tlv area = Some (replicate 300 1)"
  by (rule type2_tlv_roundtrip) simp

section \<open>Media records\<close>

lemma single_media_message:
  assumes "build_single_record NDEF_TNF_MEDIA_TYPE (str mime) payload = Some msg"
    and "length mime < 256" and "10 \<le> w" and "type_to_string (str mime) = Some (str mime)"
  shows "\<exists>r. ndef_message_to_json g w msg = Some (Some (JArr [r]))
    \<and> jget r ''kind'' = Some (JStr (str ''media'')) \<and> jget r ''mediaType'' = Some (JStr (str mime))
    \<and> jget r ''payloadHex'' = Some (JStr (ndef_bytes_to_hex payload))"
  using single_record_message [OF assms(1) _ _ assms(3), of g] assms(2,4)
  by (simp add: NDEF_TNF_MEDIA_TYPE_def NDEF_TNF_WELL_KNOWN_def length_str record_to_json_plain
      record_kind_fields_def record_raw_fields_def Let_def)

lemma length_wsc_append_tlv [wire_simps]:
  "len \<le> length val \<Longrightarrow> length (wsc_append_tlv out ty val len) = length out + 4 + len"
  by (simp add: wsc_append_tlv_def length_be16)

lemma length_wsc_append_tlv_u16 [wire_simps]:
  "length (wsc_append_tlv_u16 out ty v) = length out + 6"
  by (simp add: wsc_append_tlv_u16_def length_wsc_append_tlv length_be16)

lemma length_wifi_credential:
  assumes "length ssid \<le> 32" and "case password of None \<Rightarrow> True | Some p \<Rightarrow> length p \<le> 64"
  shows "length (wifi_credential ssid password auth enc) =
    length ssid + 26 + (case given password of None \<Rightarrow> 0 | Some k \<Rightarrow> 4 + length k)"
  using assms
  by (auto simp: wifi_credential_def Let_def given_def wire_simps split: option.splits if_splits)

text \<open>
  A reader of a Wi-Fi credential: the attributes of a WSC byte string, in order, as
  (type, value) pairs; \<open>None\<close> when an attribute runs past the end.
\<close>

fun wsc_attributes :: "bytes \<Rightarrow> (nat \<times> bytes) list option" where
  "wsc_attributes [] = Some []"
| "wsc_attributes (a # b # c # d # rest) =
     (let n = unat c * 256 + unat d in
      if length rest < n then None
      else map_option (Cons (unat a * 256 + unat b, take n rest)) (wsc_attributes (drop n rest)))"
| "wsc_attributes bs = None"

lemma wsc_attributes_tlv:
  assumes "ty < 65536" and "length val < 65536"
  shows "wsc_attributes (wsc_append_tlv [] ty val (length val) @ rest)
    = map_option (Cons (ty, val)) (wsc_attributes rest)"
proof -
  have "unat (byte_of (ty div 256)) * 256 + unat (byte_of (ty mod 256)) = ty"
    and "unat (byte_of (length val div 256)) * 256 + unat (byte_of (length val mod 256)) = length val"
    using assms by (simp_all add: unat_byte_of less_mult_imp_div_less)
  then show ?thesis
    by (simp add: wsc_append_tlv_def be16_def Let_def del: byte_of_mod)
qed

lemma wsc_attributes_u16:
  "ty < 65536 \<Longrightarrow> wsc_attributes (wsc_append_tlv [] ty (be16 v) 2 @ rest)
    = map_option (Cons (ty, be16 v)) (wsc_attributes rest)"
  using wsc_attributes_tlv [of ty "be16 v" rest] by (simp add: length_be16)

lemma wsc_append_tlv_append:
  "wsc_append_tlv out ty val len = out @ wsc_append_tlv [] ty val len"
  by (simp add: wsc_append_tlv_def)

lemma wsc_append_u16_tlv:
  "wsc_append_tlv_u16 out ty v = out @ wsc_append_tlv [] ty (be16 v) (length (be16 v))"
  by (simp add: wsc_append_tlv_u16_def wsc_append_tlv_def length_be16)

lemma wifi_credential_attributes:
  assumes "length ssid \<le> 32" and "case password of None \<Rightarrow> True | Some p \<Rightarrow> length p \<le> 64"
  shows "wsc_attributes (wifi_credential ssid password auth enc) = Some ([(WSC_ATTR_SSID, ssid),
         (WSC_ATTR_AUTH_TYPE, be16 (wsc_auth_type auth)),
         (WSC_ATTR_ENCRYPTION_TYPE, be16 (wsc_encryption_type enc))]
         @ (case given password of None \<Rightarrow> [] | Some k \<Rightarrow> [(WSC_ATTR_NETWORK_KEY, k)])
         @ [(WSC_ATTR_MAC_ADDRESS, replicate 6 0xff)])"
proof -
  define key where "key = (case given password of None \<Rightarrow> []
    | Some k \<Rightarrow> wsc_append_tlv [] WSC_ATTR_NETWORK_KEY k (length k))"
  have mac: "wsc_attributes (wsc_append_tlv [] WSC_ATTR_MAC_ADDRESS (replicate 6 0xff) 6)
      = Some [(WSC_ATTR_MAC_ADDRESS, replicate 6 0xff)]"
    using wsc_attributes_tlv [of WSC_ATTR_MAC_ADDRESS "replicate 6 0xff" "[]"]
    by (simp add: WSC_ATTR_MAC_ADDRESS_def)
  have key_len: "\<And>k. given password = Some k \<Longrightarrow> length k < 65536"
    using assms(2) by (auto simp: given_def split: option.splits if_splits)
  have cred: "wifi_credential ssid password auth enc =
      wsc_append_tlv [] WSC_ATTR_SSID ssid (length ssid)
      @ wsc_append_tlv [] WSC_ATTR_AUTH_TYPE (be16 (wsc_auth_type auth)) (length (be16 (wsc_auth_type auth)))
      @ wsc_append_tlv [] WSC_ATTR_ENCRYPTION_TYPE (be16 (wsc_encryption_type enc))
          (length (be16 (wsc_encryption_type enc)))
      @ key @ wsc_append_tlv [] WSC_ATTR_MAC_ADDRESS (replicate 6 0xff) 6"
    using assms(1) key_len
    by (auto simp: wifi_credential_def Let_def key_def wsc_append_u16_tlv wsc_append_tlv_append [of "_ @ _"]
        wsc_append_tlv_append [of "wsc_append_tlv [] _ _ _"] split: option.split)
  have tail: "wsc_attributes (key @ wsc_append_tlv [] WSC_ATTR_MAC_ADDRESS (replicate 6 0xff) 6) =
      Some ((case given password of None \<Rightarrow> [] | Some k \<Rightarrow> [(WSC_ATTR_NETWORK_KEY, k)])
        @ [(WSC_ATTR_MAC_ADDRESS, replicate 6 0xff)])"
    by (cases "given password")
      (simp_all add: key_def mac wsc_attributes_tlv WSC_ATTR_NETWORK_KEY_def key_len)
  show ?thesis
    unfolding cred using assms(1)
    by (simp add: wsc_attributes_tlv wsc_attributes_u16 tail length_be16 WSC_ATTR_SSID_def WSC_ATTR_AUTH_TYPE_def
        WSC_ATTR_ENCRYPTION_TYPE_def)
qed

text \<open>
  Every network name of 1 to 32 bytes with a passphrase of at most 64 bytes is
  encoded (the credential always fits a short record), and reading the credential back
  gives the attributes that were asked for, in the order of the WSC specification, with
  the passphrase present exactly when one was given.
\<close>

theorem wifi_message_attributes:
  assumes "1 \<le> length ssid" and "length ssid \<le> 32"
    and "case password of None \<Rightarrow> True | Some p \<Rightarrow> length p \<le> 64"
  shows "\<exists>msg cred. ndef_build_wifi_message (Some ssid) password auth enc = Some msg
    \<and> drop 26 msg = wsc_append_tlv [] WSC_ATTR_CREDENTIAL cred (length cred)
    \<and> wsc_attributes cred = Some ([(WSC_ATTR_SSID, ssid),
         (WSC_ATTR_AUTH_TYPE, be16 (wsc_auth_type auth)),
         (WSC_ATTR_ENCRYPTION_TYPE, be16 (wsc_encryption_type enc))]
         @ (case given password of None \<Rightarrow> [] | Some k \<Rightarrow> [(WSC_ATTR_NETWORK_KEY, k)])
         @ [(WSC_ATTR_MAC_ADDRESS, replicate 6 0xff)])"
proof -
  let ?cred = "wifi_credential ssid password auth enc"
  let ?payload = "wsc_append_tlv [] WSC_ATTR_CREDENTIAL ?cred (length ?cred)"
  have len: "length ?cred \<le> 126"
    using length_wifi_credential [OF assms(2,3), of auth enc] assms(2,3)
    by (auto simp: given_def split: option.splits)
  then have plen: "length ?payload \<le> 130" by (simp add: length_wsc_append_tlv)
  have "ndef_build_wifi_message (Some ssid) password auth enc =
      build_single_record NDEF_TNF_MEDIA_TYPE (str ''application/vnd.wfa.wsc'') ?payload"
    using assms len by (auto simp: ndef_build_wifi_message_def given_def Let_def split: option.splits)
  moreover have "length (str ''application/vnd.wfa.wsc'') = 23" by (simp add: length_str)
  ultimately have "ndef_build_wifi_message (Some ssid) password auth enc =
      Some (short_header NDEF_TNF_MEDIA_TYPE # byte_of 23 # byte_of (length ?payload)
        # str ''application/vnd.wfa.wsc'' @ ?payload)"
    using plen by (simp add: build_single_record_eq)
  moreover have "wsc_attributes ?cred = Some ([(WSC_ATTR_SSID, ssid),
         (WSC_ATTR_AUTH_TYPE, be16 (wsc_auth_type auth)),
         (WSC_ATTR_ENCRYPTION_TYPE, be16 (wsc_encryption_type enc))]
         @ (case given password of None \<Rightarrow> [] | Some k \<Rightarrow> [(WSC_ATTR_NETWORK_KEY, k)])
         @ [(WSC_ATTR_MAC_ADDRESS, replicate 6 0xff)])"
    using assms(2,3) by (rule wifi_credential_attributes)
  ultimately show ?thesis
    by (intro exI [of _ ?cred] exI conjI) (auto simp: drop_Cons' length_str)
qed

theorem wifi_message_attributes_witness:
  "\<exists>msg cred. ndef_build_wifi_message (Some (str ''home'')) (Some (str ''secret'')) (Some (str ''wpa2-psk'')) None = Some msg
    \<and> drop 26 msg = wsc_append_tlv [] WSC_ATTR_CREDENTIAL cred (length cred)"
  using wifi_message_attributes [of "str ''home''" "Some (str ''secret'')" "Some (str ''wpa2-psk'')" None]
  by (auto simp: length_str)

section \<open>Bluetooth\<close>

lemma length_scan_fields: "scan_fields n s = Some vs \<Longrightarrow> length vs = n"
proof (induction n s arbitrary: vs rule: scan_fields.induct)
  case (1 s)
  then show ?case by simp
next
  case (2 n s)
  then show ?case by (auto split: option.splits prod.splits if_splits list.splits)
qed

lemma length_parse_mac: "parse_mac_address t = Some mac \<Longrightarrow> length mac = 6"
  by (auto simp: parse_mac_address_def dest: length_scan_fields split: option.splits if_splits)

lemma rev_by_index: "length mac = 6 \<Longrightarrow> map (\<lambda>n. mac ! (5 - n)) [0..<6] = rev mac"
  by (auto simp: list_eq_iff_nth_eq rev_nth)

text \<open>The out-of-band block: its length (everything after it), the address reversed, the name.\<close>

definition oob_block :: "bytes \<Rightarrow> bytes \<Rightarrow> bytes" where
  "oob_block mac name =
     (let eir = (if name = [] then [] else byte_of (length name + 1) # 0x09 # name) in
      [byte_of (6 + length eir), byte_of ((6 + length eir) div 256)] @ rev mac @ eir)"

lemma bluetooth_eq:
  assumes "parse_mac_address (Some t) = Some mac"
  shows "ndef_build_bluetooth_message (Some t) name =
    build_single_record NDEF_TNF_MEDIA_TYPE (str ''application/vnd.bluetooth.ep.oob'')
      (oob_block mac (case name of None \<Rightarrow> [] | Some n \<Rightarrow> if length n \<le> 252 then n else []))"
  using assms length_parse_mac [OF assms]
  by (auto simp: ndef_build_bluetooth_message_def rev_by_index oob_block_def Let_def split: option.split)

text \<open>
  With a well-formed address a name of at most 245 bytes is written in full;
  names of 246 to 252 bytes make the whole message fail, because the name passes the
  \<open>0xfc\<close> test but no longer fits the short record; and longer names are dropped, giving
  exactly the message without a name.
\<close>

theorem bluetooth_name_lengths:
  assumes "parse_mac_address (Some t) = Some mac"
  shows "(length n \<le> 245 \<longrightarrow> ndef_build_bluetooth_message (Some t) (Some n)
      = Some (short_header NDEF_TNF_MEDIA_TYPE # 32 # byte_of (length (oob_block mac n))
          # str ''application/vnd.bluetooth.ep.oob'' @ oob_block mac n))
    \<and> (246 \<le> length n \<and> length n \<le> 252 \<longrightarrow>
        ndef_build_bluetooth_message (Some t) (Some n) = None)
    \<and> (253 \<le> length n \<longrightarrow>
        ndef_build_bluetooth_message (Some t) (Some n) = ndef_build_bluetooth_message (Some t) None)"
proof -
  have len: "length (oob_block mac n) = (if n = [] then 8 else 10 + length n)"
    using length_parse_mac [OF assms] by (simp add: oob_block_def)
  have mime: "length (str ''application/vnd.bluetooth.ep.oob'') = 32" by (simp add: length_str)
  show ?thesis
    by (auto simp: bluetooth_eq [OF assms] build_single_record_eq mime len byte_of_def)
qed

theorem bluetooth_name_lengths_witness:
  "ndef_build_bluetooth_message (Some (str ''00:11:22:33:44:55'')) (Some (replicate 250 65)) = None
   \<and> ndef_build_bluetooth_message (Some (str ''00:11:22:33:44:55'')) (Some (replicate 260 65)) =
       ndef_build_bluetooth_message (Some (str ''00:11:22:33:44:55'')) None"
proof -
  have mac: "parse_mac_address (Some (str ''00:11:22:33:44:55'')) = Some [0x00, 0x11, 0x22, 0x33, 0x44, 0x55]"
    by code_simp
  show ?thesis
    using bluetooth_name_lengths [OF mac, of "replicate 250 65"] bluetooth_name_lengths [OF mac, of "replicate 260 65"]
    by simp
qed

end
