(* ===== verification/Tlv.thy ===== *)
theory Tlv
  imports Prelude
begin

text \<open>
  BER-TLV lengths and the scan over the data objects of a secure messaging response
  (\<open>ber_length\<close>, \<open>bac_ber_tlv_header\<close> and the loops of \<open>bac_sm_unprotect\<close> and
  \<open>pace_sm_unprotect\<close>).  A C pointer into a buffer is the buffer with an offset; the
  \<open>avail\<close> argument is the length the caller claims, not the length of the buffer.
\<close>

section \<open>Headers\<close>

text \<open>Result: length of the length field and declared content length.\<close>

definition ber_length :: "bytes \<Rightarrow> nat \<Rightarrow> nat \<Rightarrow> (nat \<times> nat) outcome" where
  "ber_length buf off avail =
     (if avail < 1 then Malformed
      else read_or (rd buf off) (\<lambda>p0.
        if p0 < 0x80 then Parsed (1, unat p0)
        else if p0 = 0x81 then
          (if avail < 2 then Malformed
           else read_or (rd buf (off + 1)) (\<lambda>p1. Parsed (2, unat p1)))
        else if p0 = 0x82 then
          (if avail < 3 then Malformed
           else read_or (rd buf (off + 1)) (\<lambda>p1. read_or (rd buf (off + 2)) (\<lambda>p2.
             Parsed (3, unat p1 * 256 + unat p2))))
        else Malformed))"

definition bac_ber_tlv_header :: "bytes \<Rightarrow> nat \<Rightarrow> nat \<Rightarrow> (nat \<times> nat) outcome" where
  "bac_ber_tlv_header buf off len =
     (if len < 2 then Malformed
      else (case ber_length buf (off + 1) (len - 1) of
              Undefined \<Rightarrow> Undefined
            | Malformed \<Rightarrow> Malformed
            | Parsed (len_header_len, content_len) \<Rightarrow> Parsed (1 + len_header_len, content_len)))"

lemma ber_length_defined:
  "off + avail \<le> length buf \<Longrightarrow> ber_length buf off avail \<noteq> Undefined"
  by (auto simp: ber_length_def read_or_Undefined rd_None_iff split: if_splits)

lemma ber_header_defined:
  "off + len \<le> length buf \<Longrightarrow> bac_ber_tlv_header buf off len \<noteq> Undefined"
  using ber_length_defined [of "off + 1" "len - 1" buf]
  by (cases "len < 2") (auto simp: bac_ber_tlv_header_def split: outcome.splits)

lemma ber_length_header: "ber_length buf off avail = Parsed (h, c) \<Longrightarrow> 1 \<le> h \<and> h \<le> avail \<and> h \<le> 3"
  by (auto simp: ber_length_def read_or_Parsed split: if_splits)

lemma ber_header_header:
  "bac_ber_tlv_header buf off len = Parsed (h, c) \<Longrightarrow> 2 \<le> h \<and> h \<le> len \<and> h \<le> 4"
  by (auto simp: bac_ber_tlv_header_def dest!: ber_length_header split: if_splits outcome.splits)

section \<open>The encoding the headers describe\<close>

text \<open>The shortest BER length field for contents of less than 65536 bytes (ICAO 9303-10).\<close>

definition ber_enc :: "nat \<Rightarrow> bytes" where
  "ber_enc n = (if n < 128 then [byte_of n] else if n < 256 then [0x81, byte_of n]
     else [0x82, byte_of (n div 256), byte_of (n mod 256)])"

definition tlv :: "byte \<Rightarrow> bytes \<Rightarrow> bytes" where
  "tlv tag content = tag # ber_enc (length content) @ content"

lemma byte_of_less_128: "byte_of n < 128 \<longleftrightarrow> n mod 256 < 128"
  by (simp add: word_less_nat_alt unat_byte_of)

lemma ber_enc_nonempty: "ber_enc n \<noteq> []"
  by (simp add: ber_enc_def)

lemma length_tlv_ge: "2 \<le> length (tlv tag content)"
  by (simp add: tlv_def ber_enc_def)

text \<open>Reading the length of an encoded object gives its length, wherever it lies.\<close>

lemma ber_length_enc:
  assumes "n < 65536" and "drop off buf = ber_enc n @ rest" and "length (ber_enc n) \<le> avail"
  shows "ber_length buf off avail = Parsed (length (ber_enc n), n)"
proof -
  have nth: "buf ! (off + i) = (ber_enc n @ rest) ! i" for i
  proof (cases "off \<le> length buf")
    case True
    then show ?thesis using assms(2) by (metis nth_drop)
  next
    case False
    with assms(2) show ?thesis by (simp add: ber_enc_nonempty)
  qed
  have rd: "rd buf (off + i) = Some ((ber_enc n @ rest) ! i)" if "i < length (ber_enc n)" for i
  proof -
    have "length (drop off buf) = length (ber_enc n) + length rest" by (simp add: assms(2))
    with that have "off + i < length buf" by simp
    then show ?thesis by (simp add: nth)
  qed
  have two: "unat (byte_of (n div 256)) * 256 + unat (byte_of n) = n"
    using assms(1) by (simp add: unat_byte_of less_mult_imp_div_less)
  have "byte_of n \<noteq> 0x81 \<and> byte_of n \<noteq> 0x82" if "n < 128"
    using that byte_of_inj [of n 129] byte_of_inj [of n 130] by (auto simp: byte_of_def)
  then show ?thesis
    using rd [of 0] rd [of 1] rd [of 2] assms(3) two
    by (auto simp: ber_length_def ber_enc_def byte_of_less_128 unat_byte_of split: if_splits)
qed

section \<open>Scanning the data objects of a response\<close>

text \<open>The three pointers with their lengths; a later object of the same tag replaces an earlier one.\<close>

record sm_dos =
  do87 :: "(nat \<times> nat) option"
  do99 :: "(nat \<times> nat) option"
  do8e :: "(nat \<times> nat) option"

definition no_dos :: sm_dos where
  "no_dos = \<lparr>do87 = None, do99 = None, do8e = None\<rparr>"

definition note_do :: "byte \<Rightarrow> nat \<Rightarrow> nat \<Rightarrow> sm_dos \<Rightarrow> sm_dos" where
  "note_do tag pos len d =
     (if tag = 0x87 then d\<lparr>do87 := Some (pos, len)\<rparr>
      else if tag = 0x99 then d\<lparr>do99 := Some (pos, len)\<rparr>
      else if tag = 0x8E then d\<lparr>do8e := Some (pos, len)\<rparr>
      else d)"

function bac_scan_dos :: "bytes \<Rightarrow> nat \<Rightarrow> sm_dos \<Rightarrow> sm_dos outcome" where
  "bac_scan_dos rapdu pos d =
     (if pos + 2 \<le> length rapdu then
        (case rd rapdu pos of
           None \<Rightarrow> Undefined
         | Some tag \<Rightarrow>
             (case ber_length rapdu (pos + 1) (length rapdu - pos - 1) of
                Undefined \<Rightarrow> Undefined
              | Malformed \<Rightarrow> Malformed
              | Parsed (hlen, clen) \<Rightarrow>
                  if length rapdu < pos + 1 + hlen + clen then Malformed
                  else bac_scan_dos rapdu (pos + 1 + hlen + clen)
                         (note_do tag pos (1 + hlen + clen) d)))
      else Parsed d)"
  by pat_completeness auto
termination by (relation "measure (\<lambda>(rapdu, pos, d). length rapdu - pos)") auto

function pace_scan_dos :: "bytes \<Rightarrow> nat \<Rightarrow> sm_dos \<Rightarrow> sm_dos outcome" where
  "pace_scan_dos rapdu pos d =
     (if pos + 2 \<le> length rapdu then
        (case rd rapdu pos of
           None \<Rightarrow> Undefined
         | Some tag \<Rightarrow>
             (case bac_ber_tlv_header rapdu pos (length rapdu - pos) of
                Undefined \<Rightarrow> Undefined
              | Malformed \<Rightarrow> Malformed
              | Parsed (hlen, clen) \<Rightarrow>
                  if length rapdu < pos + hlen + clen then Malformed
                  else pace_scan_dos rapdu (pos + hlen + clen) (note_do tag pos (hlen + clen) d)))
      else Parsed d)"
  by pat_completeness auto
termination
  by (relation "measure (\<lambda>(rapdu, pos, d). length rapdu - pos)") (auto dest: ber_header_header)

declare bac_scan_dos.simps [simp del] pace_scan_dos.simps [simp del]

text \<open>The two loops differ only in where they count the tag byte.\<close>

lemma pace_scan_dos_eq: "pace_scan_dos rapdu pos d = bac_scan_dos rapdu pos d"
proof (induction rapdu pos d rule: bac_scan_dos.induct)
  case (1 rapdu pos d)
  show ?case
  proof (cases "pos + 2 \<le> length rapdu")
    case False
    then show ?thesis by (simp add: bac_scan_dos.simps pace_scan_dos.simps)
  next
    case True
    then have "\<not> length rapdu - pos < 2" by linarith
    then have "bac_ber_tlv_header rapdu pos (length rapdu - pos) =
      (case ber_length rapdu (pos + 1) (length rapdu - pos - 1) of
         Undefined \<Rightarrow> Undefined | Malformed \<Rightarrow> Malformed | Parsed (h, c) \<Rightarrow> Parsed (1 + h, c))"
      by (simp add: bac_ber_tlv_header_def)
    with True "1.IH" show ?thesis
      by (subst bac_scan_dos.simps, subst pace_scan_dos.simps)
        (auto split: option.split outcome.splits prod.splits)
  qed
qed

lemma bac_scan_dos_defined: "bac_scan_dos rapdu pos d \<noteq> Undefined"
proof (induction rapdu pos d rule: bac_scan_dos.induct)
  case (1 rapdu pos d)
  have "pos + 2 \<le> length rapdu \<Longrightarrow> ber_length rapdu (pos + 1) (length rapdu - pos - 1) \<noteq> Undefined"
    by (rule ber_length_defined) simp
  with "1.IH" show ?case
    by (subst bac_scan_dos.simps) (auto simp: rd_def split: outcome.splits)
qed

text \<open>Every noted object is a TLV of the response and lies inside it.\<close>

definition is_tlv_at :: "bytes \<Rightarrow> nat \<times> nat \<Rightarrow> bool" where
  "is_tlv_at rapdu p \<longleftrightarrow> (case p of (off, len) \<Rightarrow> off + len \<le> length rapdu
     \<and> (\<exists>h c. ber_length rapdu (off + 1) (length rapdu - off - 1) = Parsed (h, c) \<and> len = 1 + h + c))"

definition dos_inside :: "bytes \<Rightarrow> sm_dos \<Rightarrow> bool" where
  "dos_inside rapdu d \<longleftrightarrow> (\<forall>p. p \<in> set_option (do87 d) \<union> set_option (do99 d) \<union> set_option (do8e d)
     \<longrightarrow> is_tlv_at rapdu p)"

lemma dos_insideD:
  assumes "dos_inside rapdu d"
  shows "do87 d = Some p \<Longrightarrow> is_tlv_at rapdu p" and "do99 d = Some p \<Longrightarrow> is_tlv_at rapdu p"
    and "do8e d = Some p \<Longrightarrow> is_tlv_at rapdu p"
  using assms [unfolded dos_inside_def, rule_format, of p] by simp_all

lemma no_dos_inside [simp]: "dos_inside rapdu no_dos"
  by (simp add: dos_inside_def no_dos_def)

lemma note_do_inside:
  "dos_inside rapdu d \<Longrightarrow> is_tlv_at rapdu (pos, len) \<Longrightarrow> dos_inside rapdu (note_do tag pos len d)"
  by (auto simp: dos_inside_def note_do_def)

lemma is_tlv_at_len: "is_tlv_at rapdu (off, len) \<Longrightarrow> off + len \<le> length rapdu \<and> 2 \<le> len"
  by (auto simp: is_tlv_at_def dest: ber_length_header)

text \<open>A narrower claim about the available bytes gives the same header.\<close>

lemma ber_length_avail:
  "ber_length buf off avail' = Parsed x \<Longrightarrow> avail' \<le> avail \<Longrightarrow> ber_length buf off avail = Parsed x"
  by (cases "rd buf off") (auto simp: ber_length_def read_or_def split: if_splits)

lemma is_tlv_at_body:
  "is_tlv_at rapdu (off, len) \<Longrightarrow> ber_length rapdu (off + 1) (len - 1) = Parsed (h, c) \<Longrightarrow> len = 1 + h + c"
  using ber_length_avail [of rapdu "off + 1" "len - 1" "(h, c)" "length rapdu - off - 1"]
  by (auto simp: is_tlv_at_def)

lemma bac_scan_dos_inside:
  "bac_scan_dos rapdu pos d = Parsed d' \<Longrightarrow> dos_inside rapdu d \<Longrightarrow> dos_inside rapdu d'"
proof (induction rapdu pos d rule: bac_scan_dos.induct)
  case (1 rapdu pos d)
  show ?case
  proof (cases "pos + 2 \<le> length rapdu")
    case False
    with "1.prems" show ?thesis by (simp add: bac_scan_dos.simps)
  next
    case True
    with "1.prems"(1) obtain h c where ber: "ber_length rapdu (pos + 1) (length rapdu - pos - 1) = Parsed (h, c)"
      and fit: "pos + 1 + h + c \<le> length rapdu"
      and rest: "bac_scan_dos rapdu (pos + 1 + h + c) (note_do (rapdu ! pos) pos (1 + h + c) d) = Parsed d'"
      by (subst (asm) bac_scan_dos.simps) (auto split: outcome.splits if_splits)
    have "dos_inside rapdu (note_do (rapdu ! pos) pos (1 + h + c) d)"
      using "1.prems"(2) fit ber by (intro note_do_inside) (auto simp: is_tlv_at_def)
    with "1.IH" True ber fit rest show ?thesis by simp
  qed
qed

text \<open>One encoded object is scanned and noted; the scan goes on behind it.\<close>

lemma scan_tlv:
  assumes "length content < 65536"
  shows "bac_scan_dos (pre @ tlv tag content @ rest) (length pre) d =
    bac_scan_dos (pre @ tlv tag content @ rest) (length pre + length (tlv tag content))
      (note_do tag (length pre) (length (tlv tag content)) d)"
proof -
  let ?r = "pre @ tlv tag content @ rest"
  have ber: "ber_length ?r (length pre + 1) (length ?r - length pre - 1) =
      Parsed (length (ber_enc (length content)), length content)"
    by (rule ber_length_enc [OF assms, where rest = "content @ rest"]) (simp_all add: tlv_def)
  show ?thesis
    by (subst bac_scan_dos.simps) (simp only: ber outcome.case prod.case,
      simp add: tlv_def ber_enc_nonempty Suc_le_eq algebra_simps nth_append)
qed

text \<open>
  The status word a card appends is scanned like one more object: its first byte as a tag,
  its second as a length with nothing behind it.  Only a second byte of zero passes.
\<close>

lemma scan_trailing_sw:
  assumes "rapdu = pre @ [sw1, sw2]"
  shows "bac_scan_dos rapdu (length pre) d =
    (if sw2 = 0 then Parsed (note_do sw1 (length pre) 2 d) else Malformed)"
proof -
  have "ber_length rapdu (length pre + 1) (length rapdu - length pre - 1) =
      (if sw2 < 0x80 then Parsed (1, unat sw2) else Malformed)"
    by (auto simp: assms ber_length_def rd_def nth_append)
  moreover have "unat sw2 = 0 \<longleftrightarrow> sw2 = 0" by (simp add: unat_eq_0)
  moreover have two: "note_do sw1 (length pre) (Suc (Suc 0)) d = note_do sw1 (length pre) 2 d"
    by (simp add: eval_nat_numeral)
  ultimately show ?thesis
    by (subst bac_scan_dos.simps)
      (auto simp: assms rd_def nth_append bac_scan_dos.simps two split: if_splits)
qed

end
