(* ===== verification/Mrz.thy ===== *)
theory Mrz
  imports Tlv
begin

text \<open>
  The parts of \<open>bac.c\<close> that read and produce machine readable zone (MRZ) text: check
  digits, the MRZ digest the keys come from, the fields of TD1 and TD3 zones, EF.DG1 and
  the image inside EF.DG2.  MRZ text is a byte string; a C string argument that may be
  NULL is a \<open>bytes option\<close> without a zero byte.
\<close>

section \<open>Check digits\<close>

abbreviation fill :: byte where
  "fill \<equiv> 0x3C"

definition mrz_char_value :: "byte \<Rightarrow> int" where
  "mrz_char_value c =
     (if 0x30 \<le> c \<and> c \<le> 0x39 then int (unat c) - 0x30
      else if 0x41 \<le> c \<and> c \<le> 0x5A then int (unat c) - 0x41 + 10
      else if c = fill then 0
      else - 1)"

definition weights :: "int list" where
  "weights = [7, 3, 1]"

text \<open>The loop of \<open>mrz_check_digit\<close>: \<open>n\<close> counts the characters, \<open>acc\<close> is \<open>sum\<close>.\<close>

fun mrz_digit_loop :: "bytes \<Rightarrow> nat \<Rightarrow> int \<Rightarrow> byte option" where
  "mrz_digit_loop [] n acc = Some (byte_of (0x30 + nat (acc mod 10)))"
| "mrz_digit_loop (c # field) n acc =
     (let v = mrz_char_value c in
      if v < 0 then None else mrz_digit_loop field (n + 1) (acc + v * weights ! (n mod 3)))"

definition mrz_check_digit :: "bytes \<Rightarrow> byte option" where
  "mrz_check_digit field = mrz_digit_loop field 0 0"

section \<open>The MRZ information digest\<close>

definition g_ascii_toupper :: "byte \<Rightarrow> byte" where
  "g_ascii_toupper c = (if 0x61 \<le> c \<and> c \<le> 0x7A then c - 0x20 else c)"

definition MRZ_DOC_NUMBER_LEN :: nat where
  "MRZ_DOC_NUMBER_LEN = 9"

definition MRZ_DATE_LEN :: nat where
  "MRZ_DATE_LEN = 6"

text \<open>\<open>doc\<close>: nine fill characters, overwritten from the left by the uppercased number.\<close>

definition mrz_doc_field :: "bytes \<Rightarrow> bytes" where
  "mrz_doc_field document_number =
     map g_ascii_toupper document_number @ replicate (MRZ_DOC_NUMBER_LEN - length document_number) fill"

text \<open>\<open>mrz_info\<close> as \<open>bac_mrz_sha1\<close> assembles it before hashing.\<close>

definition mrz_info :: "bytes option \<Rightarrow> bytes option \<Rightarrow> bytes option \<Rightarrow> bytes option" where
  "mrz_info document_number date_of_birth date_of_expiry =
     (case (document_number, date_of_birth, date_of_expiry) of
        (Some number, Some dob, Some expiry) \<Rightarrow>
          if length number = 0 \<or> MRZ_DOC_NUMBER_LEN < length number then None
          else if length dob \<noteq> MRZ_DATE_LEN \<or> length expiry \<noteq> MRZ_DATE_LEN then None
          else (let doc = mrz_doc_field number in
            case mrz_check_digit doc of None \<Rightarrow> None | Some d1 \<Rightarrow>
            case mrz_check_digit dob of None \<Rightarrow> None | Some d2 \<Rightarrow>
            case mrz_check_digit expiry of None \<Rightarrow> None | Some d3 \<Rightarrow>
              Some (doc @ [d1] @ dob @ [d2] @ expiry @ [d3]))
      | _ \<Rightarrow> None)"

section \<open>Field parsing\<close>

text \<open>\<open>src\<close> is the zone from the field on; at most \<open>len\<close> and \<open>out_cap - 1\<close> characters.\<close>

definition mrz_trim_copy :: "bytes \<Rightarrow> nat \<Rightarrow> nat \<Rightarrow> bytes" where
  "mrz_trim_copy src len out_cap = takeWhile (\<lambda>c. c \<noteq> fill) (take (min len (out_cap - 1)) src)"

text \<open>\<open>g_strchomp\<close> removes trailing ASCII white space.\<close>

definition g_ascii_isspace :: "byte \<Rightarrow> bool" where
  "g_ascii_isspace c \<longleftrightarrow> c \<in> {0x20, 0x09, 0x0A, 0x0C, 0x0D}"

definition g_strchomp :: "bytes \<Rightarrow> bytes" where
  "g_strchomp s = rev (dropWhile g_ascii_isspace (rev s))"

function mrz_name_sep :: "bytes \<Rightarrow> nat \<Rightarrow> nat \<Rightarrow> nat" where
  "mrz_name_sep field len sep =
     (if sep + 1 < len \<and> \<not> (field ! sep = fill \<and> field ! (sep + 1) = fill)
      then mrz_name_sep field len (sep + 1) else sep)"
  by pat_completeness auto
termination by (relation "measure (\<lambda>(field, len, sep). len - sep)") auto

declare mrz_name_sep.simps [simp del]

definition mrz_spaces :: "bytes \<Rightarrow> bytes" where
  "mrz_spaces s = map (\<lambda>c. if c = fill then 0x20 else c) s"

definition mrz_decode_name :: "bytes \<Rightarrow> nat \<Rightarrow> nat \<Rightarrow> nat \<Rightarrow> bytes \<times> bytes" where
  "mrz_decode_name field len surname_cap given_cap =
     (let sep0 = mrz_name_sep field len 0;
          sep = if len \<le> sep0 + 1 then len else sep0;
          surname = g_strchomp (mrz_spaces (take (min sep (surname_cap - 1)) field));
          given = (if sep + 2 < len
                   then g_strchomp (mrz_spaces (take (min (len - (sep + 2)) (given_cap - 1)) (drop (sep + 2) field)))
                   else [])
      in (surname, given))"

record mrz_fields =
  document_type :: bytes
  issuing_state :: bytes
  surname :: bytes
  given_names :: bytes
  document_number :: bytes
  nationality :: bytes
  date_of_birth :: bytes
  sex :: bytes
  date_of_expiry :: bytes
  document_number_check_ok :: bool
  date_of_birth_check_ok :: bool
  date_of_expiry_check_ok :: bool

definition MRZ_TD1_LEN :: nat where
  "MRZ_TD1_LEN = 90"

definition MRZ_TD3_LEN :: nat where
  "MRZ_TD3_LEN = 88"

text \<open>\<open>mrz_check_digit (mrz + off, n, &digit) && digit == mrz[off + n]\<close>.\<close>

definition mrz_field_ok :: "bytes \<Rightarrow> nat \<Rightarrow> nat \<Rightarrow> bool" where
  "mrz_field_ok mrz off n \<longleftrightarrow> mrz_check_digit (take n (drop off mrz)) = Some (mrz ! (off + n))"

definition bac_parse_mrz_fields :: "bytes option \<Rightarrow> mrz_fields option" where
  "bac_parse_mrz_fields mrz0 =
     (case mrz0 of None \<Rightarrow> None | Some mrz \<Rightarrow>
        if length mrz = MRZ_TD1_LEN then
          (let (sur, giv) = mrz_decode_name (drop 60 mrz) 30 64 64 in
           Some \<lparr>document_type = mrz_trim_copy mrz 2 3,
             issuing_state = mrz_trim_copy (drop 2 mrz) 3 4,
             surname = sur, given_names = giv,
             document_number = mrz_trim_copy (drop 5 mrz) 9 10,
             nationality = mrz_trim_copy (drop 45 mrz) 3 4,
             date_of_birth = mrz_trim_copy (drop 30 mrz) 6 7,
             sex = c_str [mrz ! 37],
             date_of_expiry = mrz_trim_copy (drop 38 mrz) 6 7,
             document_number_check_ok = mrz_field_ok mrz 5 9,
             date_of_birth_check_ok = mrz_field_ok mrz 30 6,
             date_of_expiry_check_ok = mrz_field_ok mrz 38 6\<rparr>)
        else if length mrz = MRZ_TD3_LEN then
          (let (sur, giv) = mrz_decode_name (drop 5 mrz) 39 64 64 in
           Some \<lparr>document_type = mrz_trim_copy mrz 2 3,
             issuing_state = mrz_trim_copy (drop 2 mrz) 3 4,
             surname = sur, given_names = giv,
             document_number = mrz_trim_copy (drop 44 mrz) 9 10,
             nationality = mrz_trim_copy (drop 54 mrz) 3 4,
             date_of_birth = mrz_trim_copy (drop 57 mrz) 6 7,
             sex = c_str [mrz ! 64],
             date_of_expiry = mrz_trim_copy (drop 65 mrz) 6 7,
             document_number_check_ok = mrz_field_ok mrz 44 9,
             date_of_birth_check_ok = mrz_field_ok mrz 57 6,
             date_of_expiry_check_ok = mrz_field_ok mrz 65 6\<rparr>)
        else None)"

section \<open>EF.DG1 and EF.DG2\<close>

text \<open>\<open>bac_parse_dg1_mrz\<close> on the file's bytes, every read checked against their number.\<close>

definition bac_parse_dg1_mrz :: "bytes \<Rightarrow> bytes outcome" where
  "bac_parse_dg1_mrz dg1 =
     (if length dg1 < 2 then Malformed
      else read_or (rd dg1 0) (\<lambda>tag. if tag \<noteq> 0x61 then Malformed
      else (case bac_ber_tlv_header dg1 0 (length dg1) of
        Undefined \<Rightarrow> Undefined | Malformed \<Rightarrow> Malformed
      | Parsed (outer_header, outer_content) \<Rightarrow>
          if length dg1 < outer_header + outer_content then Malformed
          else (let pos = outer_header in
            if length dg1 < pos + 2 then Malformed
            else read_or (rd dg1 pos) (\<lambda>t0. if t0 \<noteq> 0x5F then Malformed
            else read_or (rd dg1 (pos + 1)) (\<lambda>t1. if t1 \<noteq> 0x1F then Malformed
            else (case ber_length dg1 (pos + 2) (length dg1 - pos - 2) of
              Undefined \<Rightarrow> Undefined | Malformed \<Rightarrow> Malformed
            | Parsed (inner_header, inner_content) \<Rightarrow>
                let pos' = pos + (2 + inner_header) in
                if length dg1 < pos' + inner_content then Malformed
                else read_or (rd_n dg1 pos' inner_content) (\<lambda>s. Parsed (c_str s)))))))))"

definition jpeg_magic :: bytes where
  "jpeg_magic = [0xFF, 0xD8, 0xFF]"

definition jp2_magic :: bytes where
  "jp2_magic = [0x00, 0x00, 0x00, 0x0C, 0x6A, 0x50, 0x20, 0x20, 0x0D, 0x0A, 0x87, 0x0A]"

definition jp2_codestream_magic :: bytes where
  "jp2_codestream_magic = [0xFF, 0x4F, 0xFF, 0x51]"

text \<open>The first offset \<open>n \<le> haystack_len - needle_len\<close> where the needle compares equal.\<close>

definition find_bytes :: "bytes \<Rightarrow> bytes \<Rightarrow> nat option" where
  "find_bytes haystack needle =
     (if length needle = 0 \<or> length haystack < length needle then None
      else List.find (\<lambda>n. take (length needle) (drop n haystack) = needle)
             [0..<length haystack - length needle + 1])"

definition bac_extract_dg2_photo :: "bytes \<Rightarrow> (bytes \<times> string) option" where
  "bac_extract_dg2_photo dg2 =
     (let photo = (\<lambda>format pos. Some (drop pos dg2, format)) in
      case find_bytes dg2 jpeg_magic of Some pos \<Rightarrow> photo ''jpeg'' pos | None \<Rightarrow>
      case find_bytes dg2 jp2_magic of Some pos \<Rightarrow> photo ''jpeg2000'' pos | None \<Rightarrow>
      case find_bytes dg2 jp2_codestream_magic of Some pos \<Rightarrow> photo ''jpeg2000'' pos | None \<Rightarrow> None)"

end
