(* ===== verification/Blocks.thy ===== *)
theory Blocks
  imports Prelude
begin

text \<open>
  Two small interfaces both secure messaging layers are built on, each with the pair of
  C functions that provide it in \<open>bac.c\<close> (8-byte blocks and counters) and \<open>pace.c\<close>
  (16-byte): ISO/IEC 9797-1 padding method 2 and the send sequence counter.
\<close>

section \<open>Padding\<close>

text \<open>The contract: padded data is whole blocks, at least one byte longer, and can be unpadded.\<close>

locale block_padding =
  fixes block :: nat
    and pad :: "bytes \<Rightarrow> bytes"
    and unpad :: "bytes \<Rightarrow> bytes option"
  assumes block_pos: "0 < block"
    and pad_aligned: "length (pad m) mod block = 0"
    and pad_bound: "length m < length (pad m) \<and> length (pad m) \<le> length m + block"
    and unpad_pad: "unpad (pad m) = Some m"
begin

lemma pad_inj: "pad m = pad n \<longleftrightarrow> m = n"
  using unpad_pad by (metis option.inject)

lemma pad_nonempty: "pad m \<noteq> []"
  using pad_bound [of m] by auto

lemma pad_length: "length (pad m) = (length m div block + 1) * block"
proof -
  obtain q where q: "length (pad m) = block * q"
    using pad_aligned [of m] by (auto simp: mod_eq_0_iff_dvd)
  have up: "length m < block * (length m div block + 1)"
    using block_pos dividend_less_times_div [of block "length m"] by simp
  have "block * (length m div block) \<le> length m" by simp
  with pad_bound [of m] have "block * (length m div block) < block * q" unfolding q by linarith
  then have "length m div block < q" by simp
  moreover have "block * q < block * (length m div block + 2)"
    using pad_bound [of m] up unfolding q by (simp add: algebra_simps)
  then have "q < length m div block + 2" by (simp only: mult_less_cancel1)
  ultimately have "q = length m div block + 1" by simp
  then show ?thesis by (simp add: q mult.commute)
qed

end

text \<open>\<open>iso_pad\<close>: a marker byte, then zeros up to the block boundary (always at least the marker).\<close>

definition iso_pad_blk :: "nat \<Rightarrow> bytes \<Rightarrow> bytes" where
  "iso_pad_blk blk data = (let pad = blk - length data mod blk in data @ [0x80] @ replicate (pad - 1) 0)"

definition bac_iso_pad :: "bytes \<Rightarrow> bytes" where
  "bac_iso_pad data = iso_pad_blk 8 data"

definition pace_iso_pad :: "bytes \<Rightarrow> bytes" where
  "pace_iso_pad data = iso_pad_blk 16 data"

text \<open>
  The unpadding at the end of \<open>bac_sm_unprotect\<close> and \<open>pace_sm_unprotect\<close>:
  \<open>i\<close> is walked back over zeros, then the byte before it has to be the marker.
\<close>

fun unpad_scan :: "bytes \<Rightarrow> nat \<Rightarrow> nat" where
  "unpad_scan dec 0 = 0"
| "unpad_scan dec (Suc i) = (if dec ! i = 0 then unpad_scan dec i else Suc i)"

definition iso_unpad :: "bytes \<Rightarrow> bytes option" where
  "iso_unpad dec =
     (let i = unpad_scan dec (length dec) in
      if i = 0 \<or> dec ! (i - 1) \<noteq> 0x80 then None else Some (take (i - 1) dec))"

lemma unpad_scan_zeros:
  "unpad_scan (m @ [0x80] @ replicate k 0) (length m + 1 + j) = length m + 1" if "j \<le> k"
  using that by (induction j) (simp_all add: nth_append)

lemma iso_unpad_marker: "iso_unpad (m @ [0x80] @ replicate k 0) = Some m"
  using unpad_scan_zeros [of k k m] by (simp add: iso_unpad_def nth_append)

lemma iso_pad_blk_length:
  "0 < blk \<Longrightarrow> length (iso_pad_blk blk m) = length m + (blk - length m mod blk)"
  by (simp add: iso_pad_blk_def Let_def Suc_diff_Suc)

lemma iso_pad_blk_contract: "0 < blk \<Longrightarrow> block_padding blk (iso_pad_blk blk) iso_unpad"
proof unfold_locales
  fix m :: bytes
  assume blk: "0 < blk"
  have m: "length m mod blk < blk" using blk by simp
  have "length m + (blk - length m mod blk) = blk * (length m div blk) + blk"
    using m mult_div_mod_eq [of blk "length m"] by linarith
  then have "length m + (blk - length m mod blk) = (length m div blk + 1) * blk"
    by (simp add: algebra_simps)
  then show "length (iso_pad_blk blk m) mod blk = 0" by (simp add: iso_pad_blk_length blk)
  show "length m < length (iso_pad_blk blk m) \<and> length (iso_pad_blk blk m) \<le> length m + blk"
    using m unfolding iso_pad_blk_length [OF blk] by linarith
  show "iso_unpad (iso_pad_blk blk m) = Some m"
    unfolding iso_pad_blk_def Let_def by (rule iso_unpad_marker)
qed

interpretation bac_pad: block_padding 8 bac_iso_pad iso_unpad
  using iso_pad_blk_contract [of 8] by (simp add: bac_iso_pad_def [abs_def])

interpretation pace_pad: block_padding 16 pace_iso_pad iso_unpad
  using iso_pad_blk_contract [of 16] by (simp add: pace_iso_pad_def [abs_def])

section \<open>Send sequence counter\<close>

text \<open>The value of a big-endian byte string.\<close>

definition be_val :: "bytes \<Rightarrow> nat" where
  "be_val bs = foldl (\<lambda>v b. v * 256 + unat b) 0 bs"

text \<open>The contract: an increment keeps the width and adds one modulo \<open>256 ^ width\<close>.\<close>

locale send_counter =
  fixes width :: nat
    and incr :: "bytes \<Rightarrow> bytes"
  assumes incr_length: "length c = width \<Longrightarrow> length (incr c) = width"
    and incr_val: "length c = width \<Longrightarrow> be_val (incr c) = (be_val c + 1) mod 256 ^ width"
begin

lemma incr_pow_length: "length c = width \<Longrightarrow> length ((incr ^^ n) c) = width"
  by (induction n) (simp_all add: incr_length)

lemma incr_pow_val: "length c = width \<Longrightarrow> be_val c < 256 ^ width \<Longrightarrow>
    be_val ((incr ^^ n) c) = (be_val c + n) mod 256 ^ width"
  by (induction n) (simp_all add: incr_val incr_pow_length mod_Suc_eq)

text \<open>A counter value is not used twice within one period.\<close>

lemma incr_pow_distinct:
  assumes "length c = width" and "be_val c < 256 ^ width" and "m < n" and "n - m < 256 ^ width"
  shows "(incr ^^ m) c \<noteq> (incr ^^ n) c"
proof
  assume "(incr ^^ m) c = (incr ^^ n) c"
  then have "(be_val c + m) mod 256 ^ width = (be_val c + n) mod 256 ^ width"
    using assms(1,2) by (metis incr_pow_val)
  then have "256 ^ width dvd (n - m)"
    using assms(3) by (metis add_diff_cancel_left less_imp_le_nat mod_eq_dvd_iff_nat nat_add_left_cancel_le)
  with assms(3,4) show False by (meson dvd_imp_le not_less zero_less_diff)
qed

end

text \<open>
  \<open>ssc_increment\<close>: from the last byte backwards, incrementing until a byte does not
  wrap to zero.  \<open>ssc_carry\<close> is the loop on the reversed bytes.
\<close>

fun ssc_carry :: "bytes \<Rightarrow> bytes" where
  "ssc_carry [] = []"
| "ssc_carry (b # bs) = (let b' = b + 1 in if b' \<noteq> 0 then b' # bs else b' # ssc_carry bs)"

definition ssc_increment :: "bytes \<Rightarrow> bytes" where
  "ssc_increment ssc = rev (ssc_carry (rev ssc))"

lemma length_ssc_carry [simp]: "length (ssc_carry bs) = length bs"
  by (induction bs) (simp_all add: Let_def)

lemma length_ssc_increment [simp]: "length (ssc_increment ssc) = length ssc"
  by (simp add: ssc_increment_def)

text \<open>The value of the reversed bytes: least significant first.\<close>

fun le_val :: "bytes \<Rightarrow> nat" where
  "le_val [] = 0"
| "le_val (b # bs) = unat b + 256 * le_val bs"

lemma be_val_snoc [simp]: "be_val (bs @ [b]) = be_val bs * 256 + unat b"
  by (simp add: be_val_def)

lemma be_val_rev: "be_val (rev bs) = le_val bs"
  by (induction bs) (simp_all add: be_val_def)

lemma le_val_bound: "le_val bs < 256 ^ length bs"
proof (induction bs)
  case (Cons b bs)
  have "unat b + 256 * le_val bs < 256 * (le_val bs + 1)"
    using unat_byte_less [of b] by (simp only: distrib_left mult_1_right)
  also have "\<dots> \<le> 256 * 256 ^ length bs"
    using Cons by (intro mult_le_mono2) simp
  finally show ?case by simp
qed simp

lemma be_val_bound: "be_val bs < 256 ^ length bs"
  using le_val_bound [of "rev bs"] be_val_rev [of "rev bs"] by simp

lemma unat_byte_incr: "unat (b + 1 :: byte) = (unat b + 1) mod 256"
  by (simp add: unat_word_ariths)

lemma byte_wrap: "b + 1 = (0 :: byte) \<longleftrightarrow> unat b = 255"
proof -
  have "b + 1 = 0 \<longleftrightarrow> unat (b + 1) = 0" by (simp only: unat_eq_0)
  also have "\<dots> \<longleftrightarrow> unat b = 255"
    using unat_byte_less [of b] unfolding unat_byte_incr by presburger
  finally show ?thesis .
qed

lemma byte_incr:
  assumes "b + 1 \<noteq> (0 :: byte)"
  shows "unat (b + 1) = unat b + 1"
proof -
  have "unat b \<noteq> 255" using assms by (simp only: byte_wrap) simp
  with unat_byte_less [of b] have "unat b + 1 < 256" by linarith
  then show ?thesis by (simp only: unat_byte_incr mod_less)
qed

lemma le_val_carry: "le_val (ssc_carry bs) = (le_val bs + 1) mod 256 ^ length bs"
proof (induction bs)
  case Nil
  then show ?case by simp
next
  case (Cons b bs)
  show ?case
  proof (cases "b + 1 = 0")
    case True
    then have "unat b = 255" by (simp add: byte_wrap)
    then have "le_val (b # bs) + 1 = 256 * (le_val bs + 1)" by simp
    then show ?thesis using True Cons by (simp add: mult_mod_right)
  next
    case False
    then have val: "le_val (ssc_carry (b # bs)) = le_val (b # bs) + 1"
      by (simp add: byte_incr Let_def)
    have "le_val (ssc_carry (b # bs)) < 256 ^ length (b # bs)"
      using le_val_bound [of "ssc_carry (b # bs)"] by (simp only: length_ssc_carry)
    then show ?thesis by (simp only: val mod_less)
  qed
qed

lemma ssc_increment_val: "be_val (ssc_increment ssc) = (be_val ssc + 1) mod 256 ^ length ssc"
  using le_val_carry [of "rev ssc"] be_val_rev [of "rev ssc"]
  by (simp add: ssc_increment_def be_val_rev)

interpretation bac_ssc: send_counter 8 ssc_increment
  by unfold_locales (simp_all add: ssc_increment_val)

interpretation pace_ssc: send_counter 16 ssc_increment
  by unfold_locales (simp_all add: ssc_increment_val)

end
