(* ===== verification/Openssl.thy ===== *)
theory Openssl
  imports Prelude
begin

text \<open>
  The OpenSSL calls of \<open>bac.c\<close> and \<open>pace.c\<close> are parameters of the model, gathered in
  one record: hashes, one-shot ciphers without padding, CMAC.  \<open>None\<close> is an OpenSSL
  error.  What the documentation of these calls promises is collected in the
  predicates below, which theorems take as hypotheses where they need them; a concrete
  instance shows that they can hold together.
\<close>

datatype evp_cipher =
    DES_EDE3_CBC | DES_EDE3_ECB | AES_128_CBC | AES_256_CBC | AES_128_ECB | AES_256_ECB

record openssl =
  SHA1 :: "bytes \<Rightarrow> bytes"
  SHA256 :: "bytes \<Rightarrow> bytes"
  EVP_Cipher :: "evp_cipher \<Rightarrow> bool \<Rightarrow> bytes \<Rightarrow> bytes \<Rightarrow> bytes \<Rightarrow> bytes option"
  EVP_CMAC :: "evp_cipher \<Rightarrow> bytes \<Rightarrow> bytes \<Rightarrow> bytes option"

fun key_size :: "evp_cipher \<Rightarrow> nat" where
  "key_size DES_EDE3_CBC = 24"
| "key_size DES_EDE3_ECB = 24"
| "key_size AES_128_CBC = 16"
| "key_size AES_256_CBC = 32"
| "key_size AES_128_ECB = 16"
| "key_size AES_256_ECB = 32"

fun block_size :: "evp_cipher \<Rightarrow> nat" where
  "block_size DES_EDE3_CBC = 8"
| "block_size DES_EDE3_ECB = 8"
| "block_size c = 16"

text \<open>Digest sizes.\<close>

definition digest_sizes :: "openssl \<Rightarrow> bool" where
  "digest_sizes ossl \<longleftrightarrow> (\<forall>m. length (SHA1 ossl m) = 20 \<and> length (SHA256 ossl m) = 32)"

text \<open>
  With padding disabled a cipher maps whole blocks to as many bytes, for a key of its
  size, and decryption with the same key and IV undoes encryption.
\<close>

definition cipher_works :: "openssl \<Rightarrow> bool" where
  "cipher_works ossl \<longleftrightarrow> (\<forall>c key iv m. length key = key_size c \<longrightarrow> length m mod block_size c = 0 \<longrightarrow>
     (\<exists>e. EVP_Cipher ossl c True key iv m = Some e \<and> length e = length m
        \<and> EVP_Cipher ossl c False key iv e = Some m) \<and>
     (\<exists>d. EVP_Cipher ossl c False key iv m = Some d \<and> length d = length m))"

definition cmac_works :: "openssl \<Rightarrow> bool" where
  "cmac_works ossl \<longleftrightarrow> (\<forall>c key m. length key = key_size c \<longrightarrow>
     (\<exists>t. EVP_CMAC ossl c key m = Some t \<and> length t = 16))"

text \<open>
  \<open>evp_crypt\<close> of \<open>bac.c\<close> (and the same code in \<open>aes_cbc\<close> and \<open>aes_ecb_encrypt_block\<close> of
  \<open>pace.c\<close>): an error of any call, or an output of another length, is FALSE.
\<close>

definition evp_crypt :: "openssl \<Rightarrow> evp_cipher \<Rightarrow> bool \<Rightarrow> bytes \<Rightarrow> bytes \<Rightarrow> bytes \<Rightarrow> bytes option" where
  "evp_crypt ossl cipher encrypt key iv inp =
     (case EVP_Cipher ossl cipher encrypt key iv inp of
        None \<Rightarrow> None
      | Some out \<Rightarrow> if length out = length inp then Some out else None)"

lemma evp_crypt_length: "evp_crypt ossl c b key iv m = Some out \<Longrightarrow> length out = length m"
  by (auto simp: evp_crypt_def split: option.splits if_splits)

lemma evp_crypt_roundtrip:
  assumes "cipher_works ossl" and "length key = key_size c" and "length m mod block_size c = 0"
  shows "\<exists>e. evp_crypt ossl c True key iv m = Some e \<and> length e = length m
    \<and> evp_crypt ossl c False key iv e = Some m"
proof -
  obtain e where "EVP_Cipher ossl c True key iv m = Some e" and "length e = length m"
    and "EVP_Cipher ossl c False key iv e = Some m"
    using assms(1) [unfolded cipher_works_def, rule_format, OF assms(2,3)] by auto
  then show ?thesis by (simp add: evp_crypt_def)
qed

lemma evp_crypt_total:
  assumes "cipher_works ossl" and "length key = key_size c" and "length m mod block_size c = 0"
  shows "\<exists>out. evp_crypt ossl c b key iv m = Some out \<and> length out = length m"
proof (cases b)
  case True
  then show ?thesis using evp_crypt_roundtrip [OF assms, of iv] by auto
next
  case False
  obtain d where "EVP_Cipher ossl c False key iv m = Some d" and "length d = length m"
    using assms(1) [unfolded cipher_works_def, rule_format, OF assms(2,3)] by auto
  with False show ?thesis by (simp add: evp_crypt_def)
qed

section \<open>A concrete instance\<close>

text \<open>
  A stand-in for the library with the documented shape: digests of the right size, a
  cipher that adds the first key byte to every byte, a 16-byte tag.  It witnesses that
  the hypotheses above are satisfiable; nothing of the model depends on it.
\<close>

definition mix :: "nat \<Rightarrow> bytes \<Rightarrow> bytes" where
  "mix n m = map (\<lambda>i. foldl (\<lambda>a b. a * 3 + b) (byte_of i) m) [0..<n]"

definition demo_openssl :: openssl where
  "demo_openssl = \<lparr>SHA1 = mix 20, SHA256 = mix 32,
     EVP_Cipher = (\<lambda>c enc key iv m. Some (map (\<lambda>b. if enc then b + hd (key @ [0]) else b - hd (key @ [0])) m)),
     EVP_CMAC = (\<lambda>c key m. Some (mix 16 (key @ m)))\<rparr>"

lemma length_mix [simp]: "length (mix n m) = n"
  by (simp add: mix_def)

lemma demo_digest_sizes [simp]: "digest_sizes demo_openssl"
  by (simp add: digest_sizes_def demo_openssl_def)

lemma demo_cipher_works [simp]: "cipher_works demo_openssl"
  by (simp add: cipher_works_def demo_openssl_def comp_def)

lemma demo_cmac_works [simp]: "cmac_works demo_openssl"
  by (simp add: cmac_works_def demo_openssl_def)

end
