(* ===== verification/Secure_Messaging.thy ===== *)
theory Secure_Messaging
  imports Tlv Blocks Openssl
begin

text \<open>
  What the secure messaging layers of BAC (\<open>bac.c\<close>) and PACE (\<open>pace.c\<close>) have in
  common: the outcome of unwrapping a response, the short-form data object writer, and
  the contract of a channel (a locale): protecting and unprotecting each advance the send
  sequence counter by one and leave the keys alone.  The specification side is here too:
  what an authentic response is, given the message authentication and decryption
  functions of the channel.
\<close>

datatype sm_result = SM_OutOfBounds | SM_Rejected | SM_Accepted "bytes option" nat

text \<open>\<open>append_tlv\<close>: always a one-byte length, the low byte of the real one.\<close>

definition append_tlv :: "byte \<Rightarrow> bytes \<Rightarrow> bytes" where
  "append_tlv tag data = [tag, byte_of (length data)] @ data"

lemma length_append_tlv [wire_simps]: "length (append_tlv tag data) = length data + 2"
  by (simp add: append_tlv_def)

lemma append_tlv_short: "length data < 128 \<Longrightarrow> append_tlv tag data = tlv tag data"
  by (simp add: append_tlv_def tlv_def ber_enc_def)

section \<open>Specification of a response\<close>

text \<open>The bytes of an object found at an offset; absent objects contribute nothing.\<close>

definition do_bytes :: "bytes \<Rightarrow> (nat \<times> nat) option \<Rightarrow> bytes" where
  "do_bytes rapdu d = (case d of None \<Rightarrow> [] | Some (off, len) \<Rightarrow> take len (drop off rapdu))"

text \<open>
  A response with the given objects is authentic under a counter value: the code in
  its 8E object is the one computed over the counter, the 87 object and the 99 object.
\<close>

definition sm_authentic :: "(bytes \<Rightarrow> bytes option) \<Rightarrow> bytes \<Rightarrow> bytes \<Rightarrow> sm_dos \<Rightarrow> bool" where
  "sm_authentic mac counter rapdu d \<longleftrightarrow>
     (\<exists>o8 m. do8e d = Some (o8, 10)
        \<and> mac (counter @ do_bytes rapdu (do87 d) @ do_bytes rapdu (do99 d)) = Some m
        \<and> take 8 m = take 8 (drop (o8 + 2) rapdu))"

text \<open>The response a chip sends: data (if any) padded and encrypted, status word, code.\<close>

definition chip_do87 :: "bytes option \<Rightarrow> bytes" where
  "chip_do87 enc = (case enc of None \<Rightarrow> [] | Some e \<Rightarrow> tlv 0x87 (0x01 # e))"

definition chip_response :: "(bytes \<Rightarrow> bytes option) \<Rightarrow> bytes \<Rightarrow> bytes option \<Rightarrow> byte \<Rightarrow> byte \<Rightarrow> bytes \<Rightarrow> bytes option" where
  "chip_response mac counter enc sw1 sw2 trailer =
     (case mac (counter @ chip_do87 enc @ [0x99, 0x02, sw1, sw2]) of
        None \<Rightarrow> None
      | Some m \<Rightarrow> Some (chip_do87 enc @ [0x99, 0x02, sw1, sw2] @ [0x8E, 0x08] @ take 8 m @ trailer))"

definition response_dos :: "bytes option \<Rightarrow> sm_dos" where
  "response_dos enc = \<lparr>do87 = map_option (\<lambda>e. (0, length (chip_do87 enc))) enc,
     do99 = Some (length (chip_do87 enc), 4), do8e = Some (length (chip_do87 enc) + 4, 10)\<rparr>"

text \<open>The scan finds exactly the objects of a chip's response, and then the trailer.\<close>

lemma scan_chip_response:
  assumes enc: "case enc of None \<Rightarrow> True | Some e \<Rightarrow> length e < 65535" and m: "length m = 8"
  shows "bac_scan_dos (chip_do87 enc @ [0x99, 0x02, a, b] @ [0x8E, 0x08] @ m @ trailer) 0 no_dos =
    bac_scan_dos (chip_do87 enc @ [0x99, 0x02, a, b] @ [0x8E, 0x08] @ m @ trailer)
      (length (chip_do87 enc) + 14) (response_dos enc)"
proof -
  let ?d = "chip_do87 enc"
  let ?d1 = "no_dos\<lparr>do87 := map_option (\<lambda>e. (0, length ?d)) enc\<rparr>"
  let ?d2 = "?d1\<lparr>do99 := Some (length ?d, 4)\<rparr>"
  have t99: "[0x99, 0x02, a, b] = tlv 0x99 [a, b]" and t8e: "[0x8E, 0x08] @ m = tlv 0x8E m"
    using m by (simp_all add: tlv_def ber_enc_def byte_of_def)
  let ?r = "?d @ tlv 0x99 [a, b] @ tlv 0x8E m @ trailer"
  have len: "length (tlv 0x99 [a, b]) = 4" "length (tlv 0x8E m) = 10"
    using m by (simp_all add: tlv_def ber_enc_def)
  have "bac_scan_dos ?r 0 no_dos = bac_scan_dos ?r (length ?d) ?d1"
  proof (cases enc)
    case None
    then show ?thesis by (simp add: chip_do87_def no_dos_def)
  next
    case (Some e)
    with enc have "length (0x01 # e) < 65536" by simp
    from scan_tlv [OF this, where pre = "[]" and tag = "0x87" and d = no_dos and
        rest = "tlv 0x99 [a, b] @ tlv 0x8E m @ trailer"] Some
    show ?thesis by (simp add: chip_do87_def note_do_def)
  qed
  also have "\<dots> = bac_scan_dos ?r (length ?d + 4) ?d2"
    using scan_tlv [of "[a, b]" ?d "0x99" "tlv 0x8E m @ trailer" ?d1] by (simp add: len note_do_def)
  also have "\<dots> = bac_scan_dos ?r (length ?d + 4 + 10) (?d2\<lparr>do8e := Some (length ?d + 4, 10)\<rparr>)"
    using scan_tlv [of m "?d @ tlv 0x99 [a, b]" "0x8E" trailer ?d2] m by (simp add: len note_do_def)
  also have "?d2\<lparr>do8e := Some (length ?d + 4, 10)\<rparr> = response_dos enc"
    by (simp add: response_dos_def no_dos_def)
  finally show ?thesis unfolding t99 t8e by (simp add: t8e [symmetric] t99 [symmetric] add.commute)
qed

text \<open>The whole response: without a trailer, and with the status word a card appends.\<close>

lemma scan_bare_response:
  assumes "case enc of None \<Rightarrow> True | Some e \<Rightarrow> length e < 65535" and "length m = 8"
  shows "bac_scan_dos (chip_do87 enc @ [0x99, 0x02, a, b] @ [0x8E, 0x08] @ m) 0 no_dos =
    Parsed (response_dos enc)"
  using scan_chip_response [OF assms, of a b "[]"] assms(2)
  by (simp add: bac_scan_dos.simps [of _ "length (chip_do87 enc) + 14"])

lemma scan_response_sw:
  assumes "case enc of None \<Rightarrow> True | Some e \<Rightarrow> length e < 65535" and "length m = 8"
  shows "bac_scan_dos (chip_do87 enc @ [0x99, 0x02, a, b] @ [0x8E, 0x08] @ m @ [x, y]) 0 no_dos =
    (if y = 0 then Parsed (note_do x (length (chip_do87 enc) + 14) 2 (response_dos enc)) else Malformed)"
  using scan_chip_response [OF assms, of a b "[x, y]"] assms(2)
    scan_trailing_sw [of _ "chip_do87 enc @ [0x99, 0x02, a, b] @ [0x8E, 0x08] @ m" x y "response_dos enc"]
  by simp

text \<open>The 87 object at the front of a response is read back header, indicator and ciphertext.\<close>

lemma read_chip_do87:
  assumes "length e < 65535"
  shows "\<exists>h. ber_length (chip_do87 (Some e) @ rest) 1 (length (chip_do87 (Some e)) - 1) = Parsed (h, Suc (length e))
    \<and> rd (chip_do87 (Some e) @ rest) (Suc h) = Some 0x01
    \<and> rd_n (chip_do87 (Some e) @ rest) (Suc (Suc h)) (length e) = Some e"
proof -
  let ?h = "length (ber_enc (Suc (length e)))"
  have "ber_length (chip_do87 (Some e) @ rest) 1 (length (chip_do87 (Some e)) - 1) = Parsed (?h, Suc (length e))"
    by (rule ber_length_enc [where rest = "0x01 # e @ rest"]) (use assms in \<open>simp_all add: chip_do87_def tlv_def\<close>)
  then show ?thesis
    by (intro exI [of _ ?h]) (simp add: chip_do87_def tlv_def nth_append rd_n_def)
qed

section \<open>Unwrapping a response\<close>

lemma do_bytes_read: "is_tlv_at rapdu (off, len) \<Longrightarrow> rd_n rapdu off len = Some (do_bytes rapdu (Some (off, len)))"
  by (auto dest: is_tlv_at_len simp: do_bytes_def)

text \<open>
  Both layers unwrap a response the same way once their scans have found its objects:
  advance the counter, check the code, open the 87 object.  \<open>next\<close> advances the
  counter of a session, \<open>ctr\<close> reads it.
\<close>

definition sm_unwrap :: "('s \<Rightarrow> 's) \<Rightarrow> ('s \<Rightarrow> bytes) \<Rightarrow> ('s \<Rightarrow> bytes \<Rightarrow> bytes option)
    \<Rightarrow> ('s \<Rightarrow> bytes \<Rightarrow> nat \<Rightarrow> nat \<Rightarrow> nat \<Rightarrow> sm_result) \<Rightarrow> 's \<Rightarrow> bytes \<Rightarrow> 's \<times> sm_result" where
  "sm_unwrap next ctr mac open87 s rapdu =
     (if length rapdu < 2 then (s, SM_Rejected)
      else (case bac_scan_dos rapdu 0 no_dos of
        Undefined \<Rightarrow> (s, SM_OutOfBounds)
      | Malformed \<Rightarrow> (s, SM_Rejected)
      | Parsed d \<Rightarrow>
          (case (do99 d, do8e d) of
             (Some (o99, l99), Some (o8e, l8e)) \<Rightarrow>
               if l99 \<noteq> 4 \<or> l8e \<noteq> 2 + 8 then (s, SM_Rejected)
               else (next s,
                  case ((case do87 d of None \<Rightarrow> Some [] | Some (o87, l87) \<Rightarrow> rd_n rapdu o87 l87),
                        rd_n rapdu o99 l99, rd_n rapdu (o8e + 2) 8) of
                    (Some b87, Some b99, Some code) \<Rightarrow>
                      (case mac (next s) (ctr (next s) @ b87 @ b99) of
                         None \<Rightarrow> SM_Rejected
                       | Some m \<Rightarrow>
                           if \<not> bytes_equal m code 8 then SM_Rejected
                           else (let sw = unat (b99 ! 2) * 256 + unat (b99 ! 3) in
                             case do87 d of
                               None \<Rightarrow> SM_Accepted None sw
                             | Some (o87, l87) \<Rightarrow> open87 (next s) rapdu o87 l87 sw))
                  | _ \<Rightarrow> SM_OutOfBounds)
           | _ \<Rightarrow> (s, SM_Rejected))))"

locale sm_unwrapping =
  fixes unprotect :: "'s \<Rightarrow> bytes \<Rightarrow> 's \<times> sm_result"
    and "next" :: "'s \<Rightarrow> 's"
    and ctr :: "'s \<Rightarrow> bytes"
    and mac :: "'s \<Rightarrow> bytes \<Rightarrow> bytes option"
    and open87 :: "'s \<Rightarrow> bytes \<Rightarrow> nat \<Rightarrow> nat \<Rightarrow> nat \<Rightarrow> sm_result"
  assumes unprotect_unwrap: "unprotect s rapdu = sm_unwrap next ctr mac open87 s rapdu"
    and mac_length: "mac s m = Some t \<Longrightarrow> 8 \<le> length t"
    and open87_in_bounds: "is_tlv_at rapdu (off, len) \<Longrightarrow> open87 s rapdu off len sw \<noteq> SM_OutOfBounds"
    and open87_sw: "open87 s rapdu off len sw = SM_Accepted p sw' \<Longrightarrow> sw' = sw"
begin

lemma unprotect_eq:
  assumes "2 \<le> length rapdu" and scan: "bac_scan_dos rapdu 0 no_dos = Parsed d"
    and d99: "do99 d = Some (o99, 4)" and d8e: "do8e d = Some (o8, 10)"
  shows "unprotect s rapdu =
    (next s,
     case mac (next s) (ctr (next s) @ do_bytes rapdu (do87 d) @ do_bytes rapdu (do99 d)) of
       None \<Rightarrow> SM_Rejected
     | Some m \<Rightarrow>
         if take 8 m \<noteq> take 8 (drop (o8 + 2) rapdu) then SM_Rejected
         else (let sw = unat (rapdu ! (o99 + 2)) * 256 + unat (rapdu ! (o99 + 3)) in
           case do87 d of None \<Rightarrow> SM_Accepted None sw
           | Some (o87, l87) \<Rightarrow> open87 (next s) rapdu o87 l87 sw))"
proof -
  have ins: "dos_inside rapdu d" using bac_scan_dos_inside [OF scan] by simp
  then have t99: "is_tlv_at rapdu (o99, 4)" and t8: "is_tlv_at rapdu (o8, 10)"
    using d99 d8e by (auto dest: dos_insideD)
  have b99: "o99 + 4 \<le> length rapdu" and b8: "o8 + 10 \<le> length rapdu"
    using is_tlv_at_len [OF t99] is_tlv_at_len [OF t8] by auto
  have r87: "(case do87 d of None \<Rightarrow> Some [] | Some (o87, l87) \<Rightarrow> rd_n rapdu o87 l87) = Some (do_bytes rapdu (do87 d))"
    using dos_insideD(1) [OF ins] by (auto simp: do_bytes_read do_bytes_def split: option.split)
  have nth: "do_bytes rapdu (Some (o99, 4)) ! 2 = rapdu ! (o99 + 2)"
      "do_bytes rapdu (Some (o99, 4)) ! 3 = rapdu ! (o99 + 3)"
    using b99 by (simp_all add: do_bytes_def)
  have cmp: "bytes_equal m (take 8 (drop (o8 + 2) rapdu)) 8 \<longleftrightarrow> take 8 m = take 8 (drop (o8 + 2) rapdu)"
    if "8 \<le> length m" for m
    using that b8 by (simp add: bytes_equal_iff)
  have r8: "rd_n rapdu (o8 + 2) 8 = Some (take 8 (drop (o8 + 2) rapdu))" using b8 by simp
  show ?thesis
    using assms mac_length
    by (simp add: unprotect_unwrap sm_unwrap_def r87 r8 do_bytes_read [OF t99] nth cmp Let_def
        del: add_2_eq_Suc' split: option.split)
qed

text \<open>Any response without a 99 object of four and an 8E object of ten bytes leaves the session alone.\<close>

lemma unprotect_cases:
  obtains (refused) "unprotect s rapdu = (s, SM_Rejected)"
  | (checked) d o99 o8 where "2 \<le> length rapdu" "bac_scan_dos rapdu 0 no_dos = Parsed d"
      "do99 d = Some (o99, 4)" "do8e d = Some (o8, 10)"
proof (cases "bac_scan_dos rapdu 0 no_dos")
  case Undefined
  with bac_scan_dos_defined show thesis by auto
next
  case Malformed
  then show thesis by (intro refused) (simp add: unprotect_unwrap sm_unwrap_def)
next
  case (Parsed d)
  show thesis
  proof (cases "2 \<le> length rapdu \<and> (\<exists>o99 o8. do99 d = Some (o99, 4) \<and> do8e d = Some (o8, 10))")
    case True
    then show thesis using checked Parsed by blast
  next
    case False
    with Parsed show thesis
      by (intro refused) (auto simp: unprotect_unwrap sm_unwrap_def split: option.split)
  qed
qed

lemma unprotect_malformed: "bac_scan_dos rapdu 0 no_dos = Malformed \<Longrightarrow> unprotect s rapdu = (s, SM_Rejected)"
  by (simp add: unprotect_unwrap sm_unwrap_def)

lemma unprotect_session: "fst (unprotect s rapdu) = s \<or> fst (unprotect s rapdu) = next s"
  by (cases rule: unprotect_cases [where s = s and rapdu = rapdu]) (simp_all add: unprotect_eq)

lemma unprotect_in_bounds: "snd (unprotect s rapdu) \<noteq> SM_OutOfBounds"
proof (cases rule: unprotect_cases [where s = s and rapdu = rapdu])
  case refused
  then show ?thesis by simp
next
  case (checked d o99 o8)
  have "dos_inside rapdu d" using bac_scan_dos_inside [OF checked(2)] by simp
  from dos_insideD(1) [OF this] show ?thesis
    by (simp add: unprotect_eq [OF checked] Let_def open87_in_bounds split: option.split prod.split)
qed

text \<open>An accepted response is authentic under the next counter value.\<close>

lemma unprotect_accepted:
  assumes "unprotect s rapdu = (s', SM_Accepted p sw)"
  shows "s' = next s \<and>
    (\<exists>d o99. bac_scan_dos rapdu 0 no_dos = Parsed d \<and> sm_authentic (mac s') (ctr s') rapdu d
      \<and> do99 d = Some (o99, 4) \<and> sw = unat (rapdu ! (o99 + 2)) * 256 + unat (rapdu ! (o99 + 3))
      \<and> (case do87 d of None \<Rightarrow> p = None
         | Some (o87, l87) \<Rightarrow> open87 s' rapdu o87 l87 sw = SM_Accepted p sw))"
proof (cases rule: unprotect_cases [where s = s and rapdu = rapdu])
  case refused
  with assms show ?thesis by simp
next
  case (checked d o99 o8)
  from assms [unfolded unprotect_eq [OF checked]]
  obtain m where s': "s' = next s"
    and m: "mac s' (ctr s' @ do_bytes rapdu (do87 d) @ do_bytes rapdu (do99 d)) = Some m"
    and tag: "take 8 m = take 8 (drop (o8 + 2) rapdu)"
    and rest: "(let sw' = unat (rapdu ! (o99 + 2)) * 256 + unat (rapdu ! (o99 + 3)) in
         case do87 d of None \<Rightarrow> SM_Accepted None sw'
         | Some (o87, l87) \<Rightarrow> open87 s' rapdu o87 l87 sw') = SM_Accepted p sw"
    by (auto split: option.splits if_splits)
  have sw: "sw = unat (rapdu ! (o99 + 2)) * 256 + unat (rapdu ! (o99 + 3))"
    using rest by (auto simp: Let_def dest: open87_sw split: option.splits prod.splits)
  have auth: "sm_authentic (mac s') (ctr s') rapdu d"
    using checked(4) m tag by (auto simp: sm_authentic_def)
  show ?thesis
    using s' checked(2,3) auth sw rest by (auto simp: Let_def split: option.splits)
qed

text \<open>A response as a chip builds it, with a trailer the scan passes over, is accepted.\<close>

lemma unprotect_chip:
  assumes scan: "bac_scan_dos rapdu 0 no_dos = Parsed (response_dos enc)"
    and m: "mac (next s) (ctr (next s) @ chip_do87 enc @ [0x99, 0x02, a, b]) = Some m"
    and r: "rapdu = chip_do87 enc @ [0x99, 0x02, a, b] @ [0x8E, 0x08] @ take 8 m @ trailer"
    and op: "case enc of None \<Rightarrow> p = None
      | Some e \<Rightarrow> \<forall>rest sw. open87 (next s) (chip_do87 enc @ rest) 0 (length (chip_do87 enc)) sw = SM_Accepted p sw"
  shows "unprotect s rapdu = (next s, SM_Accepted p (unat a * 256 + unat b))"
proof -
  let ?L = "length (chip_do87 enc)"
  have dos: "do99 (response_dos enc) = Some (?L, 4)" "do8e (response_dos enc) = Some (?L + 4, 10)"
    by (simp_all add: response_dos_def)
  have len: "2 \<le> length rapdu" by (simp add: r)
  have b87: "do_bytes rapdu (do87 (response_dos enc)) = chip_do87 enc"
    by (cases enc) (simp_all add: response_dos_def do_bytes_def r, simp add: chip_do87_def)
  have b99: "do_bytes rapdu (do99 (response_dos enc)) = [0x99, 0x02, a, b]"
    by (simp add: response_dos_def do_bytes_def r)
  have "8 \<le> length m" by (rule mac_length [OF m])
  then have tag: "take 8 (drop (?L + 4 + 2) rapdu) = take 8 m"
    by (simp add: r)
  have sw: "rapdu ! (?L + 2) = a" "rapdu ! (?L + 3) = b"
    by (simp_all add: r nth_append)
  show ?thesis
    unfolding unprotect_eq [OF len scan dos] b87 b99 m sw Let_def tag
    using op by (cases enc) (auto simp: response_dos_def r)
qed

text \<open>With the plain status word appended: its second byte is taken for a length.\<close>

lemma unprotect_chip_reply:
  assumes mac: "\<exists>m. mac (next s) (ctr (next s) @ chip_do87 enc @ [0x99, 0x02, a, b]) = Some m"
    and small: "case enc of None \<Rightarrow> True | Some e \<Rightarrow> length e < 65535"
    and op: "case enc of None \<Rightarrow> p = None
      | Some e \<Rightarrow> \<forall>rest sw. open87 (next s) (chip_do87 enc @ rest) 0 (length (chip_do87 enc)) sw = SM_Accepted p sw"
    and x: "x \<notin> {0x87, 0x99, 0x8E}"
  shows "\<exists>r r'. chip_response (mac (next s)) (ctr (next s)) enc a b [] = Some r
    \<and> chip_response (mac (next s)) (ctr (next s)) enc a b [x, y] = Some r'
    \<and> unprotect s r = (next s, SM_Accepted p (unat a * 256 + unat b))
    \<and> unprotect s r' = (if y = 0 then (next s, SM_Accepted p (unat a * 256 + unat b)) else (s, SM_Rejected))"
proof -
  obtain m where m: "mac (next s) (ctr (next s) @ chip_do87 enc @ [0x99, 0x02, a, b]) = Some m"
    using mac by blast
  let ?r = "\<lambda>t. chip_do87 enc @ [0x99, 0x02, a, b] @ [0x8E, 0x08] @ take 8 m @ t"
  have resp: "chip_response (mac (next s)) (ctr (next s)) enc a b t = Some (?r t)" for t
    using m by (simp add: chip_response_def)
  have m8: "length (take 8 m) = 8" using mac_length [OF m] by simp
  have note_x: "note_do x pos 2 d = d" for pos d using x by (simp add: note_do_def)
  note chip = unprotect_chip [OF _ m refl op]
  have bare: "unprotect s (?r []) = (next s, SM_Accepted p (unat a * 256 + unat b))"
    by (rule chip) (use scan_bare_response [OF small m8, of a b] in simp)
  have "unprotect s (?r [x, y]) = (if y = 0 then (next s, SM_Accepted p (unat a * 256 + unat b)) else (s, SM_Rejected))"
  proof (cases "y = 0")
    case True
    have "unprotect s (?r [x, y]) = (next s, SM_Accepted p (unat a * 256 + unat b))"
      by (rule chip) (use scan_response_sw [OF small m8, of a b x y] True note_x in simp)
    with True show ?thesis by simp
  next
    case False
    with scan_response_sw [OF small m8, of a b x y] show ?thesis by (simp add: unprotect_malformed)
  qed
  with bare show ?thesis unfolding resp by blast
qed

end

section \<open>Commands\<close>

text \<open>The arguments of a protected command: header bytes, data (empty for NULL), expected length.\<close>

record sm_command =
  c_cla :: byte
  c_ins :: byte
  c_p1 :: byte
  c_p2 :: byte
  c_data :: bytes
  c_le :: int

definition masked_header :: "sm_command \<Rightarrow> bytes" where
  "masked_header c = [c_cla c OR 0x0C, c_ins c, c_p1 c, c_p2 c]"

text \<open>
  A protected command as ISO 7816-4 has it: data objects that are proper TLVs, their total
  length in Lc, and a code over the counter, the padded header and the objects.
\<close>

definition sm_objects :: "sm_command \<Rightarrow> bytes \<Rightarrow> bytes" where
  "sm_objects c enc = (if c_data c = [] then [] else tlv 0x87 (0x01 # enc))
     @ (if 0 \<le> c_le c then tlv 0x97 [byte_of (nat (c_le c))] else [])"

definition sm_well_formed :: "(bytes \<Rightarrow> bytes option) \<Rightarrow> (bytes \<Rightarrow> bytes) \<Rightarrow> bytes \<Rightarrow> sm_command \<Rightarrow> bytes \<Rightarrow> bytes \<Rightarrow> bool" where
  "sm_well_formed mac pad counter c enc apdu \<longleftrightarrow> (\<exists>m body.
     mac (counter @ pad (masked_header c) @ sm_objects c enc) = Some m
     \<and> body = sm_objects c enc @ tlv 0x8E (take 8 m)
     \<and> length body < 256
     \<and> apdu = masked_header c @ [byte_of (length body)] @ body @ [0x00])"

section \<open>The channel contract\<close>

text \<open>
  \<open>valid\<close> is the shape of a session, \<open>counter\<close> the value of its send sequence counter,
  \<open>keys\<close> its key material.
\<close>

locale sm_channel =
  fixes protect :: "'s \<Rightarrow> 'c \<Rightarrow> 's \<times> bytes option"
    and unprotect :: "'s \<Rightarrow> bytes \<Rightarrow> 's \<times> sm_result"
    and valid :: "'s \<Rightarrow> bool"
    and counter :: "'s \<Rightarrow> nat"
    and period :: nat
    and keys :: "'s \<Rightarrow> 'k"
  assumes protect_valid: "valid s \<Longrightarrow> valid (fst (protect s c)) \<and> keys (fst (protect s c)) = keys s"
    and unprotect_valid: "valid s \<Longrightarrow> valid (fst (unprotect s r)) \<and> keys (fst (unprotect s r)) = keys s"
    and protect_counter: "valid s \<Longrightarrow> protect s c = (s', Some apdu) \<Longrightarrow>
      counter s' = (counter s + 1) mod period"
    and unprotect_counter: "valid s \<Longrightarrow> unprotect s r = (s', SM_Accepted p sw) \<Longrightarrow>
      counter s' = (counter s + 1) mod period"
    and counter_bound: "valid s \<Longrightarrow> counter s < period"
    and in_bounds: "valid s \<Longrightarrow> snd (unprotect s r) \<noteq> SM_OutOfBounds"
begin

text \<open>A sequence of commands with their responses, all of which went through.\<close>

fun exchanges :: "'s \<Rightarrow> ('c \<times> bytes) list \<Rightarrow> 's option" where
  "exchanges s [] = Some s"
| "exchanges s ((c, r) # xs) =
     (case protect s c of
        (s1, None) \<Rightarrow> None
      | (s1, Some apdu) \<Rightarrow>
          (case unprotect s1 r of
             (s2, SM_Accepted p sw) \<Rightarrow> exchanges s2 xs
           | _ \<Rightarrow> None))"

lemma exchange_step:
  assumes "valid s" and "protect s c = (s1, Some apdu)" and "unprotect s1 r = (s2, SM_Accepted p sw)"
  shows "valid s2 \<and> keys s2 = keys s \<and> counter s2 = (counter s + 2) mod period"
proof -
  have s1: "valid s1" "keys s1 = keys s" "counter s1 = (counter s + 1) mod period"
    using protect_valid [OF assms(1), of c] protect_counter [OF assms(1,2)] assms(2) by auto
  then have "valid s2" "keys s2 = keys s" "counter s2 = (counter s1 + 1) mod period"
    using unprotect_valid [OF s1(1), of r] unprotect_counter [OF s1(1) assms(3)] assms(3) by auto
  with s1(3) show ?thesis by (simp add: mod_Suc_eq)
qed

lemma exchanges_counter:
  "valid s \<Longrightarrow> exchanges s xs = Some s' \<Longrightarrow>
     valid s' \<and> keys s' = keys s \<and> counter s' = (counter s + 2 * length xs) mod period"
proof (induction xs arbitrary: s)
  case Nil
  then show ?case using counter_bound by simp
next
  case (Cons x xs)
  obtain c r where x: "x = (c, r)" by (cases x)
  from Cons.prems(2) obtain s1 apdu s2 p sw where
    step: "protect s c = (s1, Some apdu)" "unprotect s1 r = (s2, SM_Accepted p sw)"
    and rest: "exchanges s2 xs = Some s'"
    by (auto simp: x split: prod.splits option.splits sm_result.splits)
  from exchange_step [OF Cons.prems(1) step] have s2: "valid s2" "keys s2 = keys s"
    "counter s2 = (counter s + 2) mod period" by auto
  from Cons.IH [OF s2(1) rest] s2 show ?case
    by (simp add: mod_add_left_eq add.assoc)
qed

text \<open>Fresh counters: two points of one session less than half a period apart differ.\<close>

lemma exchanges_fresh:
  assumes "valid s" and "exchanges s xs = Some s'" and "xs \<noteq> []" and "2 * length xs < period"
  shows "counter s' \<noteq> counter s"
proof
  assume same: "counter s' = counter s"
  have "counter s' = (counter s + 2 * length xs) mod period"
    using exchanges_counter [OF assms(1,2)] by simp
  then have "(counter s + 2 * length xs) mod period = counter s mod period"
    using same counter_bound [OF assms(1)] by simp
  then have "period dvd 2 * length xs"
    by (simp add: mod_eq_dvd_iff_nat)
  with assms(3,4) show False by (auto dest: dvd_imp_le)
qed

end

end
