(* ===== verification/Bac.thy ===== *)
theory Bac
  imports Mrz Secure_Messaging
begin

text \<open>
  Basic Access Control (\<open>bac.c\<close>): key derivation, the mutual authentication exchange
  and the 3DES secure messaging layer.  OpenSSL is the parameter \<open>ossl\<close>; the results of
  \<open>RAND_bytes\<close> are arguments, \<open>None\<close> for a failure.  A function that updates
  \<open>session->ssc\<close> returns the session; \<open>None\<close> stands for NULL or FALSE.
\<close>

section \<open>Primitives\<close>

abbreviation BAC_KEY_LEN :: nat where
  "BAC_KEY_LEN \<equiv> 16"

abbreviation DES_BLOCK_LEN :: nat where
  "DES_BLOCK_LEN \<equiv> 8"

abbreviation iv0 :: bytes where
  "iv0 \<equiv> replicate DES_BLOCK_LEN 0"

definition des3_cbc :: "openssl \<Rightarrow> bool \<Rightarrow> bytes \<Rightarrow> bytes \<Rightarrow> bytes \<Rightarrow> bytes option" where
  "des3_cbc ossl encrypt key16 iv inp =
     evp_crypt ossl DES_EDE3_CBC encrypt (take BAC_KEY_LEN key16 @ take DES_BLOCK_LEN key16) iv inp"

definition des_cbc :: "openssl \<Rightarrow> bytes \<Rightarrow> bytes \<Rightarrow> bytes \<Rightarrow> bytes option" where
  "des_cbc ossl key8 iv inp =
     (let k = take DES_BLOCK_LEN key8 in evp_crypt ossl DES_EDE3_CBC True (k @ k @ k) iv inp)"

definition des_ecb :: "openssl \<Rightarrow> bool \<Rightarrow> bytes \<Rightarrow> bytes \<Rightarrow> bytes option" where
  "des_ecb ossl encrypt key8 inp =
     (let k = take DES_BLOCK_LEN key8 in
      evp_crypt ossl DES_EDE3_ECB encrypt (k @ k @ k) iv0 (take DES_BLOCK_LEN inp))"

definition retail_mac :: "openssl \<Rightarrow> bytes \<Rightarrow> bytes \<Rightarrow> bytes option" where
  "retail_mac ossl key16 data =
     (let padded = bac_iso_pad data in
      case des_cbc ossl key16 iv0 padded of
        None \<Rightarrow> None
      | Some cbc_out \<Rightarrow>
          (let last_block = drop (length padded - DES_BLOCK_LEN) cbc_out in
           case des_ecb ossl False (drop DES_BLOCK_LEN key16) last_block of
             None \<Rightarrow> None
           | Some decrypted \<Rightarrow> des_ecb ossl True key16 decrypted))"

text \<open>\<open>set_key_parity\<close>, one byte: the low bit makes the number of set bits odd.\<close>

definition parity_byte :: "byte \<Rightarrow> byte" where
  "parity_byte b =
     (let v = b AND 0xFE;
          ones = foldl (\<lambda>ones n. if v AND push_bit n 1 \<noteq> 0 then ones + 1 else ones) (0 :: nat) [0..<8]
      in v OR (if ones mod 2 \<noteq> 0 then 0 else 1))"

definition set_key_parity :: "bytes \<Rightarrow> bytes" where
  "set_key_parity key = map parity_byte key"

definition kdf :: "openssl \<Rightarrow> bytes \<Rightarrow> nat \<Rightarrow> bytes" where
  "kdf ossl kseed c = set_key_parity (take BAC_KEY_LEN (SHA1 ossl (kseed @ be32 c)))"

section \<open>Keys from the MRZ\<close>

record bac_static_keys =
  kenc :: bytes
  kmac :: bytes

record bac_challenge =
  rnd_ifd :: bytes
  k_ifd :: bytes

record bac_session =
  ks_enc :: bytes
  ks_mac :: bytes
  ssc :: bytes

definition bac_mrz_sha1 :: "openssl \<Rightarrow> bytes option \<Rightarrow> bytes option \<Rightarrow> bytes option \<Rightarrow> bytes option" where
  "bac_mrz_sha1 ossl doc dob expiry = map_option (SHA1 ossl) (mrz_info doc dob expiry)"

definition bac_derive_static_keys ::
    "openssl \<Rightarrow> bytes option \<Rightarrow> bytes option \<Rightarrow> bytes option \<Rightarrow> bac_static_keys option" where
  "bac_derive_static_keys ossl doc dob expiry =
     (case bac_mrz_sha1 ossl doc dob expiry of
        None \<Rightarrow> None
      | Some digest \<Rightarrow>
          (let kseed = take BAC_KEY_LEN digest in
           Some \<lparr>kenc = kdf ossl kseed 1, kmac = kdf ossl kseed 2\<rparr>))"

section \<open>Mutual authentication\<close>

definition emrtd_aid :: bytes where
  "emrtd_aid = [0xA0, 0x00, 0x00, 0x02, 0x47, 0x10, 0x01]"

definition bac_build_select_aid :: bytes where
  "bac_build_select_aid = [0x00, 0xA4, 0x04, 0x0C, byte_of (length emrtd_aid)] @ emrtd_aid"

definition bac_build_get_challenge :: bytes where
  "bac_build_get_challenge = [0x00, 0x84, 0x00, 0x00, 0x08]"

definition bac_build_mutual_authenticate ::
    "openssl \<Rightarrow> bac_static_keys \<Rightarrow> bytes \<Rightarrow> bytes option \<Rightarrow> bytes option \<Rightarrow> (bytes \<times> bac_challenge) option" where
  "bac_build_mutual_authenticate ossl keys rnd_icc rand8 rand16 =
     (case rand8 of None \<Rightarrow> None | Some r \<Rightarrow>
      case rand16 of None \<Rightarrow> None | Some k \<Rightarrow>
        (let s = r @ rnd_icc @ k in
         case des3_cbc ossl True (kenc keys) iv0 s of None \<Rightarrow> None | Some eifd \<Rightarrow>
         case retail_mac ossl (kmac keys) eifd of None \<Rightarrow> None | Some mifd \<Rightarrow>
           Some ([0x00, 0x82, 0x00, 0x00, 40] @ eifd @ mifd @ [40], \<lparr>rnd_ifd = r, k_ifd = k\<rparr>)))"

definition bac_process_mutual_authenticate_response ::
    "openssl \<Rightarrow> bac_static_keys \<Rightarrow> bac_challenge \<Rightarrow> bytes \<Rightarrow> bytes \<Rightarrow> bac_session option" where
  "bac_process_mutual_authenticate_response ossl keys challenge rnd_icc response =
     (if length response \<noteq> 40 then None
      else let eicc = take 32 response in
        case retail_mac ossl (kmac keys) eicc of None \<Rightarrow> None | Some mic_expect \<Rightarrow>
        if \<not> bytes_equal mic_expect (drop 32 response) DES_BLOCK_LEN then None
        else case des3_cbc ossl False (kenc keys) iv0 eicc of None \<Rightarrow> None | Some r \<Rightarrow>
          if \<not> bytes_equal r rnd_icc 8 then None
          else if \<not> bytes_equal (drop 8 r) (rnd_ifd challenge) 8 then None
          else let kseed = map2 (\<lambda>a b. a XOR b) (k_ifd challenge) (take BAC_KEY_LEN (drop 16 r)) in
            Some \<lparr>ks_enc = kdf ossl kseed 1, ks_mac = kdf ossl kseed 2,
              ssc = take 4 (drop 4 rnd_icc) @ take 4 (drop 4 (rnd_ifd challenge))\<rparr>)"

section \<open>Secure messaging\<close>

definition bac_sm_protect ::
    "openssl \<Rightarrow> bac_session \<Rightarrow> byte \<Rightarrow> byte \<Rightarrow> byte \<Rightarrow> byte \<Rightarrow> bytes \<Rightarrow> int \<Rightarrow> bac_session \<times> bytes option" where
  "bac_sm_protect ossl session cla ins p1 p2 data le =
     (let header = [cla OR 0x0C, ins, p1, p2];
          header_padded = bac_iso_pad header in
      if le > 255 then (session, None)
      else if length data > 223 then (session, None)
      else
        (case (if data \<noteq> [] then
                 map_option (\<lambda>enc. append_tlv 0x87 (0x01 # enc))
                   (des3_cbc ossl True (ks_enc session) iv0 (bac_iso_pad data))
               else Some []) of
           None \<Rightarrow> (session, None)
         | Some dob87 \<Rightarrow>
             (let dob97 = (if le \<ge> 0 then append_tlv 0x97 [byte_of (nat le)] else []);
                  m = header_padded @ dob87 @ dob97;
                  session' = session\<lparr>ssc := ssc_increment (ssc session)\<rparr>;
                  n = ssc session' @ m in
              case retail_mac ossl (ks_mac session') n of
                None \<Rightarrow> (session', None)
              | Some mac \<Rightarrow>
                  (let lc = byte_of (length dob87 + length dob97 + 2 + DES_BLOCK_LEN) in
                   (session', Some (header @ [lc] @ dob87 @ dob97
                      @ append_tlv 0x8E (take DES_BLOCK_LEN mac) @ [0x00]))))))"

text \<open>Decryption of the 87 object at \<open>off\<close>, \<open>len\<close>: the block under \<open>if (do87)\<close>.\<close>

definition bac_open_do87 :: "openssl \<Rightarrow> bac_session \<Rightarrow> bytes \<Rightarrow> nat \<Rightarrow> nat \<Rightarrow> nat \<Rightarrow> sm_result" where
  "bac_open_do87 ossl session rapdu off len sw =
     (case ber_length rapdu (off + 1) (len - 1) of
        Undefined \<Rightarrow> SM_OutOfBounds
      | Malformed \<Rightarrow> SM_Rejected
      | Parsed (hlen, clen) \<Rightarrow>
          if clen < 1 then SM_Rejected
          else (case rd rapdu (off + 1 + hlen) of
            None \<Rightarrow> SM_OutOfBounds
          | Some indicator \<Rightarrow>
              if indicator \<noteq> 0x01 then SM_Rejected
              else let enc_len = clen - 1 in
                if enc_len = 0 \<or> enc_len mod DES_BLOCK_LEN \<noteq> 0 then SM_Rejected
                else (case rd_n rapdu (off + 1 + hlen + 1) enc_len of
                  None \<Rightarrow> SM_OutOfBounds
                | Some enc \<Rightarrow>
                    (case des3_cbc ossl False (ks_enc session) iv0 enc of
                       None \<Rightarrow> SM_Rejected
                     | Some dec \<Rightarrow>
                         (case iso_unpad dec of
                            None \<Rightarrow> SM_Rejected
                          | Some plaintext \<Rightarrow> SM_Accepted (Some plaintext) sw)))))"

definition bac_sm_unprotect :: "openssl \<Rightarrow> bac_session \<Rightarrow> bytes \<Rightarrow> bac_session \<times> sm_result" where
  "bac_sm_unprotect ossl session rapdu =
     (if length rapdu < 2 then (session, SM_Rejected)
      else (case bac_scan_dos rapdu 0 no_dos of
        Undefined \<Rightarrow> (session, SM_OutOfBounds)
      | Malformed \<Rightarrow> (session, SM_Rejected)
      | Parsed d \<Rightarrow>
          (case (do99 d, do8e d) of
             (Some (o99, l99), Some (o8e, l8e)) \<Rightarrow>
               if l99 \<noteq> 4 \<or> l8e \<noteq> 2 + DES_BLOCK_LEN then (session, SM_Rejected)
               else (let session' = session\<lparr>ssc := ssc_increment (ssc session)\<rparr> in
                 (session',
                  case ((case do87 d of None \<Rightarrow> Some [] | Some (o87, l87) \<Rightarrow> rd_n rapdu o87 l87),
                        rd_n rapdu o99 l99, rd_n rapdu (o8e + 2) DES_BLOCK_LEN) of
                    (Some b87, Some b99, Some code) \<Rightarrow>
                      (case retail_mac ossl (ks_mac session') (ssc session' @ b87 @ b99) of
                         None \<Rightarrow> SM_Rejected
                       | Some mac \<Rightarrow>
                           if \<not> bytes_equal mac code DES_BLOCK_LEN then SM_Rejected
                           else (let sw = unat (b99 ! 2) * 256 + unat (b99 ! 3) in
                             case do87 d of
                               None \<Rightarrow> SM_Accepted None sw
                             | Some (o87, l87) \<Rightarrow> bac_open_do87 ossl session' rapdu o87 l87 sw))
                  | _ \<Rightarrow> SM_OutOfBounds))
           | _ \<Rightarrow> (session, SM_Rejected))))"

end
