(* ===== verification/Client_State.thy ===== *)
theory Client_State
  imports Ndef Bac
begin

text \<open>
  The state of \<open>struct nfcd_client\<close>, the D-Bus calls its operations make and the small
  helpers of \<open>nfcd_client.c\<close> that render D-Bus values as JSON.  D-Bus proxies are present
  or NULL (a boolean); pointers to requests in flight are identifiers.
\<close>

section \<open>The client\<close>

text \<open>A profile knows its own address: requests to nfcd in flight point at it.\<close>

record hce_profile =
  hp_address :: nat
  aid_hex :: bytes
  object_path :: bytes
  skeleton :: bool
  payload :: bytes
  implicit :: bool
  registered :: bool
  next_response_id :: "32 word"

record nfcd_client =
  daemon :: bool
  adapter :: bool
  settings :: bool
  adapter_path :: "bytes option"
  available :: bool
  powered :: bool
  present :: bool
  mode :: nat
  supported_modes :: nat
  techs :: nat
  daemon_version :: int
  mode_request_id :: nat
  settings_valid :: bool
  settings_enabled :: bool
  adapter_enabled :: bool
  tag_path :: "bytes option"
  tag_is_type2 :: bool
  tag_protocol :: nat
  tag_json :: "jvalue option"
  reading :: "nat option"
  passport_reading :: "nat option"
  mifare_key_cache :: "bytes \<rightharpoonup> (nat \<rightharpoonup> bytes)"
  hce_profiles :: "(bytes \<times> hce_profile) list"
  hce_mode_request_id :: nat
  hce_event_aid_hex :: "bytes option"
  hce_event_ok :: bool

definition NFC_TAG_TYPE_MIFARE_CLASSIC :: nat where "NFC_TAG_TYPE_MIFARE_CLASSIC = 2"
definition NFC_PROTOCOL_T4A :: nat where "NFC_PROTOCOL_T4A = 8"
definition NFC_PROTOCOL_T4B :: nat where "NFC_PROTOCOL_T4B = 16"
definition NFCD_MODE_READER_WRITER :: nat where "NFCD_MODE_READER_WRITER = 0x02"
definition NFCD_MODE_CARD_EMULATION :: nat where "NFCD_MODE_CARD_EMULATION = 0x08"

definition TAG_IFACE_TYPE2 :: bytes where
  "TAG_IFACE_TYPE2 = str ''org.sailfishos.nfc.TagType2''"

text \<open>The asynchronous D-Bus calls, with the arguments that matter.\<close>

datatype dbus_call =
    NewTagProxy "bytes option"
  | TagGetAll3
  | NewNdefProxy bytes
  | NdefGetAll
  | NewType2Proxy "bytes option"
  | Type2ReadAllData
  | TagTransceive bytes
  | TagAcquire bool
  | TagRelease
  | TagDeactivate
  | Type2WriteData nat bytes
  | Type2Read nat nat
  | Type2Write nat nat bytes
  | NewDaemonProxy
  | DaemonGetAll4
  | DaemonRequestMode nat
  | DaemonReleaseMode nat
  | NewAdapterProxy bytes
  | AdapterGetAll4
  | NewSettingsProxy
  | SettingsGetAll
  | SettingsSetEnabled bool
  | RegisterLocalHostApp bytes bytes bytes nat
  | UnregisterLocalHostApp bytes

section \<open>D-Bus values as JSON\<close>

text \<open>
  \<open>GVariant\<close> values by type; \<open>V_Other\<close> is any type the code does not know, with the text
  \<open>g_variant_print\<close> gives for it.
\<close>

datatype gvariant =
    V_Bytes bytes
  | V_String bytes
  | V_Boolean bool
  | V_Byte byte
  | V_Uint32 "32 word"
  | V_Int32 "32 word"
  | V_Other bytes

fun variant_to_json :: "gvariant \<Rightarrow> jvalue" where
  "variant_to_json (V_Bytes data) = JStr (ndef_bytes_to_hex data)"
| "variant_to_json (V_String s) = JStr s"
| "variant_to_json (V_Boolean b) = JBool b"
| "variant_to_json (V_Byte b) = JNum (uint b)"
| "variant_to_json (V_Uint32 n) = JNum (sint n)"
| "variant_to_json (V_Int32 n) = JNum (sint n)"
| "variant_to_json (V_Other text) = JStr text"

definition variant_dict_to_json :: "(string \<times> gvariant) list \<Rightarrow> jvalue" where
  "variant_dict_to_json dict = foldl (\<lambda>obj (key, v). jobject_put key (variant_to_json v) obj) jobject_create dict"

definition technology_to_string :: "nat \<Rightarrow> bytes" where
  "technology_to_string technology =
     (if technology = 1 then str ''nfc-a'' else if technology = 2 then str ''nfc-b''
      else if technology = 4 then str ''nfc-f'' else str ''unknown'')"

definition protocol_to_string :: "nat \<Rightarrow> bytes" where
  "protocol_to_string protocol =
     (if protocol = 1 then str ''t1t'' else if protocol = 2 then str ''t2t''
      else if protocol = 4 then str ''t3t'' else if protocol = 8 then str ''t4a''
      else if protocol = 16 then str ''t4b'' else if protocol = 32 then str ''nfc-dep''
      else if protocol = 64 then str ''mifare-classic'' else str ''unknown'')"

definition strv_to_json :: "bytes list \<Rightarrow> jvalue" where
  "strv_to_json strv = JArr (map JStr strv)"

text \<open>\<open>g_variant_lookup_value (poll_parameters, key, "ay")\<close>.\<close>

definition lookup_bytes :: "(string \<times> gvariant) list \<Rightarrow> string \<Rightarrow> bytes option" where
  "lookup_bytes dict key = (case map_of dict key of Some (V_Bytes b) \<Rightarrow> Some b | _ \<Rightarrow> None)"

section \<open>A running client\<close>

text \<open>nfcd is connected, its adapter is on and a tag has just arrived.\<close>

definition demo_client :: nfcd_client where
  "demo_client = \<lparr>daemon = True, adapter = True, settings = True, adapter_path = Some (str ''/nfc0''),
     available = True, powered = True, present = True, mode = 2, supported_modes = 15, techs = 7,
     daemon_version = 0, mode_request_id = 1, settings_valid = True, settings_enabled = True,
     adapter_enabled = True, tag_path = Some (str ''/nfc0/tag0''), tag_is_type2 = False, tag_protocol = 0,
     tag_json = None, reading = Some 0, passport_reading = None, mifare_key_cache = Map.empty,
     hce_profiles = [], hce_mode_request_id = 0, hce_event_aid_hex = None, hce_event_ok = False\<rparr>"

end
