(* ===== verification/Tag_Read.thy ===== *)
theory Tag_Read
  imports Client_State
begin

text \<open>
  Reading the tag in the field (\<open>struct tag_read\<close> of \<open>nfcd_client.c\<close>): its NDEF records,
  the raw data of a Type 2 tag, and the sector sweep of a MIFARE Classic tag with its cache
  of keys.  One definition per callback; the stage says which D-Bus call is outstanding.
\<close>

section \<open>State and events\<close>

datatype tag_stage =
    T_Proxy | T_GetAll | T_NdefProxy | T_NdefGetAll | T_RawProxy | T_RawData
  | T_MfAuth | T_MfRead | T_Done | T_Wild

record tag_info =
  ti_present :: bool
  ti_technology :: nat
  ti_protocol :: nat
  ti_type :: nat
  ti_interfaces :: "bytes list"
  ti_records :: "bytes list"
  ti_params :: "(string \<times> gvariant) list"

record ndef_fields =
  nf_tnf :: nat
  nf_type :: bytes
  nf_id :: bytes
  nf_payload :: bytes

text \<open>The result of the outstanding call: failed, or what a call of that kind returns.\<close>

record tag_event =
  t_ok :: bool
  t_cancelled :: bool
  t_info :: tag_info
  t_ndef :: ndef_fields
  t_data :: bytes

record tag_read =
  tr_stage :: tag_stage
  tr_attached :: bool
  tr_path :: bytes
  tag_obj :: jvalue
  records_arr :: "jvalue list"
  record_paths :: "bytes list"
  record_index :: nat
  is_type2 :: bool
  is_mifare :: bool
  mifare_uid :: "bytes option"
  mifare_sector :: nat
  mifare_key_index :: nat
  mifare_auth_type :: nat
  mifare_block_offset :: nat
  mifare_key :: bytes
  mifare_cached_attempt :: bool
  mifare_sectors_arr :: "jvalue list"
  mifare_blocks_arr :: "jvalue list"

text \<open>A notification carries the client as it is when the callback of the service runs.\<close>

datatype tag_out = OutNotifyTag nfcd_client | OutCall dbus_call | OutFreeRead

type_synonym tag_step = "nfcd_client \<times> tag_read \<times> tag_out list"

definition tag_read_free :: "nfcd_client \<Rightarrow> tag_read \<Rightarrow> tag_step" where
  "tag_read_free client read = (client, read\<lparr>tr_stage := T_Done\<rparr>, [OutFreeRead])"

definition tag_read_abort :: "tag_read \<Rightarrow> tag_read" where
  "tag_read_abort read = read\<lparr>tr_attached := False\<rparr>"

definition tag_read_finish :: "nfcd_client \<Rightarrow> tag_read \<Rightarrow> tag_step" where
  "tag_read_finish client read =
     (if \<not> tr_attached read then tag_read_free client read
      else
        (let client' = client\<lparr>tag_json := Some (jobject_put ''records'' (JArr (records_arr read)) (tag_obj read)),
               tag_is_type2 := is_type2 read, reading := None\<rparr> in
         (client', read\<lparr>tr_stage := T_Done\<rparr>, [OutFreeRead, OutNotifyTag client'])))"

text \<open>Waiting for the result of \<open>call\<close>.\<close>

definition tag_wait :: "nfcd_client \<Rightarrow> tag_read \<Rightarrow> dbus_call \<Rightarrow> tag_stage \<Rightarrow> tag_step" where
  "tag_wait client read call st = (client, read\<lparr>tr_stage := st\<rparr>, [OutCall call])"

section \<open>MIFARE Classic\<close>

definition MIFARE_KEY_LEN :: nat where "MIFARE_KEY_LEN = 6"
definition MIFARE_NUM_SECTORS :: nat where "MIFARE_NUM_SECTORS = 40"

definition mifare_default_keys :: "bytes list" where
  "mifare_default_keys =
     [[0xff, 0xff, 0xff, 0xff, 0xff, 0xff],
      [0xa0, 0xa1, 0xa2, 0xa3, 0xa4, 0xa5],
      [0xd3, 0xf7, 0xd3, 0xf7, 0xd3, 0xf7],
      [0x00, 0x00, 0x00, 0x00, 0x00, 0x00]]"

definition mifare_sector_first_block :: "nat \<Rightarrow> nat" where
  "mifare_sector_first_block sector = (if sector < 32 then sector * 4 else 128 + (sector - 32) * 16)"

definition mifare_sector_block_count :: "nat \<Rightarrow> nat" where
  "mifare_sector_block_count sector = (if sector < 32 then 4 else 16)"

definition mifare_cache_lookup :: "nfcd_client \<Rightarrow> bytes option \<Rightarrow> nat \<Rightarrow> bytes option" where
  "mifare_cache_lookup client uid sector =
     (case uid of None \<Rightarrow> None
      | Some u \<Rightarrow> (case mifare_key_cache client u of None \<Rightarrow> None | Some entry \<Rightarrow> entry sector))"

definition mifare_cache_store :: "nfcd_client \<Rightarrow> bytes option \<Rightarrow> nat \<Rightarrow> bytes \<Rightarrow> nfcd_client" where
  "mifare_cache_store client uid sector key =
     (case uid of None \<Rightarrow> client
      | Some u \<Rightarrow>
          (let entry = (case mifare_key_cache client u of None \<Rightarrow> Map.empty | Some e \<Rightarrow> e) in
           client\<lparr>mifare_key_cache := (mifare_key_cache client)(u \<mapsto> entry(sector \<mapsto> key))\<rparr>))"

definition mifare_publish_progress :: "nfcd_client \<Rightarrow> tag_read \<Rightarrow> nfcd_client \<times> tag_out list" where
  "mifare_publish_progress client read =
     (if \<not> tr_attached read then (client, [])
      else
        (let client' = client\<lparr>tag_json := Some (jobject_put ''scanning'' (JBool True)
               (jobject_put ''sectors'' (JArr (mifare_sectors_arr read)) (tag_obj read)))\<rparr> in
         (client', [OutNotifyTag client'])))"

definition mifare_auth_cmd :: "tag_read \<Rightarrow> bytes \<Rightarrow> bytes" where
  "mifare_auth_cmd read key =
     [if mifare_auth_type read \<noteq> 0 then 0x61 else 0x60,
      byte_of (mifare_sector_first_block (mifare_sector read)), 0, 0, 0, 0] @ key"

definition mifare_send_auth :: "nfcd_client \<Rightarrow> tag_read \<Rightarrow> bytes \<Rightarrow> tag_step" where
  "mifare_send_auth client read key =
     tag_wait client (read\<lparr>mifare_key := key\<rparr>) (TagTransceive (mifare_auth_cmd read key)) T_MfAuth"

definition mifare_try_cached_key :: "nfcd_client \<Rightarrow> tag_read \<Rightarrow> tag_step option" where
  "mifare_try_cached_key client read =
     map_option (\<lambda>key. mifare_send_auth client
        (read\<lparr>mifare_cached_attempt := True, mifare_auth_type := 0\<rparr>) key)
       (mifare_cache_lookup client (mifare_uid read) (mifare_sector read))"

text \<open>
  \<open>tag_read_mifare_next_sector\<close> resets the key index, so that the call of
  \<open>tag_read_mifare_try_key\<close> at its end sends the first default key.
\<close>

definition tag_read_mifare_next_sector :: "nfcd_client \<Rightarrow> tag_read \<Rightarrow> tag_step" where
  "tag_read_mifare_next_sector client read =
     (if \<not> tr_attached read then tag_read_free client read
      else if mifare_sector read \<ge> MIFARE_NUM_SECTORS then
        tag_read_finish client (read\<lparr>tag_obj := jobject_put ''scanning'' (JBool False)
          (jobject_put ''sectors'' (JArr (mifare_sectors_arr read)) (tag_obj read)), mifare_sectors_arr := []\<rparr>)
      else
        (let (client', outs) = mifare_publish_progress client read;
             read' = read\<lparr>mifare_key_index := 0, mifare_auth_type := 0, mifare_cached_attempt := False\<rparr>;
             (client'', read'', outs') =
               (case mifare_try_cached_key client' read' of
                  Some s \<Rightarrow> s
                | None \<Rightarrow> mifare_send_auth client' read' (mifare_default_keys ! 0)) in
         (client'', read'', outs @ outs')))"

definition tag_read_mifare_try_key :: "nfcd_client \<Rightarrow> tag_read \<Rightarrow> tag_step" where
  "tag_read_mifare_try_key client read =
     (if mifare_key_index read \<ge> length mifare_default_keys
      then tag_read_mifare_next_sector client (read\<lparr>mifare_sector := mifare_sector read + 1\<rparr>)
      else if \<not> tr_attached read then tag_read_free client read
      else mifare_send_auth client read (mifare_default_keys ! mifare_key_index read))"

definition mifare_read_block :: "nfcd_client \<Rightarrow> tag_read \<Rightarrow> nat \<Rightarrow> tag_step" where
  "mifare_read_block client read block = tag_wait client read (TagTransceive [0x30, byte_of block]) T_MfRead"

definition mifare_sector_done :: "nfcd_client \<Rightarrow> tag_read \<Rightarrow> tag_step" where
  "mifare_sector_done client read =
     (let sector_obj =
        jobject_put ''blocks'' (JArr (mifare_blocks_arr read))
          (jobject_put ''key'' (JStr (ndef_bytes_to_hex (mifare_key read)))
            (jobject_put ''keyType'' (JStr (str (if mifare_auth_type read \<noteq> 0 then ''B'' else ''A'')))
              (jobject_put ''sector'' (JNum (i32_of_nat (mifare_sector read))) jobject_create)));
          client' = mifare_cache_store client (mifare_uid read) (mifare_sector read) (mifare_key read) in
      tag_read_mifare_next_sector client'
        (read\<lparr>mifare_sectors_arr := mifare_sectors_arr read @ [sector_obj], mifare_blocks_arr := [],
          mifare_sector := mifare_sector read + 1\<rparr>))"

text \<open>The next key after a failed attempt: the sweep after the cached key, else one further.\<close>

definition mifare_next_attempt :: "nfcd_client \<Rightarrow> tag_read \<Rightarrow> tag_step" where
  "mifare_next_attempt client read =
     (if mifare_cached_attempt read
      then tag_read_mifare_try_key client (read\<lparr>mifare_cached_attempt := False\<rparr>)
      else tag_read_mifare_try_key client (read\<lparr>mifare_key_index := mifare_key_index read + 1\<rparr>))"

definition mifare_auth_ready :: "nfcd_client \<Rightarrow> tag_read \<Rightarrow> tag_event \<Rightarrow> tag_step" where
  "mifare_auth_ready client read ev =
     (if \<not> tr_attached read then tag_read_free client read
      else if \<not> t_ok ev then
        (if t_cancelled ev then tag_read_free client read else mifare_next_attempt client read)
      else mifare_read_block client (read\<lparr>mifare_block_offset := 0, mifare_blocks_arr := []\<rparr>)
             (mifare_sector_first_block (mifare_sector read)))"

definition mifare_block_read_ready :: "nfcd_client \<Rightarrow> tag_read \<Rightarrow> tag_event \<Rightarrow> tag_step" where
  "mifare_block_read_ready client read ev =
     (if \<not> tr_attached read then tag_read_free client read
      else if t_ok ev \<and> length (t_data ev) = 16 then
        (let read' = read\<lparr>mifare_blocks_arr := mifare_blocks_arr read @ [JStr (ndef_bytes_to_hex (t_data ev))],
               mifare_block_offset := mifare_block_offset read + 1\<rparr> in
         if mifare_block_offset read' \<ge> mifare_sector_block_count (mifare_sector read')
         then mifare_sector_done client read'
         else mifare_read_block client read'
                (mifare_sector_first_block (mifare_sector read') + mifare_block_offset read'))
      else if mifare_block_offset read = 0 then
        mifare_next_attempt client (read\<lparr>mifare_blocks_arr := []\<rparr>)
      else mifare_sector_done client read)"

definition tag_read_mifare_start :: "nfcd_client \<Rightarrow> tag_read \<Rightarrow> tag_step" where
  "tag_read_mifare_start client read =
     tag_read_mifare_next_sector client (read\<lparr>is_mifare := True, mifare_sector := 0, mifare_sectors_arr := []\<rparr>)"

section \<open>NDEF records and raw data\<close>

definition tag_read_raw_data :: "nfcd_client \<Rightarrow> tag_read \<Rightarrow> tag_step" where
  "tag_read_raw_data client read =
     (if \<not> is_type2 read then tag_read_finish client read
      else tag_wait client read (NewType2Proxy (Some (tr_path read))) T_RawProxy)"

definition tag_read_next_record :: "nfcd_client \<Rightarrow> tag_read \<Rightarrow> tag_step" where
  "tag_read_next_record client read =
     (if record_index read \<ge> length (record_paths read) then tag_read_raw_data client read
      else tag_wait client read (NewNdefProxy (record_paths read ! record_index read)) T_NdefProxy)"

definition ndef_get_all_ready ::
    "glib_utf \<Rightarrow> nat \<Rightarrow> nfcd_client \<Rightarrow> tag_read \<Rightarrow> tag_event \<Rightarrow> tag_step" where
  "ndef_get_all_ready g w client read ev =
     (if \<not> tr_attached read then tag_read_free client read
      else if t_ok ev then
        (case ndef_record_to_json g w (nf_tnf (t_ndef ev)) (nf_type (t_ndef ev)) (nf_id (t_ndef ev))
                (nf_payload (t_ndef ev)) of
           None \<Rightarrow> (client, read\<lparr>tr_stage := T_Wild\<rparr>, [])
         | Some j \<Rightarrow> tag_read_next_record client
             (read\<lparr>records_arr := records_arr read @ [j], record_index := record_index read + 1\<rparr>))
      else tag_read_next_record client (read\<lparr>record_index := record_index read + 1\<rparr>))"

definition ndef_proxy_ready :: "nfcd_client \<Rightarrow> tag_read \<Rightarrow> tag_event \<Rightarrow> tag_step" where
  "ndef_proxy_ready client read ev =
     (if \<not> t_ok ev then
        (if \<not> tr_attached read then tag_read_free client read
         else tag_read_next_record client (read\<lparr>record_index := record_index read + 1\<rparr>))
      else if \<not> tr_attached read then tag_read_free client read
      else tag_wait client read NdefGetAll T_NdefGetAll)"

definition raw_data_ready :: "nfcd_client \<Rightarrow> tag_read \<Rightarrow> tag_event \<Rightarrow> tag_step" where
  "raw_data_ready client read ev =
     (if \<not> tr_attached read then tag_read_free client read
      else if t_ok ev then
        tag_read_finish client
          (read\<lparr>tag_obj := jobject_put ''rawDataHex'' (JStr (ndef_bytes_to_hex (t_data ev))) (tag_obj read)\<rparr>)
      else tag_read_finish client read)"

definition raw_data_proxy_ready :: "nfcd_client \<Rightarrow> tag_read \<Rightarrow> tag_event \<Rightarrow> tag_step" where
  "raw_data_proxy_ready client read ev =
     (if \<not> t_ok ev then
        (if \<not> tr_attached read then tag_read_free client read else tag_read_finish client read)
      else if \<not> tr_attached read then tag_read_free client read
      else tag_wait client read Type2ReadAllData T_RawData)"

section \<open>The tag itself\<close>

definition tag_info_json :: "bytes \<Rightarrow> tag_info \<Rightarrow> jvalue" where
  "tag_info_json path ti =
     jobject_put ''pollParameters'' (variant_dict_to_json (ti_params ti))
      (jobject_put ''interfaces'' (strv_to_json (ti_interfaces ti))
        (jobject_put ''type'' (JNum (i32_of_nat (ti_type ti)))
          (jobject_put ''protocol'' (JStr (protocol_to_string (ti_protocol ti)))
            (jobject_put ''technology'' (JStr (technology_to_string (ti_technology ti)))
              (jobject_put ''present'' (JBool (ti_present ti))
                (jobject_put ''path'' (JStr path) jobject_create))))))"

definition tag_get_all_ready :: "nfcd_client \<Rightarrow> tag_read \<Rightarrow> tag_event \<Rightarrow> tag_step" where
  "tag_get_all_ready client read ev =
     (if \<not> t_ok ev then
        tag_read_free (if tr_attached read then client\<lparr>reading := None\<rparr> else client) read
      else if \<not> tr_attached read then tag_read_free client read
      else
        (let ti = t_info ev;
             client' = client\<lparr>tag_protocol := ti_protocol ti\<rparr>;
             mifare = (ti_type ti = NFC_TAG_TYPE_MIFARE_CLASSIC);
             read' = read\<lparr>tag_obj := tag_info_json (tr_path read) ti,
               is_type2 := (is_type2 read \<or> TAG_IFACE_TYPE2 \<in> set (ti_interfaces ti)),
               records_arr := [], record_paths := ti_records ti, record_index := 0,
               mifare_uid := (if mifare then map_option ndef_bytes_to_hex (lookup_bytes (ti_params ti) ''NFCID1'')
                              else mifare_uid read)\<rparr> in
         if mifare then tag_read_mifare_start client' read' else tag_read_next_record client' read'))"

definition tag_proxy_ready :: "nfcd_client \<Rightarrow> tag_read \<Rightarrow> tag_event \<Rightarrow> tag_step" where
  "tag_proxy_ready client read ev =
     (if \<not> t_ok ev then
        tag_read_free (if tr_attached read then client\<lparr>reading := None\<rparr> else client) read
      else if \<not> tr_attached read then tag_read_free client read
      else tag_wait client read TagGetAll3 T_GetAll)"

definition tag_read_new :: "bytes \<Rightarrow> tag_read" where
  "tag_read_new path =
     \<lparr>tr_stage = T_Proxy, tr_attached = True, tr_path = path, tag_obj = JNull, records_arr = [],
      record_paths = [], record_index = 0, is_type2 = False, is_mifare = False, mifare_uid = None,
      mifare_sector = 0, mifare_key_index = 0, mifare_auth_type = 0, mifare_block_offset = 0,
      mifare_key = replicate 6 0, mifare_cached_attempt = False, mifare_sectors_arr = [],
      mifare_blocks_arr = []\<rparr>"

definition tag_read_step :: "glib_utf \<Rightarrow> nat \<Rightarrow> nfcd_client \<Rightarrow> tag_read \<Rightarrow> tag_event \<Rightarrow> tag_step" where
  "tag_read_step g w client read ev =
     (case tr_stage read of
        T_Proxy \<Rightarrow> tag_proxy_ready client read ev
      | T_GetAll \<Rightarrow> tag_get_all_ready client read ev
      | T_NdefProxy \<Rightarrow> ndef_proxy_ready client read ev
      | T_NdefGetAll \<Rightarrow> ndef_get_all_ready g w client read ev
      | T_RawProxy \<Rightarrow> raw_data_proxy_ready client read ev
      | T_RawData \<Rightarrow> raw_data_ready client read ev
      | T_MfAuth \<Rightarrow> mifare_auth_ready client read ev
      | T_MfRead \<Rightarrow> mifare_block_read_ready client read ev
      | T_Done \<Rightarrow> (client, read, [])
      | T_Wild \<Rightarrow> (client, read, []))"

end
