(* ===== verification/Pace.thy ===== *)
theory Pace
  imports Mrz Secure_Messaging Bac
begin

text \<open>
  PACE (\<open>pace.c\<close>): EF.CardAccess, password encoding and key derivation, the four rounds
  of the exchange and the AES secure messaging layer.  OpenSSL's ciphers are the
  parameter \<open>ossl\<close>, its elliptic curve calls the parameter \<open>ec\<close>; random scalars
  are arguments.  \<open>None\<close> stands for NULL or FALSE.  The exchange object is a record that
  a successful step returns updated; after a failed step the caller only frees it.
\<close>

section \<open>Variants and curves\<close>

abbreviation AES_BLOCK_LEN :: nat where
  "AES_BLOCK_LEN \<equiv> 16"

abbreviation PACE_COORD_LEN_MAX :: nat where
  "PACE_COORD_LEN_MAX \<equiv> 40"

definition PACE_NONCE_LEN_MAX :: nat where
  "PACE_NONCE_LEN_MAX = 4 * AES_BLOCK_LEN"

definition pace_oid_aes128 :: bytes where
  "pace_oid_aes128 = [0x04, 0x00, 0x7F, 0x00, 0x07, 0x02, 0x02, 0x04, 0x02, 0x02]"

definition pace_oid_aes256 :: bytes where
  "pace_oid_aes256 = [0x04, 0x00, 0x7F, 0x00, 0x07, 0x02, 0x02, 0x04, 0x02, 0x04]"

definition id_pace_prefix :: bytes where
  "id_pace_prefix = [0x04, 0x00, 0x7F, 0x00, 0x07, 0x02, 0x02, 0x04]"

definition pace_key_len_for_oid :: "bytes \<Rightarrow> nat" where
  "pace_key_len_for_oid oid = (if oid = pace_oid_aes128 then 16 else if oid = pace_oid_aes256 then 32 else 0)"

definition pace_oid_supported :: "bytes \<Rightarrow> bool" where
  "pace_oid_supported oid \<longleftrightarrow> pace_key_len_for_oid oid \<noteq> 0"

text \<open>Curve identifiers of OpenSSL (\<open>obj_mac.h\<close>); 0 is no curve.\<close>

datatype curve_nid = NID_undef | NID_X9_62_prime256v1 | NID_brainpoolP256r1 | NID_brainpoolP320r1

definition pace_ec_curve_for_parameter_id :: "int \<Rightarrow> curve_nid" where
  "pace_ec_curve_for_parameter_id parameter_id =
     (if parameter_id = 12 then NID_X9_62_prime256v1
      else if parameter_id = 13 then NID_brainpoolP256r1
      else if parameter_id = 14 then NID_brainpoolP320r1
      else NID_undef)"

section \<open>EF.CardAccess\<close>

record pace_info_entry =
  e_oid :: bytes
  e_parameter_id :: int

text \<open>
  \<open>data\<close> is the buffer, \<open>len\<close> the length the caller passes.  Every read is checked
  against the buffer.  The value loop is \<open>val = (val << 8) | seq[..]\<close> on a 32-bit
  \<open>gint\<close>.
\<close>

definition parameter_value :: "bytes \<Rightarrow> int" where
  "parameter_value bs = sint (foldl (\<lambda>val b. push_bit 8 val OR ucast b) (0 :: 32 word) bs)"

text \<open>
  The parameterId behind the OID: an optional version INTEGER is skipped first.  \<open>pos\<close> is
  where the SecurityInfo starts, \<open>p\<close> the offset in it, \<open>seq_len\<close> its length.
\<close>

definition skip_version :: "bytes \<Rightarrow> nat \<Rightarrow> nat \<Rightarrow> nat \<Rightarrow> nat outcome" where
  "skip_version data pos seq_len p =
     (if p < seq_len then
        read_or (rd data (pos + p)) (\<lambda>tag.
          if tag = 0x02 then
            (case bac_ber_tlv_header data (pos + p) (seq_len - p) of
               Undefined \<Rightarrow> Undefined
             | Malformed \<Rightarrow> Parsed p
             | Parsed (vh, vc) \<Rightarrow> Parsed (p + (vh + vc)))
          else Parsed p)
      else Parsed p)"

definition read_parameter_id :: "bytes \<Rightarrow> nat \<Rightarrow> nat \<Rightarrow> nat \<Rightarrow> int outcome" where
  "read_parameter_id data pos seq_len p =
     (if p < seq_len then
        read_or (rd data (pos + p)) (\<lambda>tag.
          if tag = 0x02 then
            (case bac_ber_tlv_header data (pos + p) (seq_len - p) of
               Undefined \<Rightarrow> Undefined
             | Malformed \<Rightarrow> Parsed (- 1)
             | Parsed (ih, ic) \<Rightarrow>
                 if 1 \<le> ic \<and> ic \<le> 4 then
                   read_or (rd_n data (pos + p + ih) ic) (\<lambda>bs. Parsed (parameter_value bs))
                 else Parsed (- 1))
          else Parsed (- 1))
      else Parsed (- 1))"

text \<open>One SecurityInfo: \<open>Parsed None\<close> when it is no PACEInfo.\<close>

definition parse_security_info :: "bytes \<Rightarrow> nat \<Rightarrow> nat \<Rightarrow> nat \<Rightarrow> pace_info_entry option outcome" where
  "parse_security_info data pos seq_header seq_len =
     (let p = seq_header in
      if p < seq_len then
        read_or (rd data (pos + p)) (\<lambda>tag.
          if tag \<noteq> 0x06 then Parsed None
          else (case bac_ber_tlv_header data (pos + p) (seq_len - p) of
            Undefined \<Rightarrow> Undefined
          | Malformed \<Rightarrow> Parsed None
          | Parsed (oid_hdr, oid_content) \<Rightarrow>
              if oid_content > 0 \<and> oid_content \<le> 16 \<and> oid_content \<ge> length id_pace_prefix then
                read_or (rd_n data (pos + p + oid_hdr) (length id_pace_prefix)) (\<lambda>prefix.
                if prefix \<noteq> id_pace_prefix then Parsed None
                else read_or (rd_n data (pos + p + oid_hdr) oid_content) (\<lambda>oid.
                  (case skip_version data pos seq_len (p + (oid_hdr + oid_content)) of
                     Undefined \<Rightarrow> Undefined
                   | Malformed \<Rightarrow> Malformed
                   | Parsed p' \<Rightarrow>
                       (case read_parameter_id data pos seq_len p' of
                          Undefined \<Rightarrow> Undefined
                        | Malformed \<Rightarrow> Malformed
                        | Parsed v \<Rightarrow> Parsed (Some \<lparr>e_oid = oid, e_parameter_id = v\<rparr>)))))
              else Parsed None))
      else Parsed None)"

function security_infos :: "bytes \<Rightarrow> nat \<Rightarrow> nat \<Rightarrow> nat \<Rightarrow> pace_info_entry list outcome" where
  "security_infos data pos end max_entries =
     (if pos < end \<and> 0 < max_entries then
        (case rd data pos of
           None \<Rightarrow> Undefined
         | Some tag \<Rightarrow>
             if tag \<noteq> 0x30 then Parsed []
             else (case bac_ber_tlv_header data pos (end - pos) of
               Undefined \<Rightarrow> Undefined
             | Malformed \<Rightarrow> Parsed []
             | Parsed (seq_header, seq_content) \<Rightarrow>
                 let seq_len = seq_header + seq_content in
                 if end < pos + seq_len then Parsed []
                 else (case parse_security_info data pos seq_header seq_len of
                   Undefined \<Rightarrow> Undefined
                 | Malformed \<Rightarrow> Malformed
                 | Parsed None \<Rightarrow> security_infos data (pos + seq_len) end max_entries
                 | Parsed (Some e) \<Rightarrow>
                     (case security_infos data (pos + seq_len) end (max_entries - 1) of
                        Undefined \<Rightarrow> Undefined
                      | Malformed \<Rightarrow> Malformed
                      | Parsed es \<Rightarrow> Parsed (e # es)))))
      else Parsed [])"
  by pat_completeness auto
termination
  by (relation "measure (\<lambda>(data, pos, end, n). end - pos)") (auto dest: ber_header_header)

declare security_infos.simps [simp del]

definition pace_parse_card_access :: "bytes \<Rightarrow> nat \<Rightarrow> nat \<Rightarrow> pace_info_entry list outcome" where
  "pace_parse_card_access data len max_entries =
     (if len < 2 then Parsed []
      else read_or (rd data 0) (\<lambda>tag.
        if tag \<noteq> 0x31 then Parsed []
        else (case bac_ber_tlv_header data 0 len of
          Undefined \<Rightarrow> Undefined
        | Malformed \<Rightarrow> Parsed []
        | Parsed (outer_header, outer_content) \<Rightarrow>
            if len < outer_header + outer_content then Parsed []
            else security_infos data outer_header (outer_header + outer_content) max_entries)))"

section \<open>Keys\<close>

definition pace_kdf :: "openssl \<Rightarrow> bytes \<Rightarrow> nat \<Rightarrow> nat \<Rightarrow> bytes" where
  "pace_kdf ossl k c key_len =
     (let d = k @ be32 c in
      if key_len = 16 then take 16 (SHA1 ossl d)
      else take (if key_len \<le> 32 then key_len else 32) (SHA256 ossl d))"

definition pace_derive_k_can :: "bytes option \<Rightarrow> bytes option" where
  "pace_derive_k_can can = (case can of None \<Rightarrow> None | Some s \<Rightarrow> if c_str s = [] then None else Some (c_str s))"

definition pace_derive_k_mrz :: "openssl \<Rightarrow> bytes option \<Rightarrow> bytes option \<Rightarrow> bytes option \<Rightarrow> bytes option" where
  "pace_derive_k_mrz ossl doc dob expiry = bac_mrz_sha1 ossl doc dob expiry"

definition aes_cbc_cipher :: "nat \<Rightarrow> evp_cipher" where
  "aes_cbc_cipher key_len = (if key_len = 32 then AES_256_CBC else AES_128_CBC)"

definition aes_ecb_cipher :: "nat \<Rightarrow> evp_cipher" where
  "aes_ecb_cipher key_len = (if key_len = 32 then AES_256_ECB else AES_128_ECB)"

definition aes_cbc :: "openssl \<Rightarrow> bool \<Rightarrow> bytes \<Rightarrow> nat \<Rightarrow> bytes \<Rightarrow> bytes \<Rightarrow> bytes option" where
  "aes_cbc ossl encrypt key key_len iv inp =
     (case EVP_Cipher ossl (aes_cbc_cipher key_len) encrypt key iv inp of
        None \<Rightarrow> None
      | Some out \<Rightarrow> if length out = length inp then Some out else None)"

definition aes_ecb_encrypt_block :: "openssl \<Rightarrow> bytes \<Rightarrow> nat \<Rightarrow> bytes \<Rightarrow> bytes option" where
  "aes_ecb_encrypt_block ossl key key_len inp =
     (case EVP_Cipher ossl (aes_ecb_cipher key_len) True key [] inp of
        None \<Rightarrow> None
      | Some out \<Rightarrow> if length out = AES_BLOCK_LEN then Some out else None)"

definition aes_cmac :: "openssl \<Rightarrow> bytes \<Rightarrow> nat \<Rightarrow> bytes \<Rightarrow> bytes option" where
  "aes_cmac ossl key key_len data =
     (case EVP_CMAC ossl (aes_cbc_cipher key_len) key data of
        None \<Rightarrow> None
      | Some out \<Rightarrow> if length out = AES_BLOCK_LEN then Some out else None)"

section \<open>Dynamic authentication data\<close>

definition wrap_7c :: "byte \<Rightarrow> bytes \<Rightarrow> bytes" where
  "wrap_7c inner_tag data =
     [0x7C, byte_of (length data + 2)] @ [inner_tag, byte_of (length data)] @ data"

text \<open>The loop: \<open>end\<close> is \<open>resp[1] + 2\<close>.\<close>

function find_in_7c_loop :: "bytes \<Rightarrow> byte \<Rightarrow> nat \<Rightarrow> nat \<Rightarrow> bytes outcome" where
  "find_in_7c_loop resp tag end pos =
     (if pos + 2 \<le> end then
        (case (rd resp pos, rd resp (pos + 1)) of
           (Some t, Some l) \<Rightarrow>
             if l \<ge> 0x80 \<or> end < pos + 2 + unat l then Malformed
             else if t = tag then read_or (rd_n resp (pos + 2) (unat l)) Parsed
             else find_in_7c_loop resp tag end (pos + (2 + unat l))
         | _ \<Rightarrow> Undefined)
      else Malformed)"
  by pat_completeness auto
termination by (relation "measure (\<lambda>(resp, tag, end, pos). end - pos)") auto

declare find_in_7c_loop.simps [simp del]

definition find_in_7c :: "bytes \<Rightarrow> byte \<Rightarrow> bytes outcome" where
  "find_in_7c resp tag =
     (if length resp < 2 then Malformed
      else read_or (rd resp 0) (\<lambda>r0. if r0 \<noteq> 0x7C then Malformed
      else read_or (rd resp 1) (\<lambda>r1. if r1 \<ge> 0x80 then Malformed
      else if length resp < unat r1 + 2 then Malformed
      else find_in_7c_loop resp tag (unat r1 + 2) 2)))"

definition pace_build_mse_set_at :: "bytes \<Rightarrow> bool \<Rightarrow> bytes" where
  "pace_build_mse_set_at oid use_can =
     [0x00, 0x22, 0xC1, 0xA4] @ [byte_of (2 + length oid + 3)] @ [0x80, byte_of (length oid)] @ oid
     @ [0x83, 0x01, if use_can then 0x02 else 0x01]"

definition build_ga :: "byte \<Rightarrow> bytes \<Rightarrow> bytes" where
  "build_ga inner_tag data =
     (let dad = wrap_7c inner_tag data in [0x10, 0x86, 0x00, 0x00] @ [byte_of (length dad)] @ dad @ [0x00])"

definition pace_build_get_nonce :: bytes where
  "pace_build_get_nonce = [0x10, 0x86, 0x00, 0x00, 0x02, 0x7C, 0x00, 0x00]"

end
