(* ===== verification/Pace_Exchange.thy ===== *)
theory Pace_Exchange
  imports Pace
begin

text \<open>
  The four rounds of PACE (\<open>PaceExchange\<close> in \<open>pace.c\<close>) over an abstract elliptic
  curve library.  Result \<open>Undefined\<close> of a step is the use of an object an earlier step
  did not create (a NULL group or scalar), \<open>Malformed\<close> the FALSE or NULL return.
\<close>

section \<open>The curve library\<close>

text \<open>
  The calls the code makes, on groups \<open>'g\<close> and points \<open>'p\<close>; \<open>None\<close> is an OpenSSL
  error.  \<open>EC_POINT_mul\<close> is split into its two uses (generator, given point), and
  \<open>EC_GROUP_with_generator\<close> is \<open>EC_GROUP_get_curve\<close>, \<open>EC_GROUP_new_curve_GFp\<close> and
  \<open>EC_GROUP_set_generator\<close> in a row.
\<close>

record ('g, 'p) ec_lib =
  EC_GROUP_new_by_curve_name :: "curve_nid \<Rightarrow> 'g option"
  EC_GROUP_get_degree :: "'g \<Rightarrow> int"
  EC_POINT_mul_generator :: "'g \<Rightarrow> nat \<Rightarrow> 'p option"
  EC_POINT_mul :: "'g \<Rightarrow> 'p \<Rightarrow> nat \<Rightarrow> 'p option"
  EC_POINT_add :: "'g \<Rightarrow> 'p \<Rightarrow> 'p \<Rightarrow> 'p option"
  EC_GROUP_with_generator :: "'g \<Rightarrow> 'p \<Rightarrow> 'g option"
  EC_POINT_point2oct :: "'g \<Rightarrow> 'p \<Rightarrow> bytes option"
  EC_POINT_oct2point :: "'g \<Rightarrow> bytes \<Rightarrow> 'p option"
  EC_POINT_affine_x :: "'g \<Rightarrow> 'p \<Rightarrow> nat option"

text \<open>\<open>BN_bn2binpad\<close>: big endian, padded to \<open>n\<close> bytes, an error if it does not fit.\<close>

definition BN_bn2binpad :: "nat \<Rightarrow> nat \<Rightarrow> bytes option" where
  "BN_bn2binpad x n =
     (if x < 256 ^ n then Some (map (\<lambda>i. byte_of (x div 256 ^ (n - 1 - i))) [0..<n]) else None)"

section \<open>The exchange object\<close>

record pace_session =
  pks_enc :: bytes
  pks_mac :: bytes
  pssc :: bytes
  skey_len :: nat

record 'g pace_exchange =
  oid :: bytes
  key_len :: nat
  kpi :: bytes
  nonce_s :: bytes
  coord_len :: nat
  pub_len :: nat
  group :: 'g
  priv1 :: "nat option"
  group2 :: "'g option"
  priv2 :: "nat option"
  my_pub2 :: bytes
  chip_pub2 :: bytes
  session :: pace_session

definition zero_session :: pace_session where
  "zero_session = \<lparr>pks_enc = replicate 32 0, pks_mac = replicate 32 0, pssc = replicate 16 0, skey_len = 0\<rparr>"

definition pace_exchange_new ::
    "openssl \<Rightarrow> ('g, 'p) ec_lib \<Rightarrow> bytes \<Rightarrow> curve_nid \<Rightarrow> bytes \<Rightarrow> 'g pace_exchange option" where
  "pace_exchange_new ossl ec k curve oid0 =
     (let klen = pace_key_len_for_oid oid0 in
      if curve = NID_undef \<or> klen = 0 \<or> length oid0 > 16 then None
      else (case EC_GROUP_new_by_curve_name ec curve of
        None \<Rightarrow> None
      | Some g \<Rightarrow>
          (let degree = EC_GROUP_get_degree ec g;
               clen = (if degree > 0 then nat ((degree + 7) div 8) else 0) in
           if clen = 0 \<or> clen > PACE_COORD_LEN_MAX then None
           else Some \<lparr>oid = oid0, key_len = klen, kpi = pace_kdf ossl k 3 klen, nonce_s = [],
             coord_len = clen, pub_len = 1 + 2 * clen, group = g, priv1 = None, group2 = None,
             priv2 = None, my_pub2 = replicate (1 + 2 * clen) 0, chip_pub2 = replicate (1 + 2 * clen) 0,
             session = zero_session\<rparr>)))"

section \<open>Round 1: the encrypted nonce\<close>

definition pace_process_nonce_response :: "openssl \<Rightarrow> 'g pace_exchange \<Rightarrow> bytes \<Rightarrow> 'g pace_exchange outcome" where
  "pace_process_nonce_response ossl pace resp =
     (case find_in_7c resp 0x80 of
        Undefined \<Rightarrow> Undefined
      | Malformed \<Rightarrow> Malformed
      | Parsed z \<Rightarrow>
          if length z = 0 \<or> length z mod AES_BLOCK_LEN \<noteq> 0 \<or> length z > PACE_NONCE_LEN_MAX then Malformed
          else (case aes_cbc ossl False (kpi pace) (key_len pace) (replicate AES_BLOCK_LEN 0) z of
            None \<Rightarrow> Malformed
          | Some s \<Rightarrow> Parsed (pace\<lparr>nonce_s := s\<rparr>)))"

section \<open>Round 2: mapping\<close>

definition point_to_bytes :: "('g, 'p) ec_lib \<Rightarrow> 'g \<Rightarrow> 'p \<Rightarrow> nat \<Rightarrow> bytes option" where
  "point_to_bytes ec g point plen =
     (case EC_POINT_point2oct ec g point of
        None \<Rightarrow> None
      | Some out \<Rightarrow> if length out = plen then Some out else None)"

definition point_from_bytes :: "('g, 'p) ec_lib \<Rightarrow> 'g \<Rightarrow> bytes \<Rightarrow> nat \<Rightarrow> 'p option" where
  "point_from_bytes ec g data expect_pub_len =
     (if length data \<noteq> expect_pub_len \<or> data ! 0 \<noteq> 0x04 then None
      else EC_POINT_oct2point ec g data)"

text \<open>\<open>rand\<close> is the result of \<open>random_scalar\<close>, the scalar \<open>BN_rand_range\<close> delivered.\<close>

definition pace_build_map_nonce ::
    "('g, 'p) ec_lib \<Rightarrow> 'g pace_exchange \<Rightarrow> nat option \<Rightarrow> ('g pace_exchange \<times> bytes) option" where
  "pace_build_map_nonce ec pace rand =
     (case rand of
        None \<Rightarrow> None
      | Some r \<Rightarrow>
          (case EC_POINT_mul_generator ec (group pace) r of
             None \<Rightarrow> None
           | Some pub1 \<Rightarrow>
               (case point_to_bytes ec (group pace) pub1 (pub_len pace) of
                  None \<Rightarrow> None
                | Some pub1_bytes \<Rightarrow> Some (pace\<lparr>priv1 := Some r\<rparr>, build_ga 0x81 pub1_bytes))))"

definition pace_process_map_nonce_response ::
    "('g, 'p) ec_lib \<Rightarrow> 'g pace_exchange \<Rightarrow> bytes \<Rightarrow> 'g pace_exchange outcome" where
  "pace_process_map_nonce_response ec pace resp =
     (case find_in_7c resp 0x82 of
        Undefined \<Rightarrow> Undefined
      | Malformed \<Rightarrow> Malformed
      | Parsed chip_pub1_bytes \<Rightarrow>
          (case point_from_bytes ec (group pace) chip_pub1_bytes (pub_len pace) of
             None \<Rightarrow> Malformed
           | Some chip_pub1 \<Rightarrow>
               (case priv1 pace of
                  None \<Rightarrow> Undefined
                | Some r \<Rightarrow>
                    (case EC_POINT_mul ec (group pace) chip_pub1 r of None \<Rightarrow> Malformed | Some h \<Rightarrow>
                     case EC_POINT_mul_generator ec (group pace) (be_val (nonce_s pace)) of None \<Rightarrow> Malformed | Some sg \<Rightarrow>
                     case EC_POINT_add ec (group pace) sg h of None \<Rightarrow> Malformed | Some gtilde \<Rightarrow>
                     case EC_GROUP_with_generator ec (group pace) gtilde of None \<Rightarrow> Malformed | Some g2 \<Rightarrow>
                       Parsed (pace\<lparr>group2 := Some g2\<rparr>)))))"

section \<open>Round 3: key agreement\<close>

definition pace_build_key_agreement ::
    "('g, 'p) ec_lib \<Rightarrow> 'g pace_exchange \<Rightarrow> nat option \<Rightarrow> ('g pace_exchange \<times> bytes) outcome" where
  "pace_build_key_agreement ec pace rand =
     (case group2 pace of
        None \<Rightarrow> Undefined
      | Some g2 \<Rightarrow>
          (case rand of
             None \<Rightarrow> Malformed
           | Some r \<Rightarrow>
               (case EC_POINT_mul_generator ec g2 r of
                  None \<Rightarrow> Malformed
                | Some pub2 \<Rightarrow>
                    (case point_to_bytes ec g2 pub2 (pub_len pace) of
                       None \<Rightarrow> Malformed
                     | Some bs \<Rightarrow> Parsed (pace\<lparr>priv2 := Some r, my_pub2 := bs\<rparr>, build_ga 0x83 bs)))))"

definition pace_process_key_agreement_response ::
    "openssl \<Rightarrow> ('g, 'p) ec_lib \<Rightarrow> 'g pace_exchange \<Rightarrow> bytes \<Rightarrow> ('g pace_exchange \<times> pace_session) outcome" where
  "pace_process_key_agreement_response ossl ec pace resp =
     (case find_in_7c resp 0x84 of
        Undefined \<Rightarrow> Undefined
      | Malformed \<Rightarrow> Malformed
      | Parsed chip_pub2_bytes \<Rightarrow>
          if length chip_pub2_bytes \<noteq> pub_len pace then Malformed
          else (case (group2 pace, priv2 pace) of
            (Some g2, Some r) \<Rightarrow>
              (case point_from_bytes ec g2 chip_pub2_bytes (pub_len pace) of None \<Rightarrow> Malformed | Some q \<Rightarrow>
               case EC_POINT_mul ec g2 q r of None \<Rightarrow> Malformed | Some shared \<Rightarrow>
               case EC_POINT_affine_x ec g2 shared of None \<Rightarrow> Malformed | Some x \<Rightarrow>
               case BN_bn2binpad x (coord_len pace) of None \<Rightarrow> Malformed | Some k \<Rightarrow>
                 (let s = \<lparr>pks_enc = pace_kdf ossl k 1 (key_len pace), pks_mac = pace_kdf ossl k 2 (key_len pace),
                            pssc = replicate 16 0, skey_len = key_len pace\<rparr> in
                  Parsed (pace\<lparr>chip_pub2 := chip_pub2_bytes, session := s\<rparr>, s)))
          | _ \<Rightarrow> Undefined))"

section \<open>Round 4: mutual authentication\<close>

definition encode_token_input :: "'g pace_exchange \<Rightarrow> bytes \<Rightarrow> bytes" where
  "encode_token_input pace pub2 =
     [0x7F, 0x49, byte_of (2 + length (oid pace) + 2 + pub_len pace)]
     @ [0x06, byte_of (length (oid pace))] @ oid pace
     @ [0x86, byte_of (pub_len pace)] @ pub2"

definition compute_token :: "openssl \<Rightarrow> 'g pace_exchange \<Rightarrow> bytes \<Rightarrow> bytes option" where
  "compute_token ossl pace pub2 =
     map_option (take 8) (aes_cmac ossl (pks_mac (session pace)) (key_len pace) (encode_token_input pace pub2))"

definition pace_build_mutual_auth :: "openssl \<Rightarrow> 'g pace_exchange \<Rightarrow> bytes option" where
  "pace_build_mutual_auth ossl pace =
     (case compute_token ossl pace (chip_pub2 pace) of
        None \<Rightarrow> None
      | Some token \<Rightarrow>
          (let dad = wrap_7c 0x85 token in
           Some ([0x00, 0x86, 0x00, 0x00] @ [byte_of (length dad)] @ dad @ [0x00])))"

definition pace_verify_mutual_auth_response :: "openssl \<Rightarrow> 'g pace_exchange \<Rightarrow> bytes \<Rightarrow> bool outcome" where
  "pace_verify_mutual_auth_response ossl pace resp =
     (case find_in_7c resp 0x86 of
        Undefined \<Rightarrow> Undefined
      | Malformed \<Rightarrow> Parsed False
      | Parsed chip_token \<Rightarrow>
          if length chip_token \<noteq> 8 then Parsed False
          else (case compute_token ossl pace (my_pub2 pace) of
            None \<Rightarrow> Parsed False
          | Some expect \<Rightarrow> Parsed (bytes_equal expect chip_token 8)))"

section \<open>Secure messaging\<close>

definition pace_sm_protect ::
    "openssl \<Rightarrow> pace_session \<Rightarrow> byte \<Rightarrow> byte \<Rightarrow> byte \<Rightarrow> byte \<Rightarrow> bytes \<Rightarrow> int \<Rightarrow> pace_session \<times> bytes option" where
  "pace_sm_protect ossl s cla ins p1 p2 data le =
     (let header = [cla OR 0x0C, ins, p1, p2];
          header_padded = pace_iso_pad header in
      if le > 255 \<or> length data > 190 then (s, None)
      else let s' = s\<lparr>pssc := ssc_increment (pssc s)\<rparr> in
        (case (if data \<noteq> [] then
                 (case aes_ecb_encrypt_block ossl (pks_enc s') (skey_len s') (pssc s') of
                    None \<Rightarrow> None
                  | Some iv \<Rightarrow>
                      map_option (\<lambda>enc. append_tlv 0x87 (0x01 # enc))
                        (aes_cbc ossl True (pks_enc s') (skey_len s') iv (pace_iso_pad data)))
               else Some []) of
           None \<Rightarrow> (s', None)
         | Some dob87 \<Rightarrow>
             (let dob97 = (if le \<ge> 0 then append_tlv 0x97 [byte_of (nat le)] else []);
                  m = header_padded @ dob87 @ dob97;
                  n = pssc s' @ m in
              case aes_cmac ossl (pks_mac s') (skey_len s') (pace_iso_pad n) of
                None \<Rightarrow> (s', None)
              | Some full_mac \<Rightarrow>
                  (let mac = take 8 full_mac;
                       lc = byte_of (length dob87 + length dob97 + 2 + 8) in
                   (s', Some (header @ [lc] @ dob87 @ dob97 @ append_tlv 0x8E mac @ [0x00]))))))"

text \<open>The block under \<open>if (do87)\<close> of \<open>pace_sm_unprotect\<close>.\<close>

definition pace_open_do87 :: "openssl \<Rightarrow> pace_session \<Rightarrow> bytes \<Rightarrow> nat \<Rightarrow> nat \<Rightarrow> nat \<Rightarrow> sm_result" where
  "pace_open_do87 ossl s rapdu off len sw =
     (case bac_ber_tlv_header rapdu off len of
        Undefined \<Rightarrow> SM_OutOfBounds
      | Malformed \<Rightarrow> SM_Rejected
      | Parsed (hlen, clen) \<Rightarrow>
          if clen < 1 then SM_Rejected
          else (case rd rapdu (off + hlen) of
            None \<Rightarrow> SM_OutOfBounds
          | Some indicator \<Rightarrow>
              if indicator \<noteq> 0x01 then SM_Rejected
              else let enc_len = clen - 1 in
                if enc_len = 0 \<or> enc_len mod AES_BLOCK_LEN \<noteq> 0 then SM_Rejected
                else (case aes_ecb_encrypt_block ossl (pks_enc s) (skey_len s) (pssc s) of
                  None \<Rightarrow> SM_Rejected
                | Some iv \<Rightarrow>
                    (case rd_n rapdu (off + hlen + 1) enc_len of
                       None \<Rightarrow> SM_OutOfBounds
                     | Some enc \<Rightarrow>
                         (case aes_cbc ossl False (pks_enc s) (skey_len s) iv enc of
                            None \<Rightarrow> SM_Rejected
                          | Some dec \<Rightarrow>
                              (case iso_unpad dec of
                                 None \<Rightarrow> SM_Rejected
                               | Some plaintext \<Rightarrow> SM_Accepted (Some plaintext) sw))))))"

definition pace_sm_unprotect :: "openssl \<Rightarrow> pace_session \<Rightarrow> bytes \<Rightarrow> pace_session \<times> sm_result" where
  "pace_sm_unprotect ossl s rapdu =
     (if length rapdu < 2 then (s, SM_Rejected)
      else (case pace_scan_dos rapdu 0 no_dos of
        Undefined \<Rightarrow> (s, SM_OutOfBounds)
      | Malformed \<Rightarrow> (s, SM_Rejected)
      | Parsed d \<Rightarrow>
          (case (do99 d, do8e d) of
             (Some (o99, l99), Some (o8e, l8e)) \<Rightarrow>
               if l99 \<noteq> 4 \<or> l8e \<noteq> 2 + 8 then (s, SM_Rejected)
               else (let s' = s\<lparr>pssc := ssc_increment (pssc s)\<rparr> in
                 (s',
                  case ((case do87 d of None \<Rightarrow> Some [] | Some (o87, l87) \<Rightarrow> rd_n rapdu o87 l87),
                        rd_n rapdu o99 l99, rd_n rapdu (o8e + 2) 8) of
                    (Some b87, Some b99, Some code) \<Rightarrow>
                      (case aes_cmac ossl (pks_mac s') (skey_len s') (pace_iso_pad (pssc s' @ b87 @ b99)) of
                         None \<Rightarrow> SM_Rejected
                       | Some mac \<Rightarrow>
                           if \<not> bytes_equal mac code 8 then SM_Rejected
                           else (let sw = unat (b99 ! 2) * 256 + unat (b99 ! 3) in
                             case do87 d of
                               None \<Rightarrow> SM_Accepted None sw
                             | Some (o87, l87) \<Rightarrow> pace_open_do87 ossl s' rapdu o87 l87 sw))
                  | _ \<Rightarrow> SM_OutOfBounds))
           | _ \<Rightarrow> (s, SM_Rejected))))"

end
