(* ===== verification/Photo.thy ===== *)
theory Photo
  imports Prelude
begin

text \<open>
  \<open>photo_convert.c\<close>: the memory stream OpenJPEG reads from, sample scaling, the BMP
  encoder and the conversion of a decoded JPEG 2000 image.  OpenJPEG itself is a parameter:
  the decoder as a function from codec and bytes to the components of the image.  Sizes of
  32 and 64 bits wrap as in C.
\<close>

section \<open>The memory stream\<close>

record mem_stream =
  ms_data :: bytes
  ms_pos :: nat

definition ms_avail :: "mem_stream \<Rightarrow> nat" where
  "ms_avail s = (length (ms_data s) + 2 ^ 64 - ms_pos s) mod 2 ^ 64"

text \<open>Result: the bytes copied and the return value; \<open>None\<close> is \<open>(OPJ_SIZE_T) -1\<close>.\<close>

definition mem_read :: "nat \<Rightarrow> mem_stream \<Rightarrow> mem_stream \<times> bytes \<times> nat option" where
  "mem_read n s =
     (let avail = ms_avail s; k = (if n < avail then n else avail) in
      if k = 0 then (s, [], None)
      else (s\<lparr>ms_pos := ms_pos s + k\<rparr>, take k (drop (ms_pos s) (ms_data s)), Some k))"

definition mem_skip :: "int \<Rightarrow> mem_stream \<Rightarrow> mem_stream \<times> int" where
  "mem_skip n s =
     (let avail = ms_avail s in
      if n < 0 then (s, - 1)
      else let k = (if nat n < avail then nat n else avail) in
        (s\<lparr>ms_pos := ms_pos s + k\<rparr>, int k))"

definition mem_seek :: "int \<Rightarrow> mem_stream \<Rightarrow> mem_stream \<times> bool" where
  "mem_seek n s =
     (if n < 0 \<or> length (ms_data s) < nat n then (s, False) else (s\<lparr>ms_pos := nat n\<rparr>, True))"

section \<open>Samples\<close>

text \<open>
  \<open>None\<close> where C leaves the result undefined: a shift of 31 or more, a negative shift,
  or a sum that leaves 32 bits.
\<close>

definition clamp_sample :: "int \<Rightarrow> nat \<Rightarrow> bool \<Rightarrow> byte option" where
  "clamp_sample v prec sgnd =
     (if prec \<ge> 31 \<or> (sgnd \<and> (prec = 0 \<or> v + 2 ^ (prec - 1) \<ge> 2 ^ 31)) then None
      else let mx = 2 ^ prec - 1;
               v1 = (if sgnd then v + 2 ^ (prec - 1) else v);
               v2 = (if v1 < 0 then 0 else v1);
               v3 = (if v2 > mx then mx else v2)
           in Some (byte_of (nat (if prec \<ge> 8 then v3 div 2 ^ (prec - 8) else v3 * 2 ^ (8 - prec)))))"

section \<open>The BMP encoder\<close>

definition bmp_u32 :: "nat \<Rightarrow> bytes" where
  "bmp_u32 v = [byte_of v, byte_of (v div 256), byte_of (v div 65536), byte_of (v div 16777216)]"

definition bmp_u16 :: "nat \<Rightarrow> bytes" where
  "bmp_u16 v = [byte_of v, byte_of (v div 256)]"

definition u32 :: "nat \<Rightarrow> nat" where
  "u32 n = n mod 2 ^ 32"

text \<open>\<open>(row_bytes + 3) & ~3u\<close>.\<close>

definition bmp_row_bytes :: "nat \<Rightarrow> nat" where
  "bmp_row_bytes width = u32 (width * 3)"

definition bmp_row_padded :: "nat \<Rightarrow> nat" where
  "bmp_row_padded width = u32 (bmp_row_bytes width + 3) div 4 * 4"

definition bmp_pixel_data_len :: "nat \<Rightarrow> nat \<Rightarrow> nat" where
  "bmp_pixel_data_len width height = u32 (bmp_row_padded width * height)"

definition bmp_header :: "nat \<Rightarrow> nat \<Rightarrow> bytes" where
  "bmp_header width height =
     str ''BM'' @ bmp_u32 (u32 (14 + 40 + bmp_pixel_data_len width height)) @ bmp_u32 0 @ bmp_u32 (14 + 40)
     @ bmp_u32 40 @ bmp_u32 width @ bmp_u32 height @ bmp_u16 1 @ bmp_u16 24 @ bmp_u32 0
     @ bmp_u32 (bmp_pixel_data_len width height) @ bmp_u32 0 @ bmp_u32 0 @ bmp_u32 0 @ bmp_u32 0"

text \<open>One row: the samples of each pixel in BGR order, then the padding.\<close>

definition bmp_row :: "bytes \<Rightarrow> nat \<Rightarrow> nat \<Rightarrow> bytes" where
  "bmp_row rgb width y =
     (let off = y * bmp_row_bytes width in
      concat (map (\<lambda>x. [rgb ! (off + (x * 3 + 2)), rgb ! (off + (x * 3 + 1)), rgb ! (off + (x * 3 + 0))]) [0..<width])
      @ replicate (bmp_row_padded width - bmp_row_bytes width) 0)"

definition encode_bmp :: "bytes \<Rightarrow> nat \<Rightarrow> nat \<Rightarrow> bytes" where
  "encode_bmp rgb width height =
     bmp_header width height @ concat (map (bmp_row rgb width) (rev [0..<height]))"

section \<open>The conversion\<close>

datatype opj_codec = OPJ_CODEC_JP2 | OPJ_CODEC_J2K

record opj_comp =
  cw :: nat
  ch :: nat
  cdx :: nat
  cdy :: nat
  cprec :: nat
  csgnd :: bool
  cdata :: "int list option"

text \<open>
  The decoder parameter stands for creating the stream and codec, reading the header and
  decoding; \<open>None\<close> is a failure of any of them.
\<close>

type_synonym opj_decoder = "opj_codec \<Rightarrow> bytes \<Rightarrow> opj_comp list option"

definition jp2_box_magic :: bytes where
  "jp2_box_magic = [0x00, 0x00, 0x00, 0x0C, 0x6A, 0x50, 0x20, 0x20, 0x0D, 0x0A, 0x87, 0x0A]"

text \<open>One 8-bit sample of a component: \<open>None\<close> outside its data or for an undefined scaling.\<close>

definition comp_sample :: "opj_comp \<Rightarrow> nat \<Rightarrow> byte option" where
  "comp_sample c i =
     (case cdata c of
        None \<Rightarrow> None
      | Some d \<Rightarrow> if i < length d then clamp_sample (d ! i) (cprec c) (csgnd c) else None)"

fun all_some :: "'a option list \<Rightarrow> 'a list option" where
  "all_some [] = Some []"
| "all_some (None # xs) = None"
| "all_some (Some x # xs) = map_option ((#) x) (all_some xs)"

definition comp_pixel :: "opj_comp list \<Rightarrow> nat \<Rightarrow> bytes option" where
  "comp_pixel comps i =
     (if 3 \<le> length comps
      then all_some [comp_sample (comps ! 0) i, comp_sample (comps ! 1) i, comp_sample (comps ! 2) i]
      else map_option (\<lambda>r. [r, r, r]) (comp_sample (comps ! 0) i))"

definition photo_jp2_to_bmp :: "opj_decoder \<Rightarrow> bytes \<Rightarrow> bytes outcome" where
  "photo_jp2_to_bmp opj jp2 =
     (let is_jp2_box = length jp2 \<ge> length jp2_box_magic \<and> take (length jp2_box_magic) jp2 = jp2_box_magic in
      case opj (if is_jp2_box then OPJ_CODEC_JP2 else OPJ_CODEC_J2K) jp2 of
        None \<Rightarrow> Malformed
      | Some comps \<Rightarrow>
          if length comps < 1 \<or> cdata (comps ! 0) = None then Malformed
          else (let width = cw (comps ! 0); height = ch (comps ! 0);
                    rgb_ok = list_all (\<lambda>c. cw c = width \<and> ch c = height \<and> cdx c = 1 \<and> cdy c = 1 \<and> cdata c \<noteq> None)
                               (take 3 comps) in
            if \<not> rgb_ok \<or> width = 0 \<or> height = 0 \<or> width * height > 16 * 1024 * 1024 then Malformed
            else (case all_some (map (comp_pixel comps) [0..<width * height]) of
              None \<Rightarrow> Undefined
            | Some pixels \<Rightarrow> Parsed (encode_bmp (concat pixels) width height))))"

section \<open>Facts\<close>

text \<open>The stream position stays inside the data; reads deliver bytes of it.\<close>

definition ms_ok :: "mem_stream \<Rightarrow> bool" where
  "ms_ok s \<longleftrightarrow> ms_pos s \<le> length (ms_data s) \<and> length (ms_data s) < 2 ^ 64"

lemma ms_avail_ok: "ms_ok s \<Longrightarrow> ms_avail s = length (ms_data s) - ms_pos s"
proof -
  assume ok: "ms_ok s"
  then have "length (ms_data s) + 2 ^ 64 - ms_pos s = (length (ms_data s) - ms_pos s) + 2 ^ 64"
    by (simp add: ms_ok_def)
  then have "ms_avail s = (length (ms_data s) - ms_pos s) mod 2 ^ 64"
    unfolding ms_avail_def by (simp only: mod_add_self2)
  also have "\<dots> = length (ms_data s) - ms_pos s"
    by (rule mod_less, rule le_less_trans [OF diff_le_self]) (use ok in \<open>simp add: ms_ok_def\<close>)
  finally show ?thesis .
qed

text \<open>
  Whatever OpenJPEG asks for, the stream never leaves the photo: every callback keeps the
  position inside the data, a read copies exactly the bytes from the position on (as many
  as asked for and available), and end of data is reported, not passed.
\<close>

theorem mem_stream_in_bounds:
  assumes ok: "ms_ok s"
  shows "(case mem_read n s of (s', bs, r) \<Rightarrow> ms_ok s' \<and> ms_data s' = ms_data s
      \<and> bs = take n (drop (ms_pos s) (ms_data s)) \<and> ms_pos s' = ms_pos s + length bs
      \<and> r = (if bs = [] then None else Some (length bs)))
    \<and> ms_ok (fst (mem_skip m s)) \<and> ms_ok (fst (mem_seek m s))
    \<and> (snd (mem_seek m s) \<longrightarrow> int (ms_pos (fst (mem_seek m s))) = m)"
  using ok by (auto simp: mem_read_def mem_skip_def mem_seek_def ms_avail_ok Let_def, auto simp: ms_ok_def)

theorem mem_stream_in_bounds_witness:
  "ms_ok (fst (mem_skip 100 \<lparr>ms_data = [1, 2, 3], ms_pos = 1\<rparr>))"
  using mem_stream_in_bounds [of "\<lparr>ms_data = [1, 2, 3], ms_pos = 1\<rparr>" 0 100] by (simp add: ms_ok_def)

text \<open>Within the size the converter allows nothing wraps.\<close>

lemma bmp_sizes:
  assumes "0 < h" and "0 < w" and "w * h \<le> 16777216"
  shows "bmp_row_bytes w = 3 * w" and "bmp_row_padded w = (3 * w + 3) div 4 * 4"
    and "bmp_pixel_data_len w h = (3 * w + 3) div 4 * 4 * h"
    and "54 + (3 * w + 3) div 4 * 4 * h < 2 ^ 32" and "3 * w \<le> (3 * w + 3) div 4 * 4"
proof -
  have w: "w \<le> 16777216"
    using assms(1,3) by (metis le_trans mult.commute mult_le_mono1 mult_1 Suc_leI One_nat_def)
  show b: "bmp_row_bytes w = 3 * w" using w by (simp add: bmp_row_bytes_def u32_def)
  show p: "bmp_row_padded w = (3 * w + 3) div 4 * 4" using w by (simp add: bmp_row_padded_def b u32_def)
  have "(3 * w + 3) div 4 * 4 \<le> 6 * w" using assms(2) by presburger
  then have "(3 * w + 3) div 4 * 4 * h \<le> 6 * (w * h)" by (metis mult.assoc mult_le_mono1)
  also have "\<dots> \<le> 6 * 16777216" using assms(3) by (rule mult_le_mono2)
  finally have big: "(3 * w + 3) div 4 * 4 * h \<le> 100663296" by simp
  then show "bmp_pixel_data_len w h = (3 * w + 3) div 4 * 4 * h" by (simp add: bmp_pixel_data_len_def p u32_def)
  show "54 + (3 * w + 3) div 4 * 4 * h < 2 ^ 32" using big by simp
  show "3 * w \<le> (3 * w + 3) div 4 * 4" by presburger
qed

lemma nth_concat_blocks:
  assumes "\<forall>r \<in> set rows. length r = n" and "i < length rows" and "j < n"
  shows "concat rows ! (i * n + j) = rows ! i ! j"
  using assms
proof (induction rows arbitrary: i)
  case (Cons r rows)
  then show ?case by (cases i) (auto simp: nth_append add.assoc)
qed simp

lemma length_concat_blocks: "\<forall>r \<in> set rows. length r = n \<Longrightarrow> length (concat rows) = length rows * n"
  by (induction rows) auto

lemma length_bmp_header [simp]: "length (bmp_header w h) = 54"
  by (simp add: bmp_header_def bmp_u32_def bmp_u16_def str_def)

lemma bmp_u32_read: "n < 2 ^ 32 \<Longrightarrow>
    unat (bmp_u32 n ! 0) + 256 * unat (bmp_u32 n ! 1) + 65536 * unat (bmp_u32 n ! 2) + 16777216 * unat (bmp_u32 n ! 3) = n"
proof -
  assume "n < 2 ^ 32"
  define q1 where "q1 = n div 256"
  define q2 where "q2 = q1 div 256"
  define q3 where "q3 = q2 div 256"
  have d: "n div 65536 = q2" "n div 16777216 = q3"
    by (simp_all add: q1_def q2_def q3_def div_mult2_eq [symmetric])
  have "q3 < 256" using \<open>n < 2 ^ 32\<close> by (simp add: q1_def q2_def q3_def div_mult2_eq [symmetric] less_mult_imp_div_less)
  then have "q3 mod 256 = q3" by simp
  then show ?thesis
    using mult_div_mod_eq [of 256 n] mult_div_mod_eq [of 256 q1] mult_div_mod_eq [of 256 q2]
    unfolding bmp_u32_def d by (simp add: unat_byte_of q1_def [symmetric] q2_def [symmetric] q3_def [symmetric] d)
qed

lemma length_bmp_row:
  assumes "0 < h" and "0 < w" and "w * h \<le> 16777216"
  shows "length (bmp_row rgb w y) = (3 * w + 3) div 4 * 4"
proof -
  have "length (concat (map (\<lambda>x. [f x, g x, k x]) [0..<w])) = w * 3" for f g k :: "nat \<Rightarrow> byte"
    by (subst length_concat_blocks [where n = 3]) auto
  then show ?thesis
    using bmp_sizes [OF assms] by (simp add: bmp_row_def Let_def)
qed

text \<open>
  For every image the converter accepts the BMP is as long as its header declares, and the
  pixel in column \<open>x\<close> of row \<open>y\<close> is stored bottom-up, in BGR order, at the place the
  format prescribes.
\<close>

theorem bmp_layout:
  assumes "0 < h" and "0 < w" and "w * h \<le> 16 * 1024 * 1024" and x: "x < w" and y: "y < h" and c: "c < 3"
  shows "length (encode_bmp rgb w h) =
      unat (encode_bmp rgb w h ! 2) + 256 * unat (encode_bmp rgb w h ! 3) + 65536 * unat (encode_bmp rgb w h ! 4)
      + 16777216 * unat (encode_bmp rgb w h ! 5)
    \<and> encode_bmp rgb w h ! (54 + ((h - 1 - y) * ((3 * w + 3) div 4 * 4) + (x * 3 + c))) = rgb ! (y * (3 * w) + (x * 3 + (2 - c)))"
proof -
  have size: "0 < h" "0 < w" "w * h \<le> 16777216" using assms(1-3) by simp_all
  note bs = bmp_sizes [OF size]
  let ?P = "(3 * w + 3) div 4 * 4"
  let ?rows = "map (bmp_row rgb w) (rev [0..<h])"
  have rows: "\<forall>r \<in> set ?rows. length r = ?P" using length_bmp_row [OF size] by auto
  have len: "length (encode_bmp rgb w h) = 54 + ?P * h"
    using length_concat_blocks [OF rows] by (simp add: encode_bmp_def)
  have hdr: "encode_bmp rgb w h ! (2 + i) = bmp_u32 (54 + ?P * h) ! i" if "i < 4" for i
  proof -
    have u: "u32 (54 + bmp_pixel_data_len w h) = 54 + ?P * h" using bs(3,4) by (simp add: u32_def)
    have b: "length (bmp_u32 n) = 4" for n by (simp add: bmp_u32_def)
    have bm: "str ''BM'' = [0x42, 0x4D]" by (simp add: str_def of_char_def)
    show ?thesis using that by (simp add: encode_bmp_def bmp_header_def bm u nth_append b)
  qed
  have pos: "concat ?rows ! ((h - 1 - y) * ?P + (x * 3 + c)) = ?rows ! (h - 1 - y) ! (x * 3 + c)"
    using rows y x c bs(5) by (intro nth_concat_blocks) auto
  have row: "?rows ! (h - 1 - y) = bmp_row rgb w y" using y by (simp add: rev_nth)
  have "bmp_row rgb w y ! (x * 3 + c) = rgb ! (y * (3 * w) + (x * 3 + (2 - c)))"
  proof -
    let ?f = "\<lambda>x. [rgb ! (y * (3 * w) + (x * 3 + 2)), rgb ! (y * (3 * w) + (x * 3 + 1)), rgb ! (y * (3 * w) + (x * 3 + 0))]"
    have "length (concat (map ?f [0..<w])) = w * 3" by (subst length_concat_blocks [where n = 3]) auto
    moreover have "concat (map ?f [0..<w]) ! (x * 3 + c) = ?f x ! c"
      using x c nth_concat_blocks [of "map ?f [0..<w]" 3 x c] by simp
    moreover have "?f x ! c = rgb ! (y * (3 * w) + (x * 3 + (2 - c)))"
      using c by (cases c) (auto simp: less_Suc_eq numeral_3_eq_3 nth_Cons split: nat.splits)
    moreover have "x * 3 + c < w * 3" using x c by linarith
    ultimately show ?thesis by (simp only: bmp_row_def bs(1) Let_def nth_append if_True)
  qed
  moreover have "encode_bmp rgb w h ! (54 + k) = concat ?rows ! k" for k
    by (simp add: encode_bmp_def nth_append)
  ultimately show ?thesis
    using hdr [of 0] hdr [of 1] hdr [of 2] hdr [of 3] bmp_u32_read [OF bs(4)] len pos row by simp
qed

theorem bmp_layout_witness:
  "encode_bmp [1, 2, 3, 4, 5, 6, 7, 8, 9, 10, 11, 12] 2 2 ! 54 = 9"
  using bmp_layout [of 2 2 0 1 0 "[1, 2, 3, 4, 5, 6, 7, 8, 9, 10, 11, 12]"] by simp

text \<open>What OpenJPEG documents of a decoded component: a sample per pixel, of the declared precision.\<close>

definition comp_ok :: "opj_comp \<Rightarrow> bool" where
  "comp_ok c \<longleftrightarrow> 1 \<le> cprec c \<and> cprec c \<le> 30 \<and>
     (case cdata c of None \<Rightarrow> True | Some d \<Rightarrow> length d = cw c * ch c \<and> (\<forall>v \<in> set d. v < 2 ^ 30))"

lemma clamp_sample_defined: "1 \<le> p \<Longrightarrow> p \<le> 30 \<Longrightarrow> v < 2 ^ 30 \<Longrightarrow> \<exists>b. clamp_sample v p sg = Some b"
proof -
  assume p: "1 \<le> p" "p \<le> 30" and v: "v < 2 ^ 30"
  have "(2 :: int) ^ (p - 1) \<le> 2 ^ 29" using p by (intro power_increasing) auto
  with v have "v + 2 ^ (p - 1) < 2 ^ 31" by simp
  with p show ?thesis by (auto simp: clamp_sample_def Let_def)
qed

lemma all_some_defined: "\<forall>x \<in> set xs. x \<noteq> None \<Longrightarrow> \<exists>ys. all_some xs = Some ys \<and> map Some ys = xs"
  by (induction xs rule: all_some.induct) auto

lemma comp_sample_defined:
  assumes "comp_ok c" and "cdata c \<noteq> None" and "i < cw c * ch c"
  shows "comp_sample c i \<noteq> None"
proof -
  obtain d where d: "cdata c = Some d" using assms(2) by auto
  then have "d ! i < 2 ^ 30" "i < length d" using assms(1,3) by (auto simp: comp_ok_def)
  then show ?thesis
    using clamp_sample_defined [of "cprec c" "d ! i" "csgnd c"] assms(1) d by (auto simp: comp_sample_def comp_ok_def)
qed

text \<open>
  For components as OpenJPEG documents them the conversion never reads outside a component and
  never shifts out of range: it delivers a BMP or declines.
\<close>

theorem jp2_conversion_defined:
  assumes "\<And>codec comps. opj codec jp2 = Some comps \<Longrightarrow> list_all comp_ok comps"
  shows "photo_jp2_to_bmp opj jp2 \<noteq> Undefined"
proof -
  have "all_some (map (comp_pixel comps) [0..<w * h]) \<noteq> None"
    if comps: "list_all comp_ok comps" "comps \<noteq> []"
      and rgb: "list_all (\<lambda>c. cw c = w \<and> ch c = h \<and> cdx c = 1 \<and> cdy c = 1 \<and> cdata c \<noteq> None) (take 3 comps)"
    for comps w h
  proof -
    have sample: "comp_sample (comps ! k) i \<noteq> None" if "k < 3" "k < length comps" "i < w * h" for k i
    proof -
      have "comps ! k \<in> set (take 3 comps)" using that(1,2) by (auto simp: in_set_conv_nth intro!: exI [of _ k])
      then show ?thesis
        using comps(1) rgb that by (intro comp_sample_defined) (auto simp: list_all_iff)
    qed
    have "comp_pixel comps i \<noteq> None" if "i < w * h" for i
    proof (cases "3 \<le> length comps")
      case True
      then have "\<forall>x \<in> set [comp_sample (comps ! 0) i, comp_sample (comps ! 1) i, comp_sample (comps ! 2) i]. x \<noteq> None"
        using sample [of 0 i] sample [of 1 i] sample [of 2 i] that comps(2) by simp
      from all_some_defined [OF this] True show ?thesis by (auto simp: comp_pixel_def)
    next
      case False
      then show ?thesis using sample [of 0 i] comps(2) that by (auto simp: comp_pixel_def)
    qed
    then have "\<forall>x \<in> set (map (comp_pixel comps) [0..<w * h]). x \<noteq> None" by auto
    from all_some_defined [OF this] show ?thesis by auto
  qed
  then show ?thesis
    using assms by (fastforce simp: photo_jp2_to_bmp_def Let_def split: option.splits if_splits)
qed

theorem jp2_conversion_defined_witness:
  "photo_jp2_to_bmp (\<lambda>codec bs. Some [\<lparr>cw = 1, ch = 1, cdx = 1, cdy = 1, cprec = 8, csgnd = False, cdata = Some [200]\<rparr>]) []
     \<noteq> Undefined"
  by (rule jp2_conversion_defined) (auto simp: comp_ok_def)

end
