(* ===== verification/Passport.thy ===== *)
theory Passport
  imports Pace_Exchange Photo
begin

text \<open>
  The passport reading state machine of \<open>nfcd_client.c\<close>: one definition per
  \<open>*_ready\<close> callback.  The stage says which D-Bus call is outstanding; an event is the
  result of that call together with what the random generator delivers should the handler
  ask for it; the outputs are the D-Bus calls and callbacks the handler makes, in order.
  \<open>P_Wild\<close> is reached when C leaves the behaviour undefined (a read outside a buffer).
\<close>

section \<open>State, events and effects\<close>

datatype passport_stage =
    P_Proxy | P_Acquire
  | P_SelectAid | P_GetChallenge | P_MutualAuth
  | P_SelectCardAccess | P_CardAccess | P_MseSetAt | P_GetNonce | P_MapNonce
  | P_KeyAgreement | P_PaceMutualAuth | P_PaceSelectAid
  | P_SelectDg1 | P_Dg1 | P_SelectDg2 | P_Dg2
  | P_Done | P_Wild

text \<open>\<open>PassportResult\<close>: pointers that may be NULL are options.\<close>

record passport_result =
  mrz_text :: bytes
  mrz_parsed :: "mrz_fields option"
  photo :: "(bytes \<times> string) option"

datatype passport_out =
    OutAcquire
  | OutTransceive bytes
  | OutRelease
  | OutClearSlot
  | OutReply bool "string option" "passport_result option"

record 'g passport_read =
  pr_stage :: passport_stage
  attached :: bool
  has_tag :: bool
  acquired :: bool
  use_pace :: bool
  pr_keys :: bac_static_keys
  pr_challenge :: bac_challenge
  pr_session :: bac_session
  pr_rnd_icc :: bytes
  pace_k :: "bytes option"
  card_access :: bytes
  card_access_total_len :: nat
  pace_selected_oid :: bytes
  pace :: "'g pace_exchange option"
  pr_pace_session :: pace_session
  dg1 :: bytes
  dg1_total_len :: nat
  mrz :: bytes
  read_photo :: bool
  dg2 :: "bytes option"
  dg2_total_len :: nat

record passport_event =
  result :: "bytes option"
  rand8 :: "bytes option"
  rand16 :: "bytes option"
  scalar :: "nat option"

text \<open>The libraries and the width of \<open>gsize\<close>.\<close>

record ('g, 'p) crypto_env =
  e_ossl :: openssl
  e_ec :: "('g, 'p) ec_lib"
  e_opj :: opj_decoder
  e_width :: nat

type_synonym 'g passport_step = "'g passport_read \<times> passport_out list"

definition passport_wild :: "'g passport_read \<Rightarrow> 'g passport_step" where
  "passport_wild read = (read\<lparr>pr_stage := P_Wild\<rparr>, [])"

definition passport_read_finish ::
    "'g passport_read \<Rightarrow> bool \<Rightarrow> string option \<Rightarrow> passport_result option \<Rightarrow> 'g passport_step" where
  "passport_read_finish read success error_text res =
     (read\<lparr>pr_stage := P_Done\<rparr>,
      (if attached read then [OutClearSlot] else [])
      @ (if acquired read \<and> has_tag read then [OutRelease] else [])
      @ [OutReply success error_text res])"

abbreviation passport_fail :: "'g passport_read \<Rightarrow> string \<Rightarrow> 'g passport_step" where
  "passport_fail read msg \<equiv> passport_read_finish read False (Some msg) None"

definition passport_build_result_and_finish :: "('g, 'p) crypto_env \<Rightarrow> 'g passport_read \<Rightarrow> 'g passport_step" where
  "passport_build_result_and_finish env read =
     (let fields = bac_parse_mrz_fields (Some (mrz read));
          found = (case dg2 read of None \<Rightarrow> None | Some d \<Rightarrow> bac_extract_dg2_photo d);
          deliver = (\<lambda>ph. passport_read_finish read True None
            (Some \<lparr>mrz_text = mrz read, mrz_parsed = fields, photo = ph\<rparr>)) in
      case found of
        None \<Rightarrow> deliver None
      | Some (bytes, format) \<Rightarrow>
          if format = ''jpeg2000'' then
            (case photo_jp2_to_bmp (e_opj env) bytes of
               Undefined \<Rightarrow> passport_wild read
             | Malformed \<Rightarrow> deliver (Some (bytes, format))
             | Parsed bmp \<Rightarrow> deliver (Some (bmp, ''bmp'')))
          else deliver (Some (bytes, format)))"

definition passport_read_abort :: "'g passport_read \<Rightarrow> 'g passport_read" where
  "passport_read_abort read = read\<lparr>attached := False\<rparr>"

text \<open>Result: the data part, or \<open>None\<close> unless exactly that many bytes and 9000 came.\<close>

definition passport_raw_response_ok :: "bytes \<Rightarrow> nat \<Rightarrow> bytes option" where
  "passport_raw_response_ok resp expect_data_len =
     (if length resp \<noteq> expect_data_len + 2 then None
      else if resp ! (length resp - 2) \<noteq> 0x90 \<or> resp ! (length resp - 1) \<noteq> 0x00 then None
      else Some (take expect_data_len resp))"

definition passport_transceive :: "'g passport_read \<Rightarrow> bytes \<Rightarrow> passport_stage \<Rightarrow> 'g passport_step" where
  "passport_transceive read apdu callback = (read\<lparr>pr_stage := callback\<rparr>, [OutTransceive apdu])"

section \<open>Acquiring the tag\<close>

definition ef_cardaccess_fid :: bytes where
  "ef_cardaccess_fid = [0x01, 0x1C]"

definition passport_tag_proxy_ready :: "'g passport_read \<Rightarrow> passport_event \<Rightarrow> 'g passport_step" where
  "passport_tag_proxy_ready read ev =
     (case result ev of
        None \<Rightarrow> passport_fail read ''Failed to reach the tag''
      | Some _ \<Rightarrow> (read\<lparr>has_tag := True, pr_stage := P_Acquire\<rparr>, [OutAcquire]))"

definition passport_acquire_ready :: "'g passport_read \<Rightarrow> passport_event \<Rightarrow> 'g passport_step" where
  "passport_acquire_ready read ev =
     (case result ev of
        None \<Rightarrow> passport_fail read ''Failed to acquire the tag''
      | Some _ \<Rightarrow>
          (let read' = read\<lparr>acquired := True\<rparr> in
           if use_pace read'
           then passport_transceive read' ([0x00, 0xA4, 0x02, 0x0C, byte_of (length ef_cardaccess_fid)] @ ef_cardaccess_fid)
                  P_SelectCardAccess
           else passport_transceive read' bac_build_select_aid P_SelectAid))"

section \<open>BAC\<close>

definition passport_select_aid_ready :: "'g passport_read \<Rightarrow> passport_event \<Rightarrow> 'g passport_step" where
  "passport_select_aid_ready read ev =
     (case result ev of
        None \<Rightarrow> passport_fail read ''Failed to reach the tag''
      | Some resp \<Rightarrow>
          (case passport_raw_response_ok resp 0 of
             None \<Rightarrow> passport_fail read ''Not an ICAO 9303 document (eMRTD application not found)''
           | Some _ \<Rightarrow> passport_transceive read bac_build_get_challenge P_GetChallenge))"

definition passport_get_challenge_ready ::
    "('g, 'p) crypto_env \<Rightarrow> 'g passport_read \<Rightarrow> passport_event \<Rightarrow> 'g passport_step" where
  "passport_get_challenge_ready env read ev =
     (case result ev of
        None \<Rightarrow> passport_fail read ''Failed to reach the tag''
      | Some resp \<Rightarrow>
          (case passport_raw_response_ok resp 8 of
             None \<Rightarrow> passport_fail read ''GET CHALLENGE failed''
           | Some data \<Rightarrow>
               (let read' = read\<lparr>pr_rnd_icc := data\<rparr> in
                case bac_build_mutual_authenticate (e_ossl env) (pr_keys read') data (rand8 ev) (rand16 ev) of
                  None \<Rightarrow> passport_fail read' ''Failed to generate a random challenge''
                | Some (apdu, chal) \<Rightarrow> passport_transceive (read'\<lparr>pr_challenge := chal\<rparr>) apdu P_MutualAuth)))"

text \<open>\<open>read->use_pace ? pace_sm_protect (...) : bac_sm_protect (...)\<close>.\<close>

definition passport_sm_protect ::
    "('g, 'p) crypto_env \<Rightarrow> 'g passport_read \<Rightarrow> byte \<Rightarrow> byte \<Rightarrow> byte \<Rightarrow> byte \<Rightarrow> bytes \<Rightarrow> int \<Rightarrow> 'g passport_read \<times> bytes option" where
  "passport_sm_protect env read cla ins p1 p2 data le =
     (if use_pace read then
        (let (s, apdu) = pace_sm_protect (e_ossl env) (pr_pace_session read) cla ins p1 p2 data le in
         (read\<lparr>pr_pace_session := s\<rparr>, apdu))
      else
        (let (s, apdu) = bac_sm_protect (e_ossl env) (pr_session read) cla ins p1 p2 data le in
         (read\<lparr>pr_session := s\<rparr>, apdu)))"

abbreviation sm_build_failed :: string where
  "sm_build_failed \<equiv> ''Failed to build the secure messaging command''"

definition passport_mutual_auth_ready ::
    "('g, 'p) crypto_env \<Rightarrow> 'g passport_read \<Rightarrow> passport_event \<Rightarrow> 'g passport_step" where
  "passport_mutual_auth_ready env read ev =
     (case result ev of
        None \<Rightarrow> passport_fail read ''Failed to reach the tag''
      | Some resp \<Rightarrow>
          (case passport_raw_response_ok resp 40 of
             None \<Rightarrow> passport_fail read (''BAC authentication rejected - check the document number, date ''
                @ ''of birth and date of expiry, or this document may need PACE '' @ ''instead of BAC'')
           | Some data \<Rightarrow>
               (case bac_process_mutual_authenticate_response (e_ossl env) (pr_keys read) (pr_challenge read)
                       (pr_rnd_icc read) data of
                  None \<Rightarrow> passport_fail read ''BAC authentication response could not be verified''
                | Some s \<Rightarrow>
                    (case bac_sm_protect (e_ossl env) s 0x00 0xA4 0x02 0x0C [0x01, 0x01] (- 1) of
                       (s', None) \<Rightarrow> passport_fail (read\<lparr>pr_session := s'\<rparr>) sm_build_failed
                     | (s', Some apdu) \<Rightarrow> passport_transceive (read\<lparr>pr_session := s'\<rparr>) apdu P_SelectDg1))))"

section \<open>PACE\<close>

definition passport_select_ef_cardaccess_ready :: "'g passport_read \<Rightarrow> passport_event \<Rightarrow> 'g passport_step" where
  "passport_select_ef_cardaccess_ready read ev =
     (case result ev of
        None \<Rightarrow> passport_fail read ''Failed to reach the tag''
      | Some resp \<Rightarrow>
          (case passport_raw_response_ok resp 0 of
             None \<Rightarrow> passport_fail read (''Could not select EF.CardAccess - this document doesn't ''
                @ ''expose its PACE parameters where expected'')
           | Some _ \<Rightarrow> passport_transceive (read\<lparr>card_access := []\<rparr>) [0x00, 0xB0, 0x00, 0x00, 0x00] P_CardAccess))"

text \<open>Decimal and hexadecimal rendering for the diagnostic of an unsupported document.\<close>

fun dec_digits :: "nat \<Rightarrow> string" where
  "dec_digits n = (if n < 10 then [char_of (48 + n)] else dec_digits (n div 10) @ [char_of (48 + n mod 10)])"

declare dec_digits.simps [simp del]

definition upper_hex :: "nat \<Rightarrow> char" where
  "upper_hex n = (''0123456789ABCDEF'' ! (n mod 16))"

definition oid_hex :: "bytes \<Rightarrow> string" where
  "oid_hex bs = concat (map (\<lambda>b. [upper_hex (unat b div 16), upper_hex (unat b mod 16)]) bs)"

definition describe_entry :: "pace_info_entry \<Rightarrow> string" where
  "describe_entry e = ''protocol='' @ oid_hex (e_oid e)
     @ (if e_parameter_id e \<ge> 0 then '' parameterId='' @ dec_digits (nat (e_parameter_id e)) else [])"

fun join_with :: "string \<Rightarrow> string list \<Rightarrow> string" where
  "join_with sep [] = []"
| "join_with sep [x] = x"
| "join_with sep (x # xs) = x @ sep @ join_with sep xs"

text \<open>The first entry this build supports, or the error text; \<open>Undefined\<close> from the parser.\<close>

definition passport_pick_pace_entry ::
    "('g, 'p) crypto_env \<Rightarrow> 'g passport_read \<Rightarrow> (string + 'g passport_read) outcome" where
  "passport_pick_pace_entry env read =
     (case pace_parse_card_access (card_access read) (length (card_access read)) 8 of
        Undefined \<Rightarrow> Undefined
      | Malformed \<Rightarrow> Malformed
      | Parsed entries \<Rightarrow>
          (case List.find (\<lambda>e. pace_oid_supported (e_oid e)
                  \<and> pace_ec_curve_for_parameter_id (e_parameter_id e) \<noteq> NID_undef) entries of
             Some e \<Rightarrow>
               (case pace_k read of
                  None \<Rightarrow> Undefined
                | Some k \<Rightarrow>
                    (case pace_exchange_new (e_ossl env) (e_ec env) k
                            (pace_ec_curve_for_parameter_id (e_parameter_id e)) (e_oid e) of
                       None \<Rightarrow> Parsed (Inl ''Failed to set up the PACE exchange'')
                     | Some p \<Rightarrow> Parsed (Inr (read\<lparr>pace := Some p, pace_k := None, pace_selected_oid := e_oid e\<rparr>))))
           | None \<Rightarrow>
               if entries = [] then
                 Parsed (Inl (''This document's EF.CardAccess didn't list any PACE '' @
                   ''support (SecurityInfos empty or unparseable)''))
               else Parsed (Inl (''This document's PACEInfo doesn't match anything this build '' @
                   ''supports (only ECDH-GM-AES-128/256 on NIST P-256, '' @
                   ''brainpoolP256r1 or brainpoolP320r1 - see pace.h). Found: '' @
                   join_with ''; '' (map describe_entry entries)))))"

definition EF_CARDACCESS_MAX_LEN :: nat where
  "EF_CARDACCESS_MAX_LEN = 2048"

text \<open>The second half of the handler, once a chunk is appended and the total length is known.\<close>

definition cardaccess_next :: "('g, 'p) crypto_env \<Rightarrow> 'g passport_read \<Rightarrow> 'g passport_step" where
  "cardaccess_next env read =
     (if length (card_access read) < card_access_total_len read then
        (let offset = length (card_access read);
             remaining = card_access_total_len read - length (card_access read) in
         passport_transceive read
           [0x00, 0xB0, byte_of (offset div 256), byte_of (offset mod 256), byte_of (min remaining 255)] P_CardAccess)
      else
        (case passport_pick_pace_entry env read of
           Undefined \<Rightarrow> passport_wild read
         | Malformed \<Rightarrow> passport_wild read
         | Parsed (Inl err) \<Rightarrow> passport_fail read err
         | Parsed (Inr read') \<Rightarrow>
             passport_transceive read' (pace_build_mse_set_at (pace_selected_oid read') True) P_MseSetAt))"

definition passport_ef_cardaccess_rest_ready ::
    "('g, 'p) crypto_env \<Rightarrow> 'g passport_read \<Rightarrow> passport_event \<Rightarrow> 'g passport_step" where
  "passport_ef_cardaccess_rest_ready env read ev =
     (case result ev of
        None \<Rightarrow> passport_fail read ''Failed to reach the tag''
      | Some resp \<Rightarrow>
          (let len = length resp;
               sw_ok = (len \<ge> 2 \<and> resp ! (len - 2) = 0x90 \<and> resp ! (len - 1) = 0x00) in
           if \<not> sw_ok \<or> len < 3 then passport_fail read ''Failed to read EF.CardAccess''
           else let read' = read\<lparr>card_access := card_access read @ take (len - 2) resp\<rparr> in
             if card_access_total_len read' = 0 then
               (case bac_ber_tlv_header (card_access read') 0 (length (card_access read')) of
                  Undefined \<Rightarrow> passport_wild read'
                | Malformed \<Rightarrow> passport_fail read' ''EF.CardAccess has an unexpected structure''
                | Parsed (header_len, content_len) \<Rightarrow>
                    if header_len + content_len > EF_CARDACCESS_MAX_LEN
                    then passport_fail read' ''EF.CardAccess has an unexpected structure''
                    else cardaccess_next env (read'\<lparr>card_access_total_len := header_len + content_len\<rparr>))
             else cardaccess_next env read'))"

definition pace_mse_set_at_ready :: "'g passport_read \<Rightarrow> passport_event \<Rightarrow> 'g passport_step" where
  "pace_mse_set_at_ready read ev =
     (case result ev of
        None \<Rightarrow> passport_fail read ''Failed to reach the tag''
      | Some resp \<Rightarrow>
          (case passport_raw_response_ok resp 0 of
             None \<Rightarrow> passport_fail read (''MSE:Set AT was rejected even with this document's own ''
                @ ''advertised PACE parameters'')
           | Some _ \<Rightarrow> passport_transceive read pace_build_get_nonce P_GetNonce))"

text \<open>The rounds; a step on a missing exchange object would dereference NULL.\<close>

definition pace_get_nonce_ready ::
    "('g, 'p) crypto_env \<Rightarrow> 'g passport_read \<Rightarrow> passport_event \<Rightarrow> 'g passport_step" where
  "pace_get_nonce_ready env read ev =
     (case result ev of
        None \<Rightarrow> passport_fail read ''Failed to reach the tag''
      | Some resp \<Rightarrow>
          (case pace read of None \<Rightarrow> passport_wild read | Some p \<Rightarrow>
            (case pace_process_nonce_response (e_ossl env) p resp of
               Undefined \<Rightarrow> passport_wild read
             | Malformed \<Rightarrow> passport_fail read ''Failed to decrypt PACE's nonce - the CAN is probably wrong''
             | Parsed p1 \<Rightarrow>
                 (case pace_build_map_nonce (e_ec env) p1 (scalar ev) of
                    None \<Rightarrow> passport_fail (read\<lparr>pace := Some p1\<rparr>) ''Failed to generate a mapping key''
                  | Some (p2, apdu) \<Rightarrow> passport_transceive (read\<lparr>pace := Some p2\<rparr>) apdu P_MapNonce))))"

definition pace_map_nonce_ready ::
    "('g, 'p) crypto_env \<Rightarrow> 'g passport_read \<Rightarrow> passport_event \<Rightarrow> 'g passport_step" where
  "pace_map_nonce_ready env read ev =
     (case result ev of
        None \<Rightarrow> passport_fail read ''Failed to reach the tag''
      | Some resp \<Rightarrow>
          (case pace read of None \<Rightarrow> passport_wild read | Some p \<Rightarrow>
            (case pace_process_map_nonce_response (e_ec env) p resp of
               Undefined \<Rightarrow> passport_wild read
             | Malformed \<Rightarrow> passport_fail read ''Failed to map PACE's nonce''
             | Parsed p1 \<Rightarrow>
                 (case pace_build_key_agreement (e_ec env) p1 (scalar ev) of
                    Undefined \<Rightarrow> passport_wild read
                  | Malformed \<Rightarrow> passport_fail (read\<lparr>pace := Some p1\<rparr>) ''Failed to generate a key-agreement key''
                  | Parsed (p2, apdu) \<Rightarrow> passport_transceive (read\<lparr>pace := Some p2\<rparr>) apdu P_KeyAgreement))))"

definition pace_key_agreement_ready ::
    "('g, 'p) crypto_env \<Rightarrow> 'g passport_read \<Rightarrow> passport_event \<Rightarrow> 'g passport_step" where
  "pace_key_agreement_ready env read ev =
     (case result ev of
        None \<Rightarrow> passport_fail read ''Failed to reach the tag''
      | Some resp \<Rightarrow>
          (case pace read of None \<Rightarrow> passport_wild read | Some p \<Rightarrow>
            (case pace_process_key_agreement_response (e_ossl env) (e_ec env) p resp of
               Undefined \<Rightarrow> passport_wild read
             | Malformed \<Rightarrow> passport_fail read ''PACE key agreement failed''
             | Parsed (p1, s) \<Rightarrow>
                 (let read' = read\<lparr>pace := Some p1, pr_pace_session := s\<rparr> in
                  case pace_build_mutual_auth (e_ossl env) p1 of
                    None \<Rightarrow> passport_fail read' (''Failed to build the PACE authentication '' @ ''token'')
                  | Some apdu \<Rightarrow> passport_transceive read' apdu P_PaceMutualAuth))))"

definition pace_mutual_auth_ready ::
    "('g, 'p) crypto_env \<Rightarrow> 'g passport_read \<Rightarrow> passport_event \<Rightarrow> 'g passport_step" where
  "pace_mutual_auth_ready env read ev =
     (case result ev of
        None \<Rightarrow> passport_fail read ''Failed to reach the tag''
      | Some resp \<Rightarrow>
          (case pace read of None \<Rightarrow> passport_wild read | Some p \<Rightarrow>
            (case pace_verify_mutual_auth_response (e_ossl env) p resp of
               Undefined \<Rightarrow> passport_wild read
             | Malformed \<Rightarrow> passport_wild read
             | Parsed auth_ok \<Rightarrow>
                 if \<not> auth_ok then passport_fail read ''PACE authentication rejected - check the CAN''
                 else
                   (case pace_sm_protect (e_ossl env) (pr_pace_session read) 0x00 0xA4 0x04 0x0C emrtd_aid (- 1) of
                      (s, None) \<Rightarrow> passport_fail (read\<lparr>pace := None, pr_pace_session := s\<rparr>) sm_build_failed
                    | (s, Some apdu) \<Rightarrow>
                        passport_transceive (read\<lparr>pace := None, pr_pace_session := s\<rparr>) apdu P_PaceSelectAid))))"

definition pace_select_aid_ready ::
    "('g, 'p) crypto_env \<Rightarrow> 'g passport_read \<Rightarrow> passport_event \<Rightarrow> 'g passport_step" where
  "pace_select_aid_ready env read ev =
     (case result ev of
        None \<Rightarrow> passport_fail read ''Failed to reach the tag''
      | Some resp \<Rightarrow>
          (case pace_sm_unprotect (e_ossl env) (pr_pace_session read) resp of
             (s, SM_OutOfBounds) \<Rightarrow> passport_wild (read\<lparr>pr_pace_session := s\<rparr>)
           | (s, SM_Rejected) \<Rightarrow> passport_fail (read\<lparr>pr_pace_session := s\<rparr>)
               ''Failed to select the eMRTD application under secure messaging''
           | (s, SM_Accepted p sw) \<Rightarrow>
               if sw \<noteq> 0x9000 then passport_fail (read\<lparr>pr_pace_session := s\<rparr>)
                 ''Failed to select the eMRTD application under secure messaging''
               else
                 (case pace_sm_protect (e_ossl env) s 0x00 0xA4 0x02 0x0C [0x01, 0x01] (- 1) of
                    (s', None) \<Rightarrow> passport_fail (read\<lparr>pr_pace_session := s'\<rparr>) sm_build_failed
                  | (s', Some apdu) \<Rightarrow> passport_transceive (read\<lparr>pr_pace_session := s'\<rparr>) apdu P_SelectDg1)))"

section \<open>The data groups\<close>

datatype sm_reply = SmWild | SmError string | SmData "bytes option"

definition passport_sm_response_ok ::
    "('g, 'p) crypto_env \<Rightarrow> 'g passport_read \<Rightarrow> bytes \<Rightarrow> 'g passport_read \<times> sm_reply" where
  "passport_sm_response_ok env read response =
     (let (read', r) =
        (if use_pace read then
           (let (s, r) = pace_sm_unprotect (e_ossl env) (pr_pace_session read) response in
            (read\<lparr>pr_pace_session := s\<rparr>, r))
         else
           (let (s, r) = bac_sm_unprotect (e_ossl env) (pr_session read) response in
            (read\<lparr>pr_session := s\<rparr>, r))) in
      (read', case r of
         SM_OutOfBounds \<Rightarrow> SmWild
       | SM_Rejected \<Rightarrow> SmError ''Secure messaging integrity check failed''
       | SM_Accepted p sw \<Rightarrow>
           if sw \<noteq> 0x9000 then SmError ''The document rejected a secure messaging command'' else SmData p))"

definition passport_select_dg1_ready ::
    "('g, 'p) crypto_env \<Rightarrow> 'g passport_read \<Rightarrow> passport_event \<Rightarrow> 'g passport_step" where
  "passport_select_dg1_ready env read ev =
     (case result ev of
        None \<Rightarrow> passport_fail read ''Failed to reach the tag''
      | Some resp \<Rightarrow>
          (case passport_sm_response_ok env read resp of
             (read', SmWild) \<Rightarrow> passport_wild read'
           | (read', SmError e) \<Rightarrow> passport_fail read' e
           | (read', SmData p) \<Rightarrow>
               (case passport_sm_protect env (read'\<lparr>dg1 := []\<rparr>) 0x00 0xB0 0x00 0x00 [] 4 of
                  (read'', None) \<Rightarrow> passport_fail read'' sm_build_failed
                | (read'', Some apdu) \<Rightarrow> passport_transceive read'' apdu P_Dg1)))"

definition gsub :: "nat \<Rightarrow> nat \<Rightarrow> nat \<Rightarrow> nat" where
  "gsub w a b = nat ((int a - int b) mod 2 ^ w)"

definition passport_select_dg2_start :: "('g, 'p) crypto_env \<Rightarrow> 'g passport_read \<Rightarrow> 'g passport_step" where
  "passport_select_dg2_start env read =
     (case passport_sm_protect env read 0x00 0xA4 0x02 0x0C [0x01, 0x02] (- 1) of
        (read', None) \<Rightarrow> passport_build_result_and_finish env read'
      | (read', Some apdu) \<Rightarrow> passport_transceive read' apdu P_SelectDg2)"

definition passport_dg1_read_more :: "('g, 'p) crypto_env \<Rightarrow> 'g passport_read \<Rightarrow> 'g passport_step" where
  "passport_dg1_read_more env read =
     (let remaining = gsub (e_width env) (dg1_total_len read) (length (dg1 read)) in
      if remaining = 0 then
        (case bac_parse_dg1_mrz (dg1 read) of
           Undefined \<Rightarrow> passport_wild read
         | Malformed \<Rightarrow> passport_fail read ''Could not parse the MRZ data group (EF.DG1)''
         | Parsed m \<Rightarrow>
             (let read' = read\<lparr>mrz := m\<rparr> in
              if read_photo read' then passport_select_dg2_start env read'
              else passport_build_result_and_finish env read'))
      else
        (let chunk = min remaining 255; offset = length (dg1 read) in
         case passport_sm_protect env read 0x00 0xB0 (byte_of (offset div 256)) (byte_of (offset mod 256)) [] (int chunk) of
           (read', None) \<Rightarrow> passport_fail read' sm_build_failed
         | (read', Some apdu) \<Rightarrow> passport_transceive read' apdu P_Dg1))"

definition PASSPORT_DG1_MAX_LEN :: nat where
  "PASSPORT_DG1_MAX_LEN = 2048"

definition passport_dg1_rest_ready ::
    "('g, 'p) crypto_env \<Rightarrow> 'g passport_read \<Rightarrow> passport_event \<Rightarrow> 'g passport_step" where
  "passport_dg1_rest_ready env read ev =
     (case result ev of
        None \<Rightarrow> passport_fail read ''Failed to reach the tag''
      | Some resp \<Rightarrow>
          (case passport_sm_response_ok env read resp of
             (read', SmWild) \<Rightarrow> passport_wild read'
           | (read', SmError e) \<Rightarrow> passport_fail read' e
           | (read', SmData None) \<Rightarrow> passport_fail read' ''Failed to read the MRZ data group (EF.DG1)''
           | (read', SmData (Some plaintext)) \<Rightarrow>
               (let read2 = read'\<lparr>dg1 := dg1 read' @ plaintext\<rparr> in
                if dg1_total_len read2 = 0 then
                  (case bac_ber_tlv_header (dg1 read2) 0 (length (dg1 read2)) of
                     Undefined \<Rightarrow> passport_wild read2
                   | Malformed \<Rightarrow> passport_fail read2 ''The MRZ data group (EF.DG1) has an unexpected structure''
                   | Parsed (header_len, content_len) \<Rightarrow>
                       if header_len + content_len > PASSPORT_DG1_MAX_LEN
                       then passport_fail read2 ''The MRZ data group (EF.DG1) has an unexpected structure''
                       else passport_dg1_read_more env (read2\<lparr>dg1_total_len := header_len + content_len\<rparr>))
                else passport_dg1_read_more env read2)))"

definition passport_select_dg2_ready ::
    "('g, 'p) crypto_env \<Rightarrow> 'g passport_read \<Rightarrow> passport_event \<Rightarrow> 'g passport_step" where
  "passport_select_dg2_ready env read ev =
     (case result ev of
        None \<Rightarrow> passport_build_result_and_finish env read
      | Some resp \<Rightarrow>
          (case passport_sm_response_ok env read resp of
             (read', SmWild) \<Rightarrow> passport_wild read'
           | (read', SmError e) \<Rightarrow> passport_build_result_and_finish env read'
           | (read', SmData p) \<Rightarrow>
               (case passport_sm_protect env (read'\<lparr>dg2 := Some []\<rparr>) 0x00 0xB0 0x00 0x00 [] 4 of
                  (read'', None) \<Rightarrow> passport_build_result_and_finish env read''
                | (read'', Some apdu) \<Rightarrow> passport_transceive read'' apdu P_Dg2)))"

definition passport_dg2_read_more :: "('g, 'p) crypto_env \<Rightarrow> 'g passport_read \<Rightarrow> 'g passport_step" where
  "passport_dg2_read_more env read =
     (let have_len = length (case dg2 read of None \<Rightarrow> [] | Some d \<Rightarrow> d);
          remaining = gsub (e_width env) (dg2_total_len read) have_len in
      if remaining = 0 then passport_build_result_and_finish env read
      else
        (let chunk = min remaining 255; offset = have_len in
         case passport_sm_protect env read 0x00 0xB0 (byte_of (offset div 256)) (byte_of (offset mod 256)) [] (int chunk) of
           (read', None) \<Rightarrow> passport_build_result_and_finish env read'
         | (read', Some apdu) \<Rightarrow> passport_transceive read' apdu P_Dg2))"

definition PASSPORT_DG2_MAX_LEN :: nat where
  "PASSPORT_DG2_MAX_LEN = 65536"

definition passport_dg2_rest_ready ::
    "('g, 'p) crypto_env \<Rightarrow> 'g passport_read \<Rightarrow> passport_event \<Rightarrow> 'g passport_step" where
  "passport_dg2_rest_ready env read ev =
     (case result ev of
        None \<Rightarrow> passport_build_result_and_finish env read
      | Some resp \<Rightarrow>
          (case passport_sm_response_ok env read resp of
             (read', SmWild) \<Rightarrow> passport_wild read'
           | (read', SmError e) \<Rightarrow> passport_build_result_and_finish env read'
           | (read', SmData None) \<Rightarrow> passport_build_result_and_finish env read'
           | (read', SmData (Some plaintext)) \<Rightarrow>
               (let d = (case dg2 read' of None \<Rightarrow> [] | Some d \<Rightarrow> d) @ plaintext;
                    read2 = read'\<lparr>dg2 := Some d\<rparr> in
                if dg2_total_len read2 = 0 then
                  (case bac_ber_tlv_header d 0 (length d) of
                     Undefined \<Rightarrow> passport_wild read2
                   | Malformed \<Rightarrow> passport_build_result_and_finish env read2
                   | Parsed (header_len, content_len) \<Rightarrow>
                       if header_len + content_len > PASSPORT_DG2_MAX_LEN
                       then passport_build_result_and_finish env read2
                       else passport_dg2_read_more env (read2\<lparr>dg2_total_len := header_len + content_len\<rparr>))
                else passport_dg2_read_more env read2)))"

section \<open>The machine\<close>

definition passport_step :: "('g, 'p) crypto_env \<Rightarrow> 'g passport_read \<Rightarrow> passport_event \<Rightarrow> 'g passport_step" where
  "passport_step env read ev =
     (case pr_stage read of
        P_Proxy \<Rightarrow> passport_tag_proxy_ready read ev
      | P_Acquire \<Rightarrow> passport_acquire_ready read ev
      | P_SelectAid \<Rightarrow> passport_select_aid_ready read ev
      | P_GetChallenge \<Rightarrow> passport_get_challenge_ready env read ev
      | P_MutualAuth \<Rightarrow> passport_mutual_auth_ready env read ev
      | P_SelectCardAccess \<Rightarrow> passport_select_ef_cardaccess_ready read ev
      | P_CardAccess \<Rightarrow> passport_ef_cardaccess_rest_ready env read ev
      | P_MseSetAt \<Rightarrow> pace_mse_set_at_ready read ev
      | P_GetNonce \<Rightarrow> pace_get_nonce_ready env read ev
      | P_MapNonce \<Rightarrow> pace_map_nonce_ready env read ev
      | P_KeyAgreement \<Rightarrow> pace_key_agreement_ready env read ev
      | P_PaceMutualAuth \<Rightarrow> pace_mutual_auth_ready env read ev
      | P_PaceSelectAid \<Rightarrow> pace_select_aid_ready env read ev
      | P_SelectDg1 \<Rightarrow> passport_select_dg1_ready env read ev
      | P_Dg1 \<Rightarrow> passport_dg1_rest_ready env read ev
      | P_SelectDg2 \<Rightarrow> passport_select_dg2_ready env read ev
      | P_Dg2 \<Rightarrow> passport_dg2_rest_ready env read ev
      | P_Done \<Rightarrow> (read, [])
      | P_Wild \<Rightarrow> (read, []))"

text \<open>
  The fresh structure (\<open>g_new0\<close>) of \<open>nfcd_client_read_passport\<close> and
  \<open>nfcd_client_read_passport_pace\<close> after \<open>passport_read_dispatch\<close>.
\<close>

definition passport_read_new :: "bool \<Rightarrow> bac_static_keys \<Rightarrow> bytes option \<Rightarrow> bool \<Rightarrow> 'g passport_read" where
  "passport_read_new with_pace keys k photo_wanted =
     \<lparr>pr_stage = P_Proxy, attached = True, has_tag = False, acquired = False, use_pace = with_pace,
      pr_keys = keys, pr_challenge = \<lparr>rnd_ifd = replicate 8 0, k_ifd = replicate 16 0\<rparr>,
      pr_session = \<lparr>ks_enc = replicate 16 0, ks_mac = replicate 16 0, ssc = replicate 8 0\<rparr>,
      pr_rnd_icc = replicate 8 0, pace_k = k, card_access = [], card_access_total_len = 0,
      pace_selected_oid = [], pace = None, pr_pace_session = zero_session, dg1 = [], dg1_total_len = 0,
      mrz = [], read_photo = photo_wanted, dg2 = None, dg2_total_len = 0\<rparr>"

end
