(* ===== verification/Hce.thy ===== *)
theory Hce
  imports Client_State
begin

text \<open>
  Card emulation (\<open>struct hce_profile\<close> and its handlers in \<open>nfcd_client.c\<close>).  The
  table of profiles is an association list by AID in hex.  Registrations with nfcd are
  asynchronous and point at the profile they are for, so profiles have addresses; a
  completion for a profile that has been freed is undefined behaviour.
\<close>

section \<open>Effects\<close>

datatype hce_method = Start | Restart | Stop | ImplicitSelect | Select | Deselect | ResponseStatus

datatype hce_out =
    HceComplete hce_method
  | HceAnswer bytes byte byte "32 word"
  | HceNotify nfcd_client
  | HceCall dbus_call
  | HceReply bool "bytes option"

definition NFCD_HCE_OBJECT_PATH :: bytes where
  "NFCD_HCE_OBJECT_PATH = str ''/org/webosports/nfc/hce''"

definition NFCD_HCE_APP_NAME :: bytes where
  "NFCD_HCE_APP_NAME = str ''webos-nfc-adapter''"

section \<open>Requests of the reader\<close>

definition hce_handle_start :: "hce_out list" where "hce_handle_start = [HceComplete Start]"
definition hce_handle_restart :: "hce_out list" where "hce_handle_restart = [HceComplete Restart]"
definition hce_handle_stop :: "hce_out list" where "hce_handle_stop = [HceComplete Stop]"
definition hce_handle_implicit_select :: "hce_out list" where "hce_handle_implicit_select = [HceComplete ImplicitSelect]"
definition hce_handle_select :: "hce_out list" where "hce_handle_select = [HceComplete Select]"
definition hce_handle_deselect :: "hce_out list" where "hce_handle_deselect = [HceComplete Deselect]"

definition HCE_INS_SELECT :: byte where "HCE_INS_SELECT = 0xA4"
definition HCE_INS_READ_BINARY :: byte where "HCE_INS_READ_BINARY = 0xB0"
definition HCE_INS_GET_DATA :: byte where "HCE_INS_GET_DATA = 0xCA"

definition hce_handle_process :: "hce_profile \<Rightarrow> byte \<Rightarrow> hce_profile \<times> hce_out list" where
  "hce_handle_process profile ins =
     (let (response, sw1, sw2) =
            (if ins = HCE_INS_SELECT then ([], 0x90, 0x00)
             else if ins = HCE_INS_READ_BINARY \<or> ins = HCE_INS_GET_DATA then (payload profile, 0x90, 0x00)
             else ([], 0x6D, 0x00));
          n = next_response_id profile + 1;
          response_id = (if n = 0 then n + 1 else n) in
      (profile\<lparr>next_response_id := response_id\<rparr>, [HceAnswer response sw1 sw2 response_id]))"

definition hce_handle_response_status :: "nfcd_client \<Rightarrow> hce_profile \<Rightarrow> bool \<Rightarrow> nfcd_client \<times> hce_out list" where
  "hce_handle_response_status client profile ok =
     (let client' = client\<lparr>hce_event_aid_hex := Some (aid_hex profile), hce_event_ok := ok\<rparr> in
      (client', [HceNotify client', HceComplete ResponseStatus]))"

section \<open>Profiles\<close>

text \<open>\<open>bus\<close> and \<open>exported\<close>: the system bus could be reached, the object exported on it.\<close>

definition hce_export_skeleton :: "bool \<Rightarrow> bool \<Rightarrow> hce_profile \<Rightarrow> hce_profile \<times> bool" where
  "hce_export_skeleton bus exported profile =
     (if \<not> bus then (profile, False)
      else if \<not> exported then (profile\<lparr>skeleton := False\<rparr>, False)
      else (profile\<lparr>skeleton := True\<rparr>, True))"

definition hce_mode_ready :: "nfcd_client \<Rightarrow> nat option \<Rightarrow> nfcd_client" where
  "hce_mode_ready client res = (case res of None \<Rightarrow> client | Some i \<Rightarrow> client\<lparr>hce_mode_request_id := i\<rparr>)"

text \<open>
  The completion of a registration of the profile at \<open>addr\<close>, with nfcd's error or none.
  \<open>None\<close>: the profile has been freed in the meantime and is written to.
\<close>

definition profile_at :: "nat \<Rightarrow> nfcd_client \<Rightarrow> bool" where
  "profile_at addr client \<longleftrightarrow> addr \<in> (\<lambda>e. hp_address (snd e)) ` set (hce_profiles client)"

definition update_profile :: "nat \<Rightarrow> (hce_profile \<Rightarrow> hce_profile) \<Rightarrow> nfcd_client \<Rightarrow> nfcd_client" where
  "update_profile addr f client =
     client\<lparr>hce_profiles := map (\<lambda>(k, p). (k, if hp_address p = addr then f p else p)) (hce_profiles client)\<rparr>"

definition hce_register_ready :: "nfcd_client \<Rightarrow> nat \<Rightarrow> bytes option \<Rightarrow> (nfcd_client \<times> hce_out list) option" where
  "hce_register_ready client addr err =
     (case err of
        Some msg \<Rightarrow> Some (client, [HceReply False (Some msg)])
      | None \<Rightarrow>
          if profile_at addr client
          then Some (update_profile addr (\<lambda>p. p\<lparr>registered := True\<rparr>) client, [HceReply True None])
          else None)"

definition hce_do_register :: "nfcd_client \<Rightarrow> hce_profile \<Rightarrow> bytes \<Rightarrow> hce_out list" where
  "hce_do_register client profile aid =
     (if \<not> daemon client then [HceReply False (Some (str ''nfcd is not available''))]
      else [HceCall (DaemonRequestMode NFCD_MODE_CARD_EMULATION),
            HceCall (RegisterLocalHostApp (object_path profile) NFCD_HCE_APP_NAME aid (if implicit profile then 1 else 0))])"

text \<open>
  What a call hands back: the client, the effects, and the address of the profile whose
  registration is now in flight.
\<close>

type_synonym hce_result = "nfcd_client \<times> hce_out list \<times> nat option"

definition in_flight :: "nfcd_client \<Rightarrow> nat \<Rightarrow> nat option" where
  "in_flight client addr = (if daemon client then Some addr else None)"

definition nfcd_client_add_card_emulation_profile ::
    "nfcd_client \<Rightarrow> nat \<Rightarrow> bool \<Rightarrow> bool \<Rightarrow> bytes option \<Rightarrow> bytes option \<Rightarrow> bool \<Rightarrow> hce_result" where
  "nfcd_client_add_card_emulation_profile client addr bus exported aid new_payload impl =
     (case aid of
        None \<Rightarrow> (client, [HceReply False (Some (str ''AID is required''))], None)
      | Some a \<Rightarrow>
          if a = [] then (client, [HceReply False (Some (str ''AID is required''))], None)
          else
            (let hex = ndef_bytes_to_hex a;
                 data = (case new_payload of None \<Rightarrow> [] | Some d \<Rightarrow> d) in
             case map_of (hce_profiles client) hex of
               Some profile \<Rightarrow>
                 (let flag_changed = (implicit profile \<noteq> impl);
                      updated = profile\<lparr>payload := data, implicit := impl\<rparr> in
                  if flag_changed \<and> daemon client then
                    (let unregistered = updated\<lparr>registered := False\<rparr> in
                     (client\<lparr>hce_profiles := AList.update hex unregistered (hce_profiles client)\<rparr>,
                      HceCall (UnregisterLocalHostApp (object_path profile)) # hce_do_register client unregistered a,
                      Some (hp_address profile)))
                  else (client\<lparr>hce_profiles := AList.update hex updated (hce_profiles client)\<rparr>, [HceReply True None], None))
             | None \<Rightarrow>
                 (let profile = \<lparr>hp_address = addr, aid_hex = hex, object_path = NFCD_HCE_OBJECT_PATH @ str ''/'' @ hex,
                        skeleton = False, payload = data, implicit = impl, registered = False, next_response_id = 0\<rparr> in
                  case hce_export_skeleton bus exported profile of
                    (p, False) \<Rightarrow> (client, [HceReply False (Some (str ''Failed to export card emulation object''))], None)
                  | (p, True) \<Rightarrow>
                      (client\<lparr>hce_profiles := AList.update hex p (hce_profiles client)\<rparr>,
                       hce_do_register client p a, in_flight client addr))))"

definition nfcd_client_remove_card_emulation_profile :: "nfcd_client \<Rightarrow> bytes option \<Rightarrow> nfcd_client \<times> hce_out list" where
  "nfcd_client_remove_card_emulation_profile client aid =
     (case aid of
        None \<Rightarrow> (client, [HceReply False (Some (str ''AID is required''))])
      | Some a \<Rightarrow>
          if a = [] then (client, [HceReply False (Some (str ''AID is required''))])
          else
            (let hex = ndef_bytes_to_hex a in
             case map_of (hce_profiles client) hex of
               None \<Rightarrow> (client, [HceReply True None])
             | Some profile \<Rightarrow>
                 (let unregister = (if registered profile \<and> daemon client
                        then [HceCall (UnregisterLocalHostApp (object_path profile))] else []);
                      removed = client\<lparr>hce_profiles := AList.delete hex (hce_profiles client)\<rparr>;
                      last = (hce_profiles removed = [] \<and> hce_mode_request_id removed \<noteq> 0 \<and> daemon removed) in
                  if last then (removed\<lparr>hce_mode_request_id := 0\<rparr>,
                    unregister @ [HceCall (DaemonReleaseMode (hce_mode_request_id removed)), HceReply True None])
                  else (removed, unregister @ [HceReply True None]))))"

definition nfcd_client_clear_card_emulation :: "nfcd_client \<Rightarrow> nfcd_client \<times> hce_out list" where
  "nfcd_client_clear_card_emulation client =
     (let unregister = map (\<lambda>e. HceCall (UnregisterLocalHostApp (object_path (snd e))))
            (filter (\<lambda>e. registered (snd e) \<and> daemon client) (hce_profiles client));
          cleared = client\<lparr>hce_profiles := []\<rparr> in
      if hce_mode_request_id client \<noteq> 0 \<and> daemon client
      then (cleared\<lparr>hce_mode_request_id := 0\<rparr>,
            unregister @ [HceCall (DaemonReleaseMode (hce_mode_request_id client)), HceReply True None])
      else (cleared, unregister @ [HceReply True None]))"

definition nfcd_client_get_hce_event :: "nfcd_client \<Rightarrow> (bytes \<times> bool) option" where
  "nfcd_client_get_hce_event client = map_option (\<lambda>aid. (aid, hce_event_ok client)) (hce_event_aid_hex client)"

section \<open>The component as a machine\<close>

text \<open>
  Everything that can happen to the profiles: calls of the service, completions of calls to
  nfcd, and requests of a reader for the profile exported for an AID.
\<close>

datatype hce_event =
    H_Add bool bool "bytes option" "bytes option" bool
  | H_Remove "bytes option"
  | H_Clear
  | H_Registered nat "bytes option"
  | H_Mode "nat option"
  | H_Process bytes byte
  | H_Status bytes bool
  | H_Daemon bool

record hce_state =
  hs_client :: nfcd_client
  hs_next :: nat
  hs_pending :: "nat list"
  hs_wild :: bool

fun hce_step :: "hce_state \<Rightarrow> hce_event \<Rightarrow> hce_state \<times> hce_out list" where
  "hce_step s (H_Add bus exported aid data impl) =
     (let (client, outs, pend) =
            nfcd_client_add_card_emulation_profile (hs_client s) (hs_next s) bus exported aid data impl in
      (s\<lparr>hs_client := client, hs_next := hs_next s + 1,
         hs_pending := (case pend of None \<Rightarrow> hs_pending s | Some a \<Rightarrow> hs_pending s @ [a])\<rparr>, outs))"
| "hce_step s (H_Remove aid) =
     (let (client, outs) = nfcd_client_remove_card_emulation_profile (hs_client s) aid in
      (s\<lparr>hs_client := client\<rparr>, outs))"
| "hce_step s H_Clear =
     (let (client, outs) = nfcd_client_clear_card_emulation (hs_client s) in (s\<lparr>hs_client := client\<rparr>, outs))"
| "hce_step s (H_Registered addr err) =
     (if addr \<notin> set (hs_pending s) then (s, [])
      else (case hce_register_ready (hs_client s) addr err of
              None \<Rightarrow> (s\<lparr>hs_wild := True, hs_pending := remove1 addr (hs_pending s)\<rparr>, [])
            | Some (client, outs) \<Rightarrow>
                (s\<lparr>hs_client := client, hs_pending := remove1 addr (hs_pending s)\<rparr>, outs)))"
| "hce_step s (H_Mode res) = (s\<lparr>hs_client := hce_mode_ready (hs_client s) res\<rparr>, [])"
| "hce_step s (H_Process aid ins) =
     (case map_of (hce_profiles (hs_client s)) aid of
        None \<Rightarrow> (s, [])
      | Some profile \<Rightarrow>
          (let (profile', outs) = hce_handle_process profile ins in
           (s\<lparr>hs_client := (hs_client s)\<lparr>hce_profiles := AList.update aid profile' (hce_profiles (hs_client s))\<rparr>\<rparr>, outs)))"
| "hce_step s (H_Status aid ok) =
     (case map_of (hce_profiles (hs_client s)) aid of
        None \<Rightarrow> (s, [])
      | Some profile \<Rightarrow>
          (let (client, outs) = hce_handle_response_status (hs_client s) profile ok in
           (s\<lparr>hs_client := client\<rparr>, outs)))"
| "hce_step s (H_Daemon up) = (s\<lparr>hs_client := (hs_client s)\<lparr>daemon := up\<rparr>\<rparr>, [])"

end
