(* ===== verification/Client.thy ===== *)
theory Client
  imports Tag_Read Passport Hce
begin

text \<open>
  The nfcd client as a whole (\<open>nfcd_client.c\<close>): the adapter, daemon and settings proxies and
  their signals, the current tag, and the reads it starts and aborts.  The state is the
  client together with the request structures that exist, by address, so that a pointer
  from the client to a request and back can be checked.
\<close>

section \<open>State\<close>

record 'g world =
  client :: nfcd_client
  tag_reads :: "nat \<rightharpoonup> tag_read"
  passport_reads :: "nat \<rightharpoonup> 'g passport_read"
  next_address :: nat
  hce_pending :: "nat list"
  hce_wild :: bool

text \<open>A notification carries the client as it is when the callback of the service runs.\<close>

datatype client_out =
    NotifyState nfcd_client
  | NotifyTag nfcd_client
  | ClientCall dbus_call
  | FromRead nat tag_out
  | FromPassport nat passport_out
  | PassportRefused string
  | FromHce hce_out
  | EnabledReply bool "bytes option"

type_synonym 'g world_step = "'g world \<times> client_out list"

abbreviation with_client :: "'g world \<Rightarrow> nfcd_client \<Rightarrow> 'g world" where
  "with_client w c \<equiv> w\<lparr>client := c\<rparr>"

text \<open>The service always registers its callbacks.\<close>

definition notify_state :: "nfcd_client \<Rightarrow> client_out list" where
  [simp]: "notify_state c = [NotifyState c]"

definition notify_tag :: "nfcd_client \<Rightarrow> client_out list" where
  [simp]: "notify_tag c = [NotifyTag c]"

section \<open>The current tag\<close>

definition tag_read_start :: "'g world \<Rightarrow> bytes \<Rightarrow> 'g world_step" where
  "tag_read_start w path =
     (let a = next_address w in
      (w\<lparr>tag_reads := (tag_reads w)(a \<mapsto> tag_read_new path), next_address := a + 1,
         client := (client w)\<lparr>reading := Some a\<rparr>\<rparr>,
       [ClientCall (NewTagProxy (Some path))]))"

text \<open>The request the client points at, if any, is detached and its calls are cancelled.\<close>

definition abort_tag_read :: "'g world \<Rightarrow> 'g world" where
  "abort_tag_read w =
     (case reading (client w) of None \<Rightarrow> w
      | Some a \<Rightarrow> w\<lparr>tag_reads := (tag_reads w)(a := map_option tag_read_abort (tag_reads w a)),
          client := (client w)\<lparr>reading := None\<rparr>\<rparr>)"

definition abort_passport_read :: "'g world \<Rightarrow> 'g world" where
  "abort_passport_read w =
     (case passport_reading (client w) of None \<Rightarrow> w
      | Some a \<Rightarrow> w\<lparr>passport_reads := (passport_reads w)(a := map_option passport_read_abort (passport_reads w a)),
          client := (client w)\<lparr>passport_reading := None\<rparr>\<rparr>)"

definition set_current_tag :: "'g world \<Rightarrow> bytes option \<Rightarrow> 'g world_step" where
  "set_current_tag w path =
     (if tag_path (client w) = path then (w, [])
      else
        (let w1 = abort_passport_read (abort_tag_read w);
             w2 = w1\<lparr>client := (client w1)\<lparr>tag_path := path, tag_is_type2 := False, tag_protocol := 0, tag_json := None\<rparr>\<rparr> in
         case path of
           None \<Rightarrow> (w2, notify_tag (client w2))
         | Some p \<Rightarrow> (let (w3, outs) = tag_read_start w2 p in (w3, notify_tag (client w2) @ outs))))"

text \<open>The first tag of the list, if there is one.\<close>

definition first_of :: "bytes list \<Rightarrow> bytes option" where
  "first_of xs = (case xs of [] \<Rightarrow> None | x # _ \<Rightarrow> Some x)"

definition update_tags :: "'g world \<Rightarrow> bytes list \<Rightarrow> 'g world_step" where
  "update_tags w tags = set_current_tag w (first_of tags)"

section \<open>Adapter\<close>

text \<open>The signal handlers: a field of the client is set and the state callback runs.\<close>

definition changed :: "'g world \<Rightarrow> nfcd_client \<Rightarrow> 'g world_step" where
  [simp]: "changed w c = (w\<lparr>client := c\<rparr>, notify_state c)"

record adapter_info =
  ai_enabled :: bool
  ai_powered :: bool
  ai_supported_modes :: nat
  ai_mode :: nat
  ai_present :: bool
  ai_tags :: "bytes list"
  ai_techs :: nat

definition adapter_enabled_changed :: "'g world \<Rightarrow> bool \<Rightarrow> 'g world_step" where
  "adapter_enabled_changed w b = changed w ((client w)\<lparr>adapter_enabled := b\<rparr>)"

definition adapter_powered_changed :: "'g world \<Rightarrow> bool \<Rightarrow> 'g world_step" where
  "adapter_powered_changed w b = changed w ((client w)\<lparr>powered := b\<rparr>)"

definition adapter_mode_changed :: "'g world \<Rightarrow> nat \<Rightarrow> 'g world_step" where
  "adapter_mode_changed w m = changed w ((client w)\<lparr>mode := m\<rparr>)"

definition adapter_present_changed :: "'g world \<Rightarrow> bool \<Rightarrow> 'g world_step" where
  "adapter_present_changed w b = changed w ((client w)\<lparr>present := b\<rparr>)"

definition adapter_tags_changed :: "'g world \<Rightarrow> bytes list \<Rightarrow> 'g world_step" where
  "adapter_tags_changed w tags = update_tags w tags"

definition adapter_get_all_ready :: "'g world \<Rightarrow> adapter_info option \<Rightarrow> 'g world_step" where
  "adapter_get_all_ready w res =
     (case res of None \<Rightarrow> (w, [])
      | Some ai \<Rightarrow>
          (let w1 = w\<lparr>client := (client w)\<lparr>adapter_enabled := ai_enabled ai, powered := ai_powered ai,
                 supported_modes := ai_supported_modes ai, mode := ai_mode ai, present := ai_present ai,
                 techs := ai_techs ai, available := True\<rparr>\<rparr>;
               (w2, outs) = update_tags w1 (ai_tags ai) in
           (w2, notify_state (client w1) @ outs)))"

definition adapter_proxy_ready :: "'g world \<Rightarrow> bool \<Rightarrow> 'g world_step" where
  "adapter_proxy_ready w ok =
     (if \<not> ok then (w, []) else (w\<lparr>client := (client w)\<lparr>adapter := True\<rparr>\<rparr>, [ClientCall AdapterGetAll4]))"

definition attach_adapter :: "'g world \<Rightarrow> bytes option \<Rightarrow> 'g world_step" where
  "attach_adapter w path =
     (case path of
        None \<Rightarrow>
          (let w1 = w\<lparr>client := (client w)\<lparr>adapter := False, adapter_path := None, available := False\<rparr>\<rparr>;
               (w2, outs) = set_current_tag w1 None in
           (w2, outs @ notify_state (client w2)))
      | Some p \<Rightarrow>
          if adapter_path (client w) = path then (w, [])
          else (w\<lparr>client := (client w)\<lparr>adapter_path := path\<rparr>\<rparr>, [ClientCall (NewAdapterProxy p)]))"

section \<open>Daemon\<close>

definition daemon_adapters_changed :: "'g world \<Rightarrow> bytes list \<Rightarrow> 'g world_step" where
  "daemon_adapters_changed w adapters = attach_adapter w (first_of adapters)"

definition daemon_get_all_ready :: "'g world \<Rightarrow> (int \<times> bytes list) option \<Rightarrow> 'g world_step" where
  "daemon_get_all_ready w res =
     (case res of None \<Rightarrow> (w, [])
      | Some (version, adapters) \<Rightarrow>
          attach_adapter (w\<lparr>client := (client w)\<lparr>daemon_version := version\<rparr>\<rparr>) (first_of adapters))"

definition request_reader_writer_mode_ready :: "'g world \<Rightarrow> nat option \<Rightarrow> 'g world_step" where
  "request_reader_writer_mode_ready w res =
     (case res of None \<Rightarrow> (w, []) | Some i \<Rightarrow> (w\<lparr>client := (client w)\<lparr>mode_request_id := i\<rparr>\<rparr>, []))"

definition daemon_proxy_ready :: "'g world \<Rightarrow> bool \<Rightarrow> 'g world_step" where
  "daemon_proxy_ready w ok =
     (if \<not> ok then (w, [])
      else (w\<lparr>client := (client w)\<lparr>daemon := True, mode_request_id := 0\<rparr>\<rparr>,
            [ClientCall DaemonGetAll4, ClientCall (DaemonRequestMode NFCD_MODE_READER_WRITER)]))"

definition daemon_appeared :: "'g world \<Rightarrow> 'g world_step" where
  "daemon_appeared w = (w, [ClientCall NewDaemonProxy])"

definition daemon_vanished :: "'g world \<Rightarrow> 'g world_step" where
  "daemon_vanished w =
     attach_adapter (w\<lparr>client := (client w)\<lparr>daemon := False, daemon_version := 0, mode_request_id := 0\<rparr>\<rparr>) None"

section \<open>Settings\<close>

definition settings_enabled_changed :: "'g world \<Rightarrow> bool \<Rightarrow> 'g world_step" where
  "settings_enabled_changed w b =
     changed w ((client w)\<lparr>settings_valid := True, settings_enabled := b\<rparr>)"

definition settings_get_all_ready :: "'g world \<Rightarrow> bool option \<Rightarrow> 'g world_step" where
  "settings_get_all_ready w res =
     (case res of None \<Rightarrow> (w, [])
      | Some b \<Rightarrow> changed w ((client w)\<lparr>settings_valid := True, settings_enabled := b\<rparr>))"

definition settings_proxy_ready :: "'g world \<Rightarrow> bool \<Rightarrow> 'g world_step" where
  "settings_proxy_ready w ok =
     (if \<not> ok then (w, []) else (w\<lparr>client := (client w)\<lparr>settings := True\<rparr>\<rparr>, [ClientCall SettingsGetAll]))"

definition settings_appeared :: "'g world \<Rightarrow> 'g world_step" where
  "settings_appeared w = (w, [ClientCall NewSettingsProxy])"

definition settings_vanished :: "'g world \<Rightarrow> 'g world_step" where
  "settings_vanished w = changed w ((client w)\<lparr>settings := False, settings_valid := False\<rparr>)"

section \<open>Public interface\<close>

definition nfcd_client_create :: nfcd_client where
  "nfcd_client_create = \<lparr>daemon = False, adapter = False, settings = False, adapter_path = None,
     available = False, powered = False, present = False, mode = 0, supported_modes = 0, techs = 0,
     daemon_version = 0, mode_request_id = 0, settings_valid = False, settings_enabled = False,
     adapter_enabled = False, tag_path = None, tag_is_type2 = False, tag_protocol = 0,
     tag_json = None, reading = None, passport_reading = None, mifare_key_cache = Map.empty,
     hce_profiles = [], hce_mode_request_id = 0, hce_event_aid_hex = None, hce_event_ok = False\<rparr>"

definition world_init :: "'g world" where
  "world_init = \<lparr>client = nfcd_client_create, tag_reads = Map.empty, passport_reads = Map.empty, next_address = 0,
     hce_pending = [], hce_wild = False\<rparr>"

text \<open>
  Freeing the client: the requests that survive it are those in the heap; none may still
  point back at it.
\<close>

definition nfcd_client_free :: "'g world \<Rightarrow> 'g world" where
  "nfcd_client_free w = abort_passport_read (abort_tag_read w)"

definition nfcd_client_is_available :: "nfcd_client \<Rightarrow> bool" where
  "nfcd_client_is_available c = available c"

definition nfcd_client_is_enabled :: "nfcd_client \<Rightarrow> bool" where
  "nfcd_client_is_enabled c = (if settings_valid c then settings_enabled c else adapter_enabled c)"

definition nfcd_client_is_powered :: "nfcd_client \<Rightarrow> bool" where
  "nfcd_client_is_powered c = powered c"

definition nfcd_client_is_present :: "nfcd_client \<Rightarrow> bool" where
  "nfcd_client_is_present c = present c"

definition nfcd_client_get_mode :: "nfcd_client \<Rightarrow> nat" where
  "nfcd_client_get_mode c = mode c"

definition nfcd_client_get_supported_modes :: "nfcd_client \<Rightarrow> nat" where
  "nfcd_client_get_supported_modes c = supported_modes c"

definition nfcd_client_get_techs :: "nfcd_client \<Rightarrow> nat" where
  "nfcd_client_get_techs c = techs c"

definition nfcd_client_get_daemon_version :: "nfcd_client \<Rightarrow> int" where
  "nfcd_client_get_daemon_version c = daemon_version c"

definition nfcd_client_get_adapter_path :: "nfcd_client \<Rightarrow> bytes option" where
  "nfcd_client_get_adapter_path c = adapter_path c"

definition nfcd_client_get_tag_json :: "nfcd_client \<Rightarrow> jvalue option" where
  "nfcd_client_get_tag_json c = tag_json c"

definition set_enabled_ready :: "bytes option \<Rightarrow> client_out list" where
  "set_enabled_ready err =
     (case err of None \<Rightarrow> [EnabledReply True None] | Some msg \<Rightarrow> [EnabledReply False (Some msg)])"

definition nfcd_client_set_enabled :: "nfcd_client \<Rightarrow> bool \<Rightarrow> client_out list" where
  "nfcd_client_set_enabled c b =
     (if \<not> settings c then [EnabledReply False (Some (str ''nfcd settings interface is not available''))]
      else [ClientCall (SettingsSetEnabled b)])"

section \<open>Passport reads\<close>

definition passport_read_precheck :: "nfcd_client \<Rightarrow> string option" where
  "passport_read_precheck c =
     (if passport_reading c \<noteq> None then Some ''A passport read is already in progress''
      else if tag_path c = None then Some ''No tag in the field''
      else if tag_protocol c \<noteq> NFC_PROTOCOL_T4A \<and> tag_protocol c \<noteq> NFC_PROTOCOL_T4B
      then Some ''Not an ISO-DEP tag - passports and eIDs need ISO-DEP (t4a/t4b)''
      else None)"

definition passport_read_dispatch :: "'g world \<Rightarrow> 'g passport_read \<Rightarrow> 'g world_step" where
  "passport_read_dispatch w read =
     (let a = next_address w in
      (w\<lparr>passport_reads := (passport_reads w)(a \<mapsto> read), next_address := a + 1,
         client := (client w)\<lparr>passport_reading := Some a\<rparr>\<rparr>,
       [ClientCall (NewTagProxy (tag_path (client w)))]))"

definition nfcd_client_read_passport ::
    "openssl \<Rightarrow> 'g world \<Rightarrow> bytes option \<Rightarrow> bytes option \<Rightarrow> bytes option \<Rightarrow> bool \<Rightarrow> 'g world_step" where
  "nfcd_client_read_passport ossl w doc dob expiry photo_wanted =
     (case passport_read_precheck (client w) of
        Some msg \<Rightarrow> (w, [PassportRefused msg])
      | None \<Rightarrow>
          (case bac_derive_static_keys ossl doc dob expiry of
             None \<Rightarrow> (w, [PassportRefused ''Expected documentNumber, dateOfBirth and dateOfExpiry (YYMMDD)''])
           | Some keys \<Rightarrow> passport_read_dispatch w (passport_read_new False keys None photo_wanted)))"

definition nfcd_client_read_passport_pace :: "'g world \<Rightarrow> bytes option \<Rightarrow> bool \<Rightarrow> 'g world_step" where
  "nfcd_client_read_passport_pace w can photo_wanted =
     (case passport_read_precheck (client w) of
        Some msg \<Rightarrow> (w, [PassportRefused msg])
      | None \<Rightarrow>
          (case pace_derive_k_can can of
             None \<Rightarrow> (w, [PassportRefused ''Expected can (the Card Access Number printed on the document)''])
           | Some k \<Rightarrow> passport_read_dispatch w
               (passport_read_new True \<lparr>kenc = replicate 16 0, kmac = replicate 16 0\<rparr> (Some k) photo_wanted)))"

text \<open>The calls that follow the end of a passport read, independent of any client.\<close>

definition passport_release_ready :: "client_out list" where
  "passport_release_ready = [ClientCall TagDeactivate]"

section \<open>Everything that happens\<close>

text \<open>The callback of a tag read, and of a passport read.\<close>

definition tag_read_event :: "glib_utf \<Rightarrow> nat \<Rightarrow> 'g world \<Rightarrow> nat \<Rightarrow> tag_event \<Rightarrow> 'g world_step" where
  "tag_read_event g width w a ev =
     (case tag_reads w a of None \<Rightarrow> (w, [])
      | Some read \<Rightarrow>
          if t_cancelled ev \<and> tr_attached read then (w, [])
          else
            (let (c, read', outs) = tag_read_step g width (client w) read ev in
             (w\<lparr>client := c, tag_reads := (tag_reads w)(a \<mapsto> read')\<rparr>, map (FromRead a) outs)))"

definition passport_read_event :: "('g, 'p) crypto_env \<Rightarrow> 'g world \<Rightarrow> nat \<Rightarrow> passport_event \<Rightarrow> 'g world_step" where
  "passport_read_event env w a ev =
     (case passport_reads w a of None \<Rightarrow> (w, [])
      | Some read \<Rightarrow>
          (let (read', outs) = passport_step env read ev;
               clear = (OutClearSlot \<in> set outs \<and> passport_reading (client w) = Some a) in
           (w\<lparr>passport_reads := (passport_reads w)(a \<mapsto> read'),
              client := (if clear then (client w)\<lparr>passport_reading := None\<rparr> else client w)\<rparr>,
            map (FromPassport a) outs)))"

definition hce_world_event :: "'g world \<Rightarrow> hce_event \<Rightarrow> 'g world_step" where
  "hce_world_event w e =
     (let (s, outs) = hce_step \<lparr>hs_client = client w, hs_next = next_address w, hs_pending = hce_pending w,
            hs_wild = hce_wild w\<rparr> e in
      (w\<lparr>client := hs_client s, next_address := hs_next s, hce_pending := hs_pending s, hce_wild := hs_wild s\<rparr>,
       map FromHce outs))"

datatype client_event =
    E_AdapterEnabled bool | E_AdapterPowered bool | E_AdapterMode nat | E_AdapterPresent bool
  | E_AdapterTags "bytes list" | E_AdapterGetAll "adapter_info option" | E_AdapterProxy bool
  | E_Adapters "bytes list" | E_DaemonGetAll "(int \<times> bytes list) option" | E_ReaderMode "nat option"
  | E_DaemonProxy bool | E_DaemonAppeared | E_DaemonVanished
  | E_SettingsEnabled bool | E_SettingsGetAll "bool option" | E_SettingsProxy bool
  | E_SettingsAppeared | E_SettingsVanished
  | E_Tag nat tag_event | E_Passport nat passport_event
  | E_ReadPassport "bytes option" "bytes option" "bytes option" bool | E_ReadPassportPace "bytes option" bool
  | E_SetEnabled bool | E_SetEnabledReady "bytes option" | E_PassportReleased
  | E_HceAdd bool bool "bytes option" "bytes option" bool | E_HceRemove "bytes option" | E_HceClear
  | E_HceRegistered nat "bytes option" | E_HceMode "nat option" | E_HceProcess bytes byte | E_HceStatus bytes bool

fun client_step ::
    "glib_utf \<Rightarrow> nat \<Rightarrow> ('g, 'p) crypto_env \<Rightarrow> 'g world \<Rightarrow> client_event \<Rightarrow> 'g world_step" where
  "client_step g width env w (E_AdapterEnabled b) = adapter_enabled_changed w b"
| "client_step g width env w (E_AdapterPowered b) = adapter_powered_changed w b"
| "client_step g width env w (E_AdapterMode m) = adapter_mode_changed w m"
| "client_step g width env w (E_AdapterPresent b) = adapter_present_changed w b"
| "client_step g width env w (E_AdapterTags tags) = adapter_tags_changed w tags"
| "client_step g width env w (E_AdapterGetAll res) = adapter_get_all_ready w res"
| "client_step g width env w (E_AdapterProxy ok) = adapter_proxy_ready w ok"
| "client_step g width env w (E_Adapters adapters) = daemon_adapters_changed w adapters"
| "client_step g width env w (E_DaemonGetAll res) = daemon_get_all_ready w res"
| "client_step g width env w (E_ReaderMode res) = request_reader_writer_mode_ready w res"
| "client_step g width env w (E_DaemonProxy ok) = daemon_proxy_ready w ok"
| "client_step g width env w E_DaemonAppeared = daemon_appeared w"
| "client_step g width env w E_DaemonVanished = daemon_vanished w"
| "client_step g width env w (E_SettingsEnabled b) = settings_enabled_changed w b"
| "client_step g width env w (E_SettingsGetAll res) = settings_get_all_ready w res"
| "client_step g width env w (E_SettingsProxy ok) = settings_proxy_ready w ok"
| "client_step g width env w E_SettingsAppeared = settings_appeared w"
| "client_step g width env w E_SettingsVanished = settings_vanished w"
| "client_step g width env w (E_Tag a ev) = tag_read_event g width w a ev"
| "client_step g width env w (E_Passport a ev) = passport_read_event env w a ev"
| "client_step g width env w (E_ReadPassport doc dob expiry ph) = nfcd_client_read_passport (e_ossl env) w doc dob expiry ph"
| "client_step g width env w (E_ReadPassportPace can ph) = nfcd_client_read_passport_pace w can ph"
| "client_step g width env w (E_SetEnabled b) = (w, nfcd_client_set_enabled (client w) b)"
| "client_step g width env w (E_SetEnabledReady err) = (w, set_enabled_ready err)"
| "client_step g width env w E_PassportReleased = (w, passport_release_ready)"
| "client_step g width env w (E_HceAdd bus exported aid data impl) = hce_world_event w (H_Add bus exported aid data impl)"
| "client_step g width env w (E_HceRemove aid) = hce_world_event w (H_Remove aid)"
| "client_step g width env w E_HceClear = hce_world_event w H_Clear"
| "client_step g width env w (E_HceRegistered addr err) = hce_world_event w (H_Registered addr err)"
| "client_step g width env w (E_HceMode res) = hce_world_event w (H_Mode res)"
| "client_step g width env w (E_HceProcess aid ins) = hce_world_event w (H_Process aid ins)"
| "client_step g width env w (E_HceStatus aid ok) = hce_world_event w (H_Status aid ok)"

text \<open>
  The states of the daemon: from the fresh client, any signal, completion or call of the
  service at any time.
\<close>

inductive reachable :: "glib_utf \<Rightarrow> nat \<Rightarrow> ('g, 'p) crypto_env \<Rightarrow> 'g world \<Rightarrow> bool"
  for g :: glib_utf and width :: nat and env :: "('g, 'p) crypto_env" where
  reach_init: "reachable g width env world_init"
| reach_step: "reachable g width env w \<Longrightarrow> reachable g width env (fst (client_step g width env w e))"

end
