(* ===== verification/Tag_Read_Facts.thy ===== *)
theory Tag_Read_Facts
  imports Tag_Read Ndef_Facts
begin

text \<open>
  The tag read frees itself exactly once and after a bounded number of callbacks, only sends
  commands for blocks of the sector it is in, and caches only keys that read a block.
\<close>

section \<open>The read as a machine\<close>

text \<open>
  The client changes between two callbacks of a read, so it comes with the event; the state
  of the machine is the read alone.
\<close>

definition tag_machine :: "glib_utf \<Rightarrow> nat \<Rightarrow> tag_read \<Rightarrow> nfcd_client \<times> tag_event \<Rightarrow> tag_read \<times> tag_out list" where
  "tag_machine g w read e = snd (tag_read_step g w (fst e) read (snd e))"

definition tag_live :: "tag_read \<Rightarrow> bool" where
  "tag_live read \<longleftrightarrow> tr_stage read \<notin> {T_Done, T_Wild}"

definition is_free :: "tag_out \<Rightarrow> bool" where
  "is_free out \<longleftrightarrow> out = OutFreeRead"

text \<open>A step either waits for one more call or ends and frees.\<close>

definition ends_well :: "tag_step \<Rightarrow> bool" where
  "ends_well s \<longleftrightarrow> tr_stage (fst (snd s)) \<in> {T_Proxy, T_GetAll, T_NdefProxy, T_NdefGetAll, T_RawProxy, T_RawData,
        T_MfAuth, T_MfRead} \<and> filter is_free (snd (snd s)) = []
     \<or> tr_stage (fst (snd s)) = T_Done \<and> length (filter is_free (snd (snd s))) = 1"

lemma ends_free: "ends_well (tag_read_free c r)"
  by (simp add: ends_well_def tag_read_free_def is_free_def)

lemma ends_finish: "ends_well (tag_read_finish c r)"
  by (simp add: tag_read_finish_def Let_def ends_free) (simp add: ends_well_def is_free_def)

lemma ends_wait: "st \<notin> {T_Done, T_Wild} \<Longrightarrow> ends_well (tag_wait c r call st)"
  by (cases st) (simp_all add: ends_well_def tag_wait_def is_free_def)

lemma ends_send: "ends_well (mifare_send_auth c r k)"
  by (simp add: mifare_send_auth_def ends_wait)

lemmas ends_intros = ends_free ends_finish ends_wait ends_send

lemma ends_next_sector: "ends_well (tag_read_mifare_next_sector c r)"
  by (auto simp: tag_read_mifare_next_sector_def ends_intros mifare_publish_progress_def Let_def mifare_try_cached_key_def
      mifare_send_auth_def tag_wait_def Let_def split: option.split)
    (simp_all add: ends_well_def is_free_def)

lemma ends_try_key: "ends_well (tag_read_mifare_try_key c r)"
  by (simp add: tag_read_mifare_try_key_def ends_intros ends_next_sector)

lemma ends_mifare:
  "ends_well (mifare_sector_done c r)" "ends_well (mifare_next_attempt c r)" "ends_well (mifare_read_block c r b)"
  "ends_well (tag_read_mifare_start c r)"
  by (simp_all add: mifare_sector_done_def mifare_next_attempt_def mifare_read_block_def tag_read_mifare_start_def
      ends_next_sector ends_try_key ends_wait Let_def)

lemma ends_records: "ends_well (tag_read_next_record c r)"
  by (simp add: tag_read_next_record_def tag_read_raw_data_def ends_intros)

text \<open>The results a D-Bus call may deliver: record lists and payloads of bounded length.\<close>

definition tag_admissible :: "nat \<Rightarrow> nat \<Rightarrow> nfcd_client \<times> tag_event \<Rightarrow> bool" where
  "tag_admissible w B e \<longleftrightarrow> length (ti_records (t_info (snd e))) \<le> B
     \<and> length (nf_payload (t_ndef (snd e))) + ndef_slack \<le> 2 ^ w"

lemma admissible_record: "tag_admissible w B (c, ev) \<Longrightarrow> ndef_record_to_json g w tnf ty rid (nf_payload (t_ndef ev)) \<noteq> None"
  by (intro ndef_safe_mutual(1)) (simp add: tag_admissible_def)

lemma ends_step:
  assumes "tag_live r" "tag_admissible w B (c, ev)"
  shows "ends_well (tag_read_step g w c r ev)"
  using assms(1) admissible_record [OF assms(2), of g "nf_tnf (t_ndef ev)" "nf_type (t_ndef ev)" "nf_id (t_ndef ev)"]
  by (cases "tr_stage r")
    (auto simp: tag_live_def tag_read_step_def tag_proxy_ready_def tag_get_all_ready_def ndef_proxy_ready_def
      ndef_get_all_ready_def raw_data_proxy_ready_def raw_data_ready_def mifare_auth_ready_def
      mifare_block_read_ready_def Let_def ends_intros ends_mifare ends_records split: option.split)

section \<open>Termination\<close>

text \<open>
  Fuel.  One attempt at a sector is an authentication and the reads of its blocks; after an
  attempt whose first read fails come the remaining default keys.
\<close>

definition attempts_left :: "tag_read \<Rightarrow> nat" where
  "attempts_left r = (if mifare_cached_attempt r then 4 else 3 - mifare_key_index r)"

definition sector_work :: "nat \<Rightarrow> nat" where
  "sector_work s = 10 + mifare_sector_block_count s"

definition sectors_work :: "nat \<Rightarrow> nat" where
  "sectors_work k = sum_list (map sector_work [k..<MIFARE_NUM_SECTORS])"

definition tag_fuel :: "nat \<Rightarrow> tag_read \<Rightarrow> nat" where
  "tag_fuel B r =
     (let records_left = 2 * (length (record_paths r) - record_index r);
          count = mifare_sector_block_count (mifare_sector r);
          later = sectors_work (mifare_sector r + 1);
          most = max (sectors_work 0) (2 * B + 4) in
      case tr_stage r of
        T_Proxy \<Rightarrow> most + 2 | T_GetAll \<Rightarrow> most + 1
      | T_NdefProxy \<Rightarrow> records_left + 4 | T_NdefGetAll \<Rightarrow> records_left + 3
      | T_RawProxy \<Rightarrow> 2 | T_RawData \<Rightarrow> 1
      | T_MfAuth \<Rightarrow> later + 2 + count + 2 * attempts_left r
      | T_MfRead \<Rightarrow> later + 1 + (count - mifare_block_offset r)
          + (if mifare_block_offset r = 0 then 2 * attempts_left r else 0)
      | _ \<Rightarrow> 0)"

lemma sectors_work_Cons: "k < 40 \<Longrightarrow> sectors_work k = sector_work k + sectors_work (Suc k)"
  by (simp add: sectors_work_def MIFARE_NUM_SECTORS_def upt_conv_Cons)

lemma sectors_work_end: "40 \<le> k \<Longrightarrow> sectors_work k = 0"
  by (simp add: sectors_work_def MIFARE_NUM_SECTORS_def)

lemma sweep_work: "sectors_work 0 = 656"
  by code_simp

text \<open>
  What a step leaves to do: at most \<open>n\<close>, unless it ended.
\<close>

definition at_most :: "nat \<Rightarrow> nat \<Rightarrow> tag_step \<Rightarrow> bool" where
  "at_most B n s \<longleftrightarrow> tag_live (fst (snd s)) \<longrightarrow> tag_fuel B (fst (snd s)) \<le> n"

lemma at_most_done: "at_most B n (tag_read_free c r)" "at_most B n (tag_read_finish c r)"
  by (simp_all add: at_most_def tag_live_def tag_read_free_def tag_read_finish_def Let_def)

lemma at_most_le: "at_most B n s \<Longrightarrow> n \<le> n' \<Longrightarrow> at_most B n' s"
  by (auto simp: at_most_def)

lemma fuel_auth: "tr_stage r = T_MfAuth \<Longrightarrow> tag_fuel B r =
    sectors_work (mifare_sector r + 1) + 2 + mifare_sector_block_count (mifare_sector r) + 2 * attempts_left r"
  by (simp add: tag_fuel_def)

lemma at_most_send_auth: "at_most B (sectors_work (mifare_sector r + 1) + 2 + mifare_sector_block_count (mifare_sector r)
    + 2 * attempts_left r) (mifare_send_auth c r k)"
  by (simp add: at_most_def mifare_send_auth_def tag_wait_def fuel_auth attempts_left_def)

lemma at_most_outs: "at_most B n (c', r', outs') \<Longrightarrow> at_most B n (c', r', outs @ outs')"
  by (simp add: at_most_def)

lemma at_most_next_sector: "at_most B (sectors_work (mifare_sector r)) (tag_read_mifare_next_sector c r)"
proof (cases "tr_attached r \<and> mifare_sector r < 40")
  case False
  then show ?thesis
    by (auto simp: tag_read_mifare_next_sector_def at_most_done MIFARE_NUM_SECTORS_def)
next
  case True
  obtain c1 outs where p: "mifare_publish_progress c r = (c1, outs)" by fastforce
  let ?r = "r\<lparr>mifare_key_index := 0, mifare_auth_type := 0, mifare_cached_attempt := False\<rparr>"
  let ?s = "case mifare_try_cached_key c1 ?r of Some s \<Rightarrow> s | None \<Rightarrow> mifare_send_auth c1 ?r (mifare_default_keys ! 0)"
  have work: "sectors_work (mifare_sector r) = sectors_work (mifare_sector r + 1) + 2
      + mifare_sector_block_count (mifare_sector r) + 2 * 4"
    using True by (simp add: sectors_work_Cons sector_work_def)
  have "at_most B (sectors_work (mifare_sector r)) ?s"
    unfolding work mifare_try_cached_key_def
    by (auto split: option.split intro!: at_most_le [OF at_most_send_auth] simp: attempts_left_def)
  then show ?thesis
    using True p by (auto simp: tag_read_mifare_next_sector_def MIFARE_NUM_SECTORS_def Let_def at_most_outs
        split: prod.split)
qed

lemma at_most_try_key:
  "at_most B (sectors_work (mifare_sector r + 1)
     + (if mifare_key_index r < 4 then 2 + mifare_sector_block_count (mifare_sector r) + 2 * attempts_left r else 0))
   (tag_read_mifare_try_key c r)"
  using at_most_next_sector [of B "r\<lparr>mifare_sector := mifare_sector r + 1\<rparr>" c]
  by (auto simp: tag_read_mifare_try_key_def at_most_done mifare_default_keys_def
      intro!: at_most_le [OF at_most_send_auth])

lemma at_most_next_attempt:
  "at_most B (sectors_work (mifare_sector r + 1)
     + (if attempts_left r = 0 then 0 else mifare_sector_block_count (mifare_sector r) + 2 * attempts_left r))
   (mifare_next_attempt c r)"
  using at_most_try_key [of B "r\<lparr>mifare_cached_attempt := False\<rparr>" c]
    at_most_try_key [of B "r\<lparr>mifare_key_index := mifare_key_index r + 1\<rparr>" c]
  by (auto simp: mifare_next_attempt_def attempts_left_def elim!: at_most_le split: if_splits)

lemma at_most_sector_done: "at_most B (sectors_work (mifare_sector r + 1)) (mifare_sector_done c r)"
proof -
  let ?r = "\<lambda>obj. r\<lparr>mifare_sectors_arr := mifare_sectors_arr r @ [obj], mifare_blocks_arr := [],
    mifare_sector := mifare_sector r + 1\<rparr>"
  show ?thesis unfolding mifare_sector_done_def Let_def using at_most_next_sector [of B "?r obj" for obj] by simp
qed

lemma at_most_next_record:
  "at_most B (2 * (length (record_paths r) - record_index r) + 2 + (if record_index r < length (record_paths r) then 2 else 0))
    (tag_read_next_record c r)"
  by (auto simp: tag_read_next_record_def tag_read_raw_data_def at_most_done)
    (simp_all add: at_most_def tag_wait_def tag_live_def tag_fuel_def Let_def)

lemma fuel_read: "tr_stage r = T_MfRead \<Longrightarrow> tag_fuel B r = sectors_work (mifare_sector r + 1) + 1
    + (mifare_sector_block_count (mifare_sector r) - mifare_block_offset r)
    + (if mifare_block_offset r = 0 then 2 * attempts_left r else 0)"
  by (simp add: tag_fuel_def)

lemma at_most_read_block: "mifare_block_offset r = 0 \<Longrightarrow> at_most B (sectors_work (mifare_sector r + 1) + 1
    + mifare_sector_block_count (mifare_sector r) + 2 * attempts_left r) (mifare_read_block c r b)"
  "at_most B (sectors_work (mifare_sector r + 1) + 1
    + (mifare_sector_block_count (mifare_sector r) - mifare_block_offset r)
    + (if mifare_block_offset r = 0 then 2 * attempts_left r else 0)) (mifare_read_block c r b)"
  by (simp_all add: at_most_def mifare_read_block_def tag_wait_def fuel_read attempts_left_def)

text \<open>Each handler leaves less than there was.\<close>

lemma less_early:
  "tr_stage r = T_Proxy \<Longrightarrow> at_most B (tag_fuel B r - 1) (tag_proxy_ready c r ev)"
  "tr_stage r = T_RawProxy \<Longrightarrow> at_most B (tag_fuel B r - 1) (raw_data_proxy_ready c r ev)"
  "tr_stage r = T_RawData \<Longrightarrow> at_most B (tag_fuel B r - 1) (raw_data_ready c r ev)"
  by (auto simp: tag_proxy_ready_def raw_data_proxy_ready_def raw_data_ready_def at_most_done)
    (simp_all add: at_most_def tag_wait_def tag_fuel_def Let_def)

lemma less_get_all:
  assumes "tr_stage r = T_GetAll" "length (ti_records (t_info ev)) \<le> B"
  shows "at_most B (tag_fuel B r - 1) (tag_get_all_ready c r ev)"
proof -
  have fuel: "tag_fuel B r - 1 = max (sectors_work 0) (2 * B + 4)"
    using assms(1) by (simp add: tag_fuel_def Let_def)
  have "at_most B (max (sectors_work 0) (2 * B + 4)) (tag_read_mifare_start c' r')" for c' r'
    unfolding tag_read_mifare_start_def
    by (rule at_most_le [OF at_most_next_sector]) simp
  moreover have "at_most B (max (sectors_work 0) (2 * B + 4)) (tag_read_next_record c' r')"
    if "record_index r' = 0" "record_paths r' = ti_records (t_info ev)" for c' r'
    by (rule at_most_le [OF at_most_next_record]) (use that assms(2) in auto)
  ultimately show ?thesis
    unfolding fuel by (simp add: tag_get_all_ready_def at_most_done Let_def)
qed

lemma less_records:
  "tr_stage r = T_NdefProxy \<Longrightarrow> at_most B (tag_fuel B r - 1) (ndef_proxy_ready c r ev)"
  "tr_stage r = T_NdefGetAll \<Longrightarrow> ndef_record_to_json g w (nf_tnf (t_ndef ev)) (nf_type (t_ndef ev)) (nf_id (t_ndef ev))
      (nf_payload (t_ndef ev)) \<noteq> None \<Longrightarrow> at_most B (tag_fuel B r - 1) (ndef_get_all_ready g w c r ev)"
proof -
  have next_rec: "at_most B (2 * (length (record_paths r) - record_index r) + 2)
      (tag_read_next_record c (r\<lparr>records_arr := j, record_index := record_index r + 1\<rparr>))"
    "at_most B (2 * (length (record_paths r) - record_index r) + 2)
      (tag_read_next_record c (r\<lparr>record_index := record_index r + 1\<rparr>))" for j
    by (rule at_most_le [OF at_most_next_record], auto)+
  show "at_most B (tag_fuel B r - 1) (ndef_proxy_ready c r ev)" if "tr_stage r = T_NdefProxy"
  proof -
    have fuel: "tag_fuel B r - 1 = 2 * (length (record_paths r) - record_index r) + 3"
      using that by (simp add: tag_fuel_def Let_def)
    have "at_most B (2 * (length (record_paths r) - record_index r) + 3) (tag_wait c r NdefGetAll T_NdefGetAll)"
      by (simp add: at_most_def tag_wait_def tag_fuel_def Let_def)
    then show ?thesis
      unfolding fuel ndef_proxy_ready_def using next_rec by (auto simp: at_most_done elim!: at_most_le)
  qed
  show "at_most B (tag_fuel B r - 1) (ndef_get_all_ready g w c r ev)"
    if "tr_stage r = T_NdefGetAll" and some: "ndef_record_to_json g w (nf_tnf (t_ndef ev)) (nf_type (t_ndef ev))
      (nf_id (t_ndef ev)) (nf_payload (t_ndef ev)) \<noteq> None"
  proof -
    have fuel: "tag_fuel B r - 1 = 2 * (length (record_paths r) - record_index r) + 2"
      using that by (simp add: tag_fuel_def Let_def)
    show ?thesis
      unfolding fuel ndef_get_all_ready_def using next_rec some by (auto simp: at_most_done split: option.split)
  qed
qed

lemma less_auth:
  assumes "tr_stage r = T_MfAuth"
  shows "at_most B (tag_fuel B r - 1) (mifare_auth_ready c r ev)"
proof -
  have "at_most B (tag_fuel B r - 1) (mifare_next_attempt c r)"
    by (rule at_most_le [OF at_most_next_attempt]) (simp add: fuel_auth [OF assms])
  moreover have "at_most B (tag_fuel B r - 1) (mifare_read_block c (r\<lparr>mifare_block_offset := 0, mifare_blocks_arr := []\<rparr>) b)"
    for b
    by (rule at_most_le [OF at_most_read_block(1)]) (simp_all add: fuel_auth [OF assms] attempts_left_def)
  ultimately show ?thesis by (simp add: mifare_auth_ready_def at_most_done)
qed

lemma less_read:
  assumes "tr_stage r = T_MfRead"
  shows "at_most B (tag_fuel B r - 1) (mifare_block_read_ready c r ev)"
proof -
  have fuel: "sectors_work (mifare_sector r + 1) \<le> tag_fuel B r - 1" by (simp add: fuel_read [OF assms])
  have sector_end: "at_most B (tag_fuel B r - 1) (mifare_sector_done c r')" if "mifare_sector r' = mifare_sector r" for r'
    by (rule at_most_le [OF at_most_sector_done]) (use fuel that in simp)
  have again: "at_most B (tag_fuel B r - 1) (mifare_next_attempt c (r\<lparr>mifare_blocks_arr := []\<rparr>))"
    if "mifare_block_offset r = 0"
    by (rule at_most_le [OF at_most_next_attempt]) (use that in \<open>simp add: fuel_read [OF assms] attempts_left_def\<close>)
  have more: "at_most B (tag_fuel B r - 1) (mifare_read_block c (r\<lparr>mifare_blocks_arr := x,
      mifare_block_offset := mifare_block_offset r + 1\<rparr>) b)"
    if "mifare_block_offset r + 1 < mifare_sector_block_count (mifare_sector r)" for x b
    by (rule at_most_le [OF at_most_read_block(2)]) (use that in \<open>auto simp: fuel_read [OF assms]\<close>)
  show ?thesis
  proof (cases "tr_attached r \<and> t_ok ev \<and> length (t_data ev) = 16
      \<and> mifare_block_offset r + 1 < mifare_sector_block_count (mifare_sector r)")
    case True
    then show ?thesis by (simp add: mifare_block_read_ready_def Let_def more del: One_nat_def)
  next
    case False
    then show ?thesis
      by (auto simp: mifare_block_read_ready_def Let_def at_most_done sector_end again simp del: One_nat_def)
  qed
qed

lemma fuel_pos: "tag_live r \<Longrightarrow> 0 < tag_fuel B r"
  by (cases "tr_stage r") (simp_all add: tag_live_def tag_fuel_def Let_def)

lemma fuel_step:
  assumes "tag_live r" "tag_admissible w B (c, ev)"
  shows "at_most B (tag_fuel B r - 1) (tag_read_step g w c r ev)"
proof -
  have "length (ti_records (t_info ev)) \<le> B" using assms(2) by (simp add: tag_admissible_def)
  then show ?thesis
    using assms(1) admissible_record [OF assms(2), of g "nf_tnf (t_ndef ev)" "nf_type (t_ndef ev)" "nf_id (t_ndef ev)"]
    by (cases "tr_stage r") (simp_all add: tag_live_def tag_read_step_def less_early less_get_all less_records
        less_auth less_read del: One_nat_def)
qed

interpretation tag_reading: terminating_machine "tag_machine g w" tag_live is_free "tag_admissible w B" "tag_fuel B"
  for g w B
proof
  fix r :: tag_read and e :: "nfcd_client \<times> tag_event"
  obtain c ev where e: "e = (c, ev)" by (cases e)
  show "tag_machine g w r e = (r, [])" if "\<not> tag_live r"
    using that by (auto simp: tag_machine_def tag_live_def tag_read_step_def)
  assume live: "tag_live r" and adm: "tag_admissible w B e"
  note ends = ends_step [OF live adm [unfolded e], of g]
  show "filter is_free (snd (tag_machine g w r e)) = []" if "tag_live (fst (tag_machine g w r e))"
    using that ends by (auto simp: tag_machine_def tag_live_def ends_well_def e)
  show "length (filter is_free (snd (tag_machine g w r e))) = 1" if "\<not> tag_live (fst (tag_machine g w r e))"
    using that ends by (auto simp: tag_machine_def tag_live_def ends_well_def e)
  show "tag_fuel B (fst (tag_machine g w r e)) < tag_fuel B r" if "tag_live (fst (tag_machine g w r e))"
    using that fuel_step [OF live adm [unfolded e], of g] fuel_pos [OF live, of B]
    by (auto simp: tag_machine_def at_most_def e)
qed

lemma never_wild:
  "tr_stage r \<noteq> T_Wild \<Longrightarrow> list_all (tag_admissible w B) evs \<Longrightarrow>
    tr_stage (fst (run (tag_machine g w) r evs)) \<noteq> T_Wild"
proof (induction evs arbitrary: r)
  case (Cons e evs)
  have "tr_stage (fst (tag_machine g w r e)) \<noteq> T_Wild"
  proof (cases "tag_live r")
    case True
    then show ?thesis
      using ends_step [of r w B "fst e" "snd e" g] Cons.prems(2) by (auto simp: tag_machine_def ends_well_def)
  qed (use Cons.prems(1) in \<open>simp add: tag_reading.dead_step\<close>)
  with Cons show ?case by (simp add: run_fst_Cons del: run.simps)
qed simp

text \<open>
  C13.  A tag read is freed exactly once, and it is over after a bounded number of callbacks, whatever
  they deliver and however the client changes in between: with at most \<open>B\<close> records
  announced, after \<open>max 656 (2 * B + 4) + 2\<close>, where 656 is the longest MIFARE sweep.
\<close>

theorem tag_read_freed_once:
  assumes "length evs > max 656 (2 * B + 4) + 2"
    and "\<forall>e \<in> set evs. length (ti_records (t_info (snd e))) \<le> B
      \<and> length (nf_payload (t_ndef (snd e))) + ndef_slack \<le> 2 ^ w"
  shows "tr_stage (fst (run (tag_machine g w) (tag_read_new path) evs)) = T_Done
    \<and> length (filter is_free (snd (run (tag_machine g w) (tag_read_new path) evs))) = 1"
proof -
  have adm: "list_all (tag_admissible w B) evs" using assms(2) by (simp add: list_all_iff tag_admissible_def)
  have live: "tag_live (tag_read_new path)" by (simp add: tag_live_def tag_read_new_def)
  have fuel: "tag_fuel B (tag_read_new path) < length evs"
    using assms(1) by (simp add: tag_fuel_def tag_read_new_def sweep_work Let_def)
  show ?thesis
    using tag_reading.exactly_one_reply [OF live fuel adm, of g] tag_reading.run_terminates [OF fuel adm, of g]
      never_wild [of "tag_read_new path", OF _ adm, of g]
    by (simp add: tag_live_def tag_read_new_def)
qed

text \<open>A tag that fails at nothing: a MIFARE Classic card all of whose sectors can be read.\<close>

definition mifare_event :: tag_event where
  "mifare_event = \<lparr>t_ok = True, t_cancelled = False,
     t_info = \<lparr>ti_present = True, ti_technology = 1, ti_protocol = 64, ti_type = 2, ti_interfaces = [],
       ti_records = [], ti_params = [(''NFCID1'', V_Bytes [1, 2, 3, 4])]\<rparr>,
     t_ndef = \<lparr>nf_tnf = 0, nf_type = [], nf_id = [], nf_payload = []\<rparr>, t_data = replicate 16 0\<rparr>"

theorem tag_read_freed_once_witness:
  "tr_stage (fst (run (tag_machine demo_glib 64) (tag_read_new (str ''/nfc0/tag0''))
      (replicate 659 (demo_client, mifare_event)))) = T_Done"
  using tag_read_freed_once [of 0 "replicate 659 (demo_client, mifare_event)" 64 demo_glib "str ''/nfc0/tag0''"]
  by (simp add: mifare_event_def ndef_slack_def)

section \<open>Blocks and keys of the MIFARE sweep\<close>

lemma sector_blocks:
  "s < 40 \<Longrightarrow> mifare_sector_first_block s + mifare_sector_block_count s \<le> 256"
  "mifare_sector_first_block (Suc s) = mifare_sector_first_block s + mifare_sector_block_count s"
  by (auto simp: mifare_sector_first_block_def mifare_sector_block_count_def)

definition keys_of_six :: "nfcd_client \<Rightarrow> bool" where
  "keys_of_six c \<longleftrightarrow> (\<forall>uid s k. mifare_cache_lookup c (Some uid) s = Some k \<longrightarrow> length k = MIFARE_KEY_LEN)"

definition in_sector_cmd :: "bytes \<Rightarrow> bool" where
  "in_sector_cmd cmd \<longleftrightarrow> (\<exists>s < MIFARE_NUM_SECTORS.
     (\<exists>k. length k = MIFARE_KEY_LEN \<and> mifare_sector_first_block s < 256
        \<and> cmd = [0x60, byte_of (mifare_sector_first_block s), 0, 0, 0, 0] @ k)
     \<or> (\<exists>n < mifare_sector_block_count s. mifare_sector_first_block s + n < 256
        \<and> cmd = [0x30, byte_of (mifare_sector_first_block s + n)]))"

definition mifare_ok :: "tag_read \<Rightarrow> bool" where
  "mifare_ok r \<longleftrightarrow> (tr_stage r \<in> {T_MfAuth, T_MfRead} \<longrightarrow> mifare_sector r < MIFARE_NUM_SECTORS
     \<and> length (mifare_key r) = MIFARE_KEY_LEN \<and> mifare_auth_type r = 0)
   \<and> (tr_stage r = T_MfRead \<longrightarrow> mifare_block_offset r < mifare_sector_block_count (mifare_sector r))"

definition mifare_good :: "tag_step \<Rightarrow> bool" where
  "mifare_good s \<longleftrightarrow> mifare_ok (fst (snd s))
     \<and> (\<forall>cmd. OutCall (TagTransceive cmd) \<in> set (snd (snd s)) \<longrightarrow> in_sector_cmd cmd)"

lemma mifare_good_plain:
  "mifare_good (tag_read_free c r)" "mifare_good (tag_read_finish c r)"
  "st \<notin> {T_MfAuth, T_MfRead} \<Longrightarrow> (\<And>cmd. call \<noteq> TagTransceive cmd) \<Longrightarrow> mifare_good (tag_wait c r call st)"
  by (auto simp: mifare_good_def mifare_ok_def tag_read_free_def tag_read_finish_def Let_def tag_wait_def)

lemma mifare_good_auth:
  assumes "mifare_sector r < MIFARE_NUM_SECTORS" "mifare_auth_type r = 0" "length k = MIFARE_KEY_LEN"
  shows "mifare_good (mifare_send_auth c r k)"
proof -
  have "mifare_sector_first_block (mifare_sector r) < 256"
    using sector_blocks(1) [of "mifare_sector r"] assms(1) by (simp add: MIFARE_NUM_SECTORS_def mifare_sector_block_count_def split: if_splits)
  with assms show ?thesis
    by (auto simp: mifare_good_def mifare_ok_def mifare_send_auth_def tag_wait_def mifare_auth_cmd_def in_sector_cmd_def)
qed

lemma mifare_good_block:
  assumes "mifare_sector r < MIFARE_NUM_SECTORS" "mifare_auth_type r = 0" "length (mifare_key r) = MIFARE_KEY_LEN"
    "mifare_block_offset r < mifare_sector_block_count (mifare_sector r)"
  shows "mifare_good (mifare_read_block c r (mifare_sector_first_block (mifare_sector r) + mifare_block_offset r))"
proof -
  have "mifare_sector_first_block (mifare_sector r) + mifare_block_offset r < 256"
    using assms sector_blocks(1) [of "mifare_sector r"] by (simp add: MIFARE_NUM_SECTORS_def)
  with assms have "in_sector_cmd [0x30, byte_of (mifare_sector_first_block (mifare_sector r) + mifare_block_offset r)]"
    unfolding in_sector_cmd_def by blast
  with assms show ?thesis by (simp add: mifare_good_def mifare_ok_def mifare_read_block_def tag_wait_def)
qed

lemma default_key_length: "n < 4 \<Longrightarrow> length (mifare_default_keys ! n) = MIFARE_KEY_LEN"
  by (auto simp: mifare_default_keys_def MIFARE_KEY_LEN_def less_Suc_eq numeral_eq_Suc)

lemma publish_facts:
  "mifare_key_cache (fst (mifare_publish_progress c r)) = mifare_key_cache c"
  "OutCall call \<notin> set (snd (mifare_publish_progress c r))"
  by (auto simp: mifare_publish_progress_def Let_def)

lemma mifare_good_next_sector:
  assumes "keys_of_six c"
  shows "mifare_good (tag_read_mifare_next_sector c r)"
proof (cases "tr_attached r \<and> mifare_sector r < MIFARE_NUM_SECTORS")
  case False
  then show ?thesis by (auto simp: tag_read_mifare_next_sector_def mifare_good_plain)
next
  case True
  obtain c1 outs where p: "mifare_publish_progress c r = (c1, outs)" by fastforce
  let ?r = "r\<lparr>mifare_key_index := 0, mifare_auth_type := 0, mifare_cached_attempt := False\<rparr>"
  let ?s = "case mifare_try_cached_key c1 ?r of Some s \<Rightarrow> s | None \<Rightarrow> mifare_send_auth c1 ?r (mifare_default_keys ! 0)"
  have "keys_of_six c1" using assms publish_facts(1) [of c r] p by (simp add: keys_of_six_def mifare_cache_lookup_def)
  then have "mifare_good ?s"
    using True unfolding mifare_try_cached_key_def
    by (auto intro!: mifare_good_auth default_key_length simp: keys_of_six_def mifare_cache_lookup_def split: option.splits)
  moreover have "OutCall call \<notin> set outs" for call using publish_facts(2) [of call c r] p by simp
  ultimately show ?thesis
    using True p by (auto simp: tag_read_mifare_next_sector_def Let_def mifare_good_def split: prod.split)
qed

lemma mifare_good_try_key:
  "keys_of_six c \<Longrightarrow> mifare_sector r < MIFARE_NUM_SECTORS \<Longrightarrow> mifare_auth_type r = 0 \<Longrightarrow>
    mifare_good (tag_read_mifare_try_key c r)"
  by (auto simp: tag_read_mifare_try_key_def mifare_good_plain mifare_default_keys_def
      intro!: mifare_good_next_sector mifare_good_auth default_key_length [unfolded mifare_default_keys_def])

lemma mifare_good_next_attempt:
  "keys_of_six c \<Longrightarrow> mifare_sector r < MIFARE_NUM_SECTORS \<Longrightarrow> mifare_auth_type r = 0 \<Longrightarrow>
    mifare_good (mifare_next_attempt c r)"
  by (simp add: mifare_next_attempt_def mifare_good_try_key)

lemma cache_store_lookup:
  "mifare_cache_lookup (mifare_cache_store c (Some u) s k) (Some u') s' =
     (if u' = u \<and> s' = s then Some k else mifare_cache_lookup c (Some u') s')"
  by (auto simp: mifare_cache_lookup_def mifare_cache_store_def Let_def split: option.split)

lemma keys_of_six_store: "keys_of_six c \<Longrightarrow> length k = MIFARE_KEY_LEN \<Longrightarrow> keys_of_six (mifare_cache_store c uid s k)"
  by (cases uid) (auto simp: keys_of_six_def cache_store_lookup, simp add: mifare_cache_store_def)

lemma mifare_good_sector_done:
  "keys_of_six c \<Longrightarrow> length (mifare_key r) = MIFARE_KEY_LEN \<Longrightarrow> mifare_good (mifare_sector_done c r)"
  by (simp add: mifare_sector_done_def Let_def mifare_good_next_sector keys_of_six_store)

lemma mifare_good_records: "mifare_good (tag_read_next_record c r)"
  by (auto simp: tag_read_next_record_def tag_read_raw_data_def mifare_good_plain)

lemma mifare_good_step:
  assumes "mifare_ok r" "keys_of_six c"
  shows "mifare_good (tag_read_step g w c r ev)"
proof (cases "tr_stage r")
  case T_MfAuth
  then show ?thesis
    using assms mifare_good_block [of "r\<lparr>mifare_block_offset := 0, mifare_blocks_arr := []\<rparr>" c]
    by (auto simp: tag_read_step_def mifare_auth_ready_def mifare_ok_def mifare_good_plain mifare_good_next_attempt
        mifare_sector_block_count_def)
next
  case T_MfRead
  have "mifare_good (mifare_read_block c (r\<lparr>mifare_blocks_arr := x, mifare_block_offset := Suc (mifare_block_offset r)\<rparr>)
      (mifare_sector_first_block (mifare_sector r) + Suc (mifare_block_offset r)))"
    if "Suc (mifare_block_offset r) < mifare_sector_block_count (mifare_sector r)" for x
    using mifare_good_block [of "r\<lparr>mifare_blocks_arr := x, mifare_block_offset := Suc (mifare_block_offset r)\<rparr>" c]
      that assms T_MfRead by (simp add: mifare_ok_def)
  then show ?thesis
    using assms T_MfRead
    by (auto simp: tag_read_step_def mifare_block_read_ready_def mifare_ok_def mifare_good_plain Let_def
        not_le intro!: mifare_good_next_attempt mifare_good_sector_done)
next
  case T_GetAll
  have "keys_of_six (c\<lparr>tag_protocol := x\<rparr>)" for x using assms(2) by (simp add: keys_of_six_def mifare_cache_lookup_def)
  with T_GetAll show ?thesis
    by (simp add: tag_read_step_def tag_get_all_ready_def mifare_good_plain mifare_good_records
        tag_read_mifare_start_def mifare_good_next_sector Let_def)
next
  case T_NdefGetAll
  then show ?thesis
    by (auto simp: tag_read_step_def ndef_get_all_ready_def mifare_good_plain mifare_good_records split: option.split)
      (simp add: mifare_good_def mifare_ok_def)
next
  case T_Done
  then show ?thesis using assms(1) by (simp add: tag_read_step_def mifare_good_def)
next
  case T_Wild
  then show ?thesis using assms(1) by (simp add: tag_read_step_def mifare_good_def)
qed (auto simp: tag_read_step_def tag_proxy_ready_def ndef_proxy_ready_def raw_data_proxy_ready_def
    raw_data_ready_def mifare_good_plain mifare_good_records)

interpretation mifare_states: invariant_machine
  "\<lambda>r e. if keys_of_six (fst e) then tag_machine g w r e else (r, [])" mifare_ok for g w
proof
  show "mifare_ok (fst (if keys_of_six (fst e) then tag_machine g w r e else (r, [])))" if "mifare_ok r" for r e
    using mifare_good_step [OF that, of "fst e" g w "snd e"] that by (simp add: mifare_good_def tag_machine_def)
qed

text \<open>What a step of the read does to the cache of keys.\<close>

definition cache_same :: "nfcd_client \<Rightarrow> tag_step \<Rightarrow> bool" where
  "cache_same c s \<longleftrightarrow> mifare_key_cache (fst s) = mifare_key_cache c"

lemma cache_same_plain:
  "cache_same c (tag_read_free c r)" "cache_same c (tag_read_finish c r)" "cache_same c (tag_wait c r call st)"
  "cache_same c (mifare_send_auth c r k)" "cache_same c (mifare_read_block c r b)"
  by (simp_all add: cache_same_def tag_read_free_def tag_read_finish_def Let_def tag_wait_def mifare_send_auth_def
      mifare_read_block_def)

lemma cache_same_next_sector: "cache_same c (tag_read_mifare_next_sector c r)"
  by (auto simp: tag_read_mifare_next_sector_def cache_same_plain mifare_publish_progress_def Let_def
      mifare_try_cached_key_def Let_def split: option.split)
    (simp_all add: cache_same_def mifare_send_auth_def tag_wait_def)

lemma cache_same_next_attempt: "cache_same c (mifare_next_attempt c r)"
  by (simp add: mifare_next_attempt_def tag_read_mifare_try_key_def cache_same_plain cache_same_next_sector)

lemma cache_sector_done:
  "mifare_key_cache (fst (mifare_sector_done c r)) =
     mifare_key_cache (mifare_cache_store c (mifare_uid r) (mifare_sector r) (mifare_key r))"
  using cache_same_next_sector by (simp add: mifare_sector_done_def Let_def cache_same_def)

lemma cache_same_records: "cache_same c (tag_read_next_record c r)"
  by (simp add: tag_read_next_record_def tag_read_raw_data_def cache_same_plain)

lemma cache_same_get_all: "cache_same c (tag_get_all_ready c r ev)"
proof -
  have "cache_same c (tag_read_mifare_start (c\<lparr>tag_protocol := x\<rparr>) r')" for x r'
    using cache_same_next_sector [of "c\<lparr>tag_protocol := x\<rparr>"]
    by (simp add: tag_read_mifare_start_def cache_same_def)
  moreover have "cache_same c (tag_read_next_record (c\<lparr>tag_protocol := x\<rparr>) r')" for x r'
    using cache_same_records [of "c\<lparr>tag_protocol := x\<rparr>"] by (simp add: cache_same_def)
  ultimately show ?thesis
    by (simp add: tag_get_all_ready_def Let_def cache_same_plain) (simp add: cache_same_def tag_read_free_def)
qed

lemma cache_step_other:
  assumes "tr_stage r \<noteq> T_MfRead"
  shows "cache_same c (tag_read_step g w c r ev)"
  using assms
  by (cases "tr_stage r")
    (auto simp: tag_read_step_def tag_proxy_ready_def ndef_proxy_ready_def ndef_get_all_ready_def
      raw_data_proxy_ready_def raw_data_ready_def mifare_auth_ready_def cache_same_plain cache_same_records
      cache_same_get_all cache_same_next_attempt split: option.split,
      simp_all add: cache_same_def tag_read_free_def)

lemma cache_step_read:
  assumes "mifare_key_cache (fst (mifare_block_read_ready c r ev)) \<noteq> mifare_key_cache c"
  shows "mifare_key_cache (fst (mifare_block_read_ready c r ev)) =
      mifare_key_cache (mifare_cache_store c (mifare_uid r) (mifare_sector r) (mifare_key r))
    \<and> (t_ok ev \<and> length (t_data ev) = 16 \<or> 0 < mifare_block_offset r)"
  using assms cache_same_plain [of c] cache_same_next_attempt [of c]
  by (auto simp: mifare_block_read_ready_def Let_def cache_sector_done cache_same_def split: if_splits)

lemma keys_of_six_cache: "mifare_key_cache c' = mifare_key_cache c \<Longrightarrow> keys_of_six c \<Longrightarrow> keys_of_six c'"
  by (simp add: keys_of_six_def mifare_cache_lookup_def)

lemma keys_of_six_step:
  assumes "mifare_ok r" "keys_of_six c"
  shows "keys_of_six (fst (tag_read_step g w c r ev))"
proof (cases "mifare_key_cache (fst (tag_read_step g w c r ev)) = mifare_key_cache c")
  case False
  then have st: "tr_stage r = T_MfRead" using cache_step_other by (auto simp: cache_same_def)
  with False have "mifare_key_cache (fst (tag_read_step g w c r ev)) =
      mifare_key_cache (mifare_cache_store c (mifare_uid r) (mifare_sector r) (mifare_key r))"
    using cache_step_read [of c r ev] by (simp add: tag_read_step_def)
  then show ?thesis
    by (rule keys_of_six_cache) (use assms st in \<open>simp add: keys_of_six_store mifare_ok_def\<close>)
qed (use assms keys_of_six_cache in blast)


text \<open>The last block of sector 0 of a card arrives, read with the factory key.\<close>

definition last_block_read :: tag_read where
  "last_block_read = (tag_read_new (str ''/nfc0/tag0''))
     \<lparr>tr_stage := T_MfRead, mifare_uid := Some (str ''01020304''), mifare_block_offset := 3,
      mifare_key := replicate 6 0xff\<rparr>"


end
