(* ===== verification/Tag_Read_Run.thy ===== *)
theory Tag_Read_Run
  imports Tag_Read_Facts
begin

text \<open>
  What a completed read publishes: the JSON of the tag with every record that could be read,
  in order, and the raw data of a Type 2 tag.
\<close>

section \<open>The read together with its client\<close>

definition tag_world_step ::
    "glib_utf \<Rightarrow> nat \<Rightarrow> nfcd_client \<times> tag_read \<Rightarrow> tag_event \<Rightarrow> (nfcd_client \<times> tag_read) \<times> tag_out list" where
  "tag_world_step g w s ev =
     (let (client, read, outs) = tag_read_step g w (fst s) (snd s) ev in ((client, read), outs))"

definition blank_info :: tag_info where
  "blank_info = \<lparr>ti_present = False, ti_technology = 0, ti_protocol = 0, ti_type = 0, ti_interfaces = [],
     ti_records = [], ti_params = []\<rparr>"

definition blank_fields :: ndef_fields where
  "blank_fields = \<lparr>nf_tnf = 0, nf_type = [], nf_id = [], nf_payload = []\<rparr>"

definition call_ok :: tag_event where
  "call_ok = \<lparr>t_ok = True, t_cancelled = False, t_info = blank_info, t_ndef = blank_fields, t_data = []\<rparr>"

definition call_failed :: tag_event where
  "call_failed = call_ok\<lparr>t_ok := False\<rparr>"

text \<open>
  The results for one record: its proxy cannot be created, its proxy answers with an error,
  or it delivers the record.
\<close>

datatype record_result = NoProxy | NoReply | Record ndef_fields

fun record_events :: "record_result \<Rightarrow> tag_event list" where
  "record_events NoProxy = [call_failed]"
| "record_events NoReply = [call_ok, call_failed]"
| "record_events (Record f) = [call_ok, call_ok\<lparr>t_ndef := f\<rparr>]"

definition record_json :: "glib_utf \<Rightarrow> nat \<Rightarrow> ndef_fields \<Rightarrow> jvalue option" where
  "record_json g w f = ndef_record_to_json g w (nf_tnf f) (nf_type f) (nf_id f) (nf_payload f)"

fun records_read :: "glib_utf \<Rightarrow> nat \<Rightarrow> record_result list \<Rightarrow> jvalue list" where
  "records_read g w [] = []"
| "records_read g w (Record f # rs) = the (record_json g w f) # records_read g w rs"
| "records_read g w (_ # rs) = records_read g w rs"

fun small_record :: "nat \<Rightarrow> record_result \<Rightarrow> bool" where
  "small_record w (Record f) \<longleftrightarrow> length (nf_payload f) + ndef_slack \<le> 2 ^ w"
| "small_record w _ \<longleftrightarrow> True"

definition raw_events :: "bool \<Rightarrow> bytes \<Rightarrow> tag_event list" where
  "raw_events rw raw = (if rw then [call_ok, call_ok\<lparr>t_data := raw\<rparr>] else [])"

definition with_raw :: "bool \<Rightarrow> bytes \<Rightarrow> jvalue \<Rightarrow> jvalue" where
  "with_raw rw raw obj = (if rw then jobject_put ''rawDataHex'' (JStr (ndef_bytes_to_hex raw)) obj else obj)"

section \<open>Walking over the records\<close>

text \<open>
  \<open>walking k r\<close>: the read has dealt with \<open>k\<close> records and is about to wait for the next
  call, the one \<open>tag_read_next_record\<close> makes.
\<close>

definition next_state :: "nfcd_client \<Rightarrow> tag_read \<Rightarrow> nfcd_client \<times> tag_read" where
  "next_state c r = (let (c', r', outs) = tag_read_next_record c r in (c', r'))"

definition published :: "bool \<Rightarrow> bytes \<Rightarrow> jvalue list \<Rightarrow> jvalue \<Rightarrow> nfcd_client \<times> tag_read \<Rightarrow> bool" where
  "published rw raw recs obj s \<longleftrightarrow> tr_stage (snd s) = T_Done \<and> reading (fst s) = None \<and> tag_is_type2 (fst s) = rw
     \<and> tag_json (fst s) = Some (jobject_put ''records'' (JArr recs) (with_raw rw raw obj))"

lemma raw_run:
  assumes "tr_attached r" "record_index r \<ge> length (record_paths r)"
  shows "published (is_type2 r) raw (records_arr r) (tag_obj r)
    (fst (run (tag_world_step g w) (next_state c r) (raw_events (is_type2 r) raw)))"
  using assms
  by (simp add: next_state_def tag_read_next_record_def tag_read_raw_data_def raw_events_def tag_read_finish_def Let_def
      published_def with_raw_def tag_wait_def tag_world_step_def tag_read_step_def raw_data_proxy_ready_def
      raw_data_ready_def call_ok_def Let_def)

lemma record_step:
  assumes "tr_attached r" "record_index r < length (record_paths r)" "small_record w res"
  shows "fst (run (tag_world_step g w) (next_state c r) (record_events res)) =
    next_state c (r\<lparr>tr_stage := (if res = NoProxy then T_NdefProxy else T_NdefGetAll),
      records_arr := records_arr r @ records_read g w [res], record_index := record_index r + 1\<rparr>)"
proof (cases res)
  case (Record f)
  then obtain j where j: "record_json g w f = Some j"
    using ndef_safe_mutual(1) [of "nf_payload f" w g "nf_tnf f" "nf_type f" "nf_id f"] assms(3)
    by (auto simp: record_json_def)
  with Record assms show ?thesis
    by (simp add: next_state_def tag_read_next_record_def tag_wait_def tag_world_step_def tag_read_step_def
        ndef_proxy_ready_def ndef_get_all_ready_def call_ok_def record_json_def Let_def split: prod.split)
qed (use assms in \<open>simp_all add: next_state_def tag_read_next_record_def tag_wait_def tag_world_step_def
  tag_read_step_def ndef_proxy_ready_def ndef_get_all_ready_def call_ok_def call_failed_def Let_def split: prod.split\<close>)

lemma records_read_Cons: "records_read g w (res # rs) = records_read g w [res] @ records_read g w rs"
  by (cases res) simp_all

lemma run_fst_append: "fst (run step s (es @ fs)) = fst (run step (fst (run step s es)) fs)"
  by (simp add: run_append Let_def split: prod.split)

lemma records_run:
  assumes "tr_attached r" "length (record_paths r) = record_index r + length rs" "list_all (small_record w) rs"
  shows "published (is_type2 r) raw (records_arr r @ records_read g w rs) (tag_obj r)
    (fst (run (tag_world_step g w) (next_state c r) (concat (map record_events rs) @ raw_events (is_type2 r) raw)))"
  using assms
proof (induction rs arbitrary: r)
  case Nil
  then show ?case using raw_run [of r raw g w c] by simp
next
  case (Cons res rs)
  let ?r = "r\<lparr>tr_stage := (if res = NoProxy then T_NdefProxy else T_NdefGetAll),
      records_arr := records_arr r @ records_read g w [res], record_index := record_index r + 1\<rparr>"
  have "fst (run (tag_world_step g w) (next_state c r)
      (concat (map record_events (res # rs)) @ raw_events (is_type2 r) raw)) =
    fst (run (tag_world_step g w) (next_state c ?r) (concat (map record_events rs) @ raw_events (is_type2 ?r) raw))"
    using record_step [of r w res g c] Cons.prems
    by (simp add: run_fst_append)
  moreover have "published (is_type2 ?r) raw (records_arr ?r @ records_read g w rs) (tag_obj ?r)
      (fst (run (tag_world_step g w) (next_state c ?r) (concat (map record_events rs) @ raw_events (is_type2 ?r) raw)))"
    by (rule Cons.IH) (use Cons.prems in simp_all)
  ultimately show ?case by (subst records_read_Cons) simp
qed

text \<open>
  C21.  A read of a tag that is not MIFARE Classic, for which nfcd announces its records and
  then each record is delivered or not (no proxy, or an error), publishes the JSON of the tag
  with exactly the delivered records, in their order, with the raw data if it is a Type 2 tag;
  the client is then reading no more and knows whether the tag is writable.
\<close>

theorem tag_read_publishes:
  assumes "ti_type ti \<noteq> NFC_TAG_TYPE_MIFARE_CLASSIC" and "length (ti_records ti) = length rs"
    and "\<forall>res \<in> set rs. small_record w res"
    and "rw \<longleftrightarrow> TAG_IFACE_TYPE2 \<in> set (ti_interfaces ti)"
    and "s = fst (run (tag_world_step g w) (c, tag_read_new path)
      ([call_ok, call_ok\<lparr>t_info := ti\<rparr>] @ concat (map record_events rs) @ raw_events rw raw))"
  shows "tag_json (fst s) =
      Some (jobject_put ''records'' (JArr (records_read g w rs)) (with_raw rw raw (tag_info_json path ti)))
    \<and> tag_is_type2 (fst s) = rw \<and> reading (fst s) = None \<and> tr_stage (snd s) = T_Done"
proof -
  let ?r = "(tag_read_new path)\<lparr>tr_stage := T_GetAll, tag_obj := tag_info_json path ti, is_type2 := rw,
    records_arr := [], record_paths := ti_records ti, record_index := 0, mifare_uid := None\<rparr>"
  have "fst (run (tag_world_step g w) (c, tag_read_new path) [call_ok, call_ok\<lparr>t_info := ti\<rparr>]) =
      next_state (c\<lparr>tag_protocol := ti_protocol ti\<rparr>) ?r"
    using assms(1,4) by (simp add: tag_world_step_def tag_read_step_def tag_read_new_def tag_proxy_ready_def tag_wait_def
        tag_get_all_ready_def call_ok_def next_state_def Let_def split: prod.split)
  then have "s = fst (run (tag_world_step g w) (next_state (c\<lparr>tag_protocol := ti_protocol ti\<rparr>) ?r)
      (concat (map record_events rs) @ raw_events (is_type2 ?r) raw))"
    unfolding assms(5) run_fst_append by simp
  moreover have "tr_attached ?r" by (simp add: tag_read_new_def)
  ultimately show ?thesis
    using records_run [of ?r rs w raw g "c\<lparr>tag_protocol := ti_protocol ti\<rparr>"] assms(2,3)
    by (simp add: published_def list_all_iff)
qed

definition type2_info :: tag_info where
  "type2_info = blank_info\<lparr>ti_present := True, ti_technology := 1, ti_protocol := 2, ti_type := 1,
     ti_interfaces := [TAG_IFACE_TYPE2], ti_records := [str ''/r0'', str ''/r1'']\<rparr>"

definition text_fields :: ndef_fields where
  "text_fields = \<lparr>nf_tnf = 1, nf_type = str ''T'', nf_id = [], nf_payload = [0x02, 0x65, 0x6e, 0x68, 0x69]\<rparr>"

theorem tag_read_publishes_witness:
  "tag_json (fst (fst (run (tag_world_step demo_glib 64) (demo_client, tag_read_new (str ''/t''))
      ([call_ok, call_ok\<lparr>t_info := type2_info\<rparr>] @ concat (map record_events [NoReply, Record text_fields])
        @ raw_events True [1, 2, 3])))) =
    Some (jobject_put ''records'' (JArr [the (record_json demo_glib 64 text_fields)])
      (with_raw True [1, 2, 3] (tag_info_json (str ''/t'') type2_info)))"
  using tag_read_publishes [where ti = type2_info and rs = "[NoReply, Record text_fields]" and w = 64 and rw = True
      and g = demo_glib and c = demo_client and path = "str ''/t''" and raw = "[1, 2, 3]", OF _ _ _ _ refl]
  by (simp add: type2_info_def blank_info_def text_fields_def ndef_slack_def NFC_TAG_TYPE_MIFARE_CLASSIC_def)

end
