(* ===== verification/Hce_Facts.thy ===== *)
theory Hce_Facts
  imports Hce Ndef_Facts
begin

text \<open>
  The table of profiles stays well formed, a reader always gets the payload last given for
  its AID and a fresh non-zero response id, every call of the service is answered, and the
  places where the code loses track of a registration.
\<close>

section \<open>Answers to a reader\<close>

text \<open>
  A reader that selects gets an empty success, one that reads gets the payload, any other
  instruction is refused with 6D00; the payload is not changed, and the response id is never
  0 and never the one of the response before, also when the 32-bit counter wraps.
\<close>

theorem hce_process_answers:
  "hce_handle_process profile ins = (profile', outs) \<Longrightarrow>
     \<exists>i. i \<noteq> 0 \<and> i \<noteq> next_response_id profile
       \<and> profile' = profile\<lparr>next_response_id := i\<rparr>
       \<and> outs = [if ins = 0xA4 then HceAnswer [] 0x90 0x00 i
          else if ins \<in> {0xB0, 0xCA} then HceAnswer (payload profile) 0x90 0x00 i
          else HceAnswer [] 0x6D 0x00 i]"
  by (auto simp: hce_handle_process_def HCE_INS_SELECT_def HCE_INS_READ_BINARY_def HCE_INS_GET_DATA_def Let_def
      split: if_splits)

definition badge :: hce_profile where
  "badge = \<lparr>hp_address = 0, aid_hex = str ''f001'', object_path = str ''/org/webosports/nfc/hce/f001'', skeleton = True,
     payload = [0x42], implicit = False, registered = True, next_response_id = 0xFFFFFFFF\<rparr>"

theorem hce_process_answers_witness:
  "\<exists>i. i \<noteq> 0 \<and> snd (hce_handle_process badge 0xB0) = [HceAnswer [0x42] 0x90 0x00 i]"
  using hce_process_answers [of badge "0xB0", OF prod.collapse [symmetric]] by (auto simp: badge_def)

section \<open>The table\<close>

definition profile_ok :: "bytes \<times> hce_profile \<Rightarrow> bool" where
  "profile_ok e \<longleftrightarrow> fst e = aid_hex (snd e) \<and> object_path (snd e) = NFCD_HCE_OBJECT_PATH @ str ''/'' @ fst e
     \<and> skeleton (snd e) \<and> (\<exists>aid. aid \<noteq> [] \<and> fst e = ndef_bytes_to_hex aid)"

abbreviation addresses :: "(bytes \<times> hce_profile) list \<Rightarrow> nat list" where
  "addresses xs \<equiv> map (\<lambda>e. hp_address (snd e)) xs"

definition table_ok :: "nat \<Rightarrow> (bytes \<times> hce_profile) list \<Rightarrow> bool" where
  "table_ok n xs \<longleftrightarrow> distinct (map fst xs) \<and> list_all profile_ok xs
     \<and> distinct (addresses xs) \<and> list_all (\<lambda>e. hp_address (snd e) < n) xs"

text \<open>Replacing the value of a key that is there, and adding one that is not.\<close>

lemma update_present:
  "map_of xs k = Some v \<Longrightarrow> \<exists>ys zs. xs = ys @ (k, v) # zs \<and> AList.update k v' xs = ys @ (k, v') # zs"
proof (induction xs)
  case (Cons x xs)
  obtain a b where x: "x = (a, b)" by (cases x)
  show ?case
  proof (cases "a = k")
    case True
    with Cons.prems x show ?thesis by (intro exI [of _ "[]"] exI [of _ xs]) simp
  next
    case False
    with Cons x obtain ys zs where "xs = ys @ (k, v) # zs" "AList.update k v' xs = ys @ (k, v') # zs" by auto
    with False x show ?thesis by (intro exI [of _ "x # ys"] exI [of _ zs]) simp
  qed
qed simp

lemma update_absent: "map_of xs k = None \<Longrightarrow> AList.update k v xs = xs @ [(k, v)]"
  by (induction xs) (auto split: if_splits)

lemma profile_ok_cong:
  "aid_hex p' = aid_hex p \<Longrightarrow> object_path p' = object_path p \<Longrightarrow> skeleton p' = skeleton p \<Longrightarrow>
    profile_ok (k, p') = profile_ok (k, p)"
  by (simp add: profile_ok_def)

lemma table_ok_update:
  assumes "table_ok n xs" "map_of xs k = Some p"
    and "hp_address p' = hp_address p" "aid_hex p' = aid_hex p" "object_path p' = object_path p" "skeleton p' = skeleton p"
  shows "table_ok n (AList.update k p' xs)"
proof -
  obtain ys zs where xs: "xs = ys @ (k, p) # zs" "AList.update k p' xs = ys @ (k, p') # zs"
    using update_present [OF assms(2), of p'] by auto
  have "table_ok n (ys @ (k, p') # zs)"
    using assms(1,3) profile_ok_cong [OF assms(4-6), of k] unfolding xs(1) table_ok_def by simp
  then show ?thesis unfolding xs(2) .
qed

lemma table_ok_add:
  assumes "table_ok n xs" "map_of xs k = None" "profile_ok (k, p)" "hp_address p = n"
  shows "table_ok (Suc n) (AList.update k p xs)"
proof -
  have "k \<notin> fst ` set xs" using assms(2) by (metis map_of_eq_None_iff)
  moreover have "n \<notin> set (addresses xs)" using assms(1) by (auto simp: table_ok_def list_all_iff)
  moreover have "list_all (\<lambda>e. hp_address (snd e) < Suc n) xs" using assms(1) by (auto simp: table_ok_def list_all_iff)
  ultimately show ?thesis
    using assms(1,3,4) unfolding update_absent [OF assms(2)] table_ok_def by simp
qed

lemma table_ok_mono: "table_ok n xs \<Longrightarrow> table_ok (Suc n) xs"
  by (auto simp: table_ok_def list_all_iff)

lemma table_ok_delete: "table_ok n xs \<Longrightarrow> table_ok n (AList.delete k xs)"
  by (auto simp: table_ok_def list_all_iff AList.delete_eq distinct_map inj_on_def)

lemma table_ok_flag:
  assumes "table_ok n xs"
  shows "table_ok n (map (\<lambda>(k, p). (k, if hp_address p = a then p\<lparr>registered := x\<rparr> else p)) xs)"
    (is "table_ok n (map ?f xs)")
proof -
  have same: "fst (?f e) = fst e" "hp_address (snd (?f e)) = hp_address (snd e)" "profile_ok (?f e) = profile_ok e" for e
    by (cases e; simp add: profile_ok_def)+
  have "map fst (map ?f xs) = map fst xs" "addresses (map ?f xs) = addresses xs"
    by (simp_all only: map_map comp_def same)
  then show ?thesis
    using assms unfolding table_ok_def by (simp only: list.pred_map comp_def same)
qed

definition hce_ok :: "hce_state \<Rightarrow> bool" where
  "hce_ok s \<longleftrightarrow> table_ok (hs_next s) (hce_profiles (hs_client s))"

lemma profile_ok_new:
  "a \<noteq> [] \<Longrightarrow> profile_ok (ndef_bytes_to_hex a, \<lparr>hp_address = n, aid_hex = ndef_bytes_to_hex a,
     object_path = NFCD_HCE_OBJECT_PATH @ str ''/'' @ ndef_bytes_to_hex a, skeleton = True, payload = d, implicit = i,
     registered = r, next_response_id = x\<rparr>)"
  by (auto simp: profile_ok_def)

lemma add_keeps_table:
  assumes "table_ok n (hce_profiles c)"
  shows "table_ok (Suc n) (hce_profiles (fst (nfcd_client_add_card_emulation_profile c n bus exported aid data impl)))"
proof (cases "aid = None \<or> aid = Some []")
  case True
  then show ?thesis using table_ok_mono [OF assms] by (auto simp: nfcd_client_add_card_emulation_profile_def)
next
  case False
  then obtain a where a: "aid = Some a" "a \<noteq> []" by auto
  let ?hex = "ndef_bytes_to_hex a"
  show ?thesis
  proof (cases "map_of (hce_profiles c) ?hex")
    case None
    then have "table_ok (Suc n) (AList.update ?hex p (hce_profiles c))" if "profile_ok (?hex, p)" "hp_address p = n" for p
      using table_ok_add [OF assms] that by blast
    with None a show ?thesis using table_ok_mono [OF assms]
      by (simp add: nfcd_client_add_card_emulation_profile_def hce_export_skeleton_def profile_ok_new [OF a(2)] Let_def)
  next
    case (Some p)
    then have "table_ok (Suc n) (AList.update ?hex p' (hce_profiles c))"
      if "hp_address p' = hp_address p" "aid_hex p' = aid_hex p" "object_path p' = object_path p" "skeleton p' = skeleton p"
      for p' using table_ok_mono [OF table_ok_update [OF assms Some that]] by simp
    with Some a show ?thesis by (simp add: nfcd_client_add_card_emulation_profile_def Let_def)
  qed
qed

lemma remove_profiles:
  "hce_profiles (fst (nfcd_client_remove_card_emulation_profile c (Some a))) =
     (if a = [] then hce_profiles c else AList.delete (ndef_bytes_to_hex a) (hce_profiles c))"
  by (auto simp: nfcd_client_remove_card_emulation_profile_def Let_def delete_idem map_of_eq_None_iff split: option.split)

lemma remove_keeps_table:
  "table_ok n (hce_profiles c) \<Longrightarrow> table_ok n (hce_profiles (fst (nfcd_client_remove_card_emulation_profile c aid)))"
  by (cases aid) (simp_all add: remove_profiles table_ok_delete, simp add: nfcd_client_remove_card_emulation_profile_def)

lemma process_keeps_table:
  "table_ok n xs \<Longrightarrow> map_of xs k = Some p \<Longrightarrow> table_ok n (AList.update k (fst (hce_handle_process p ins)) xs)"
  by (rule table_ok_update [of n xs k p]) (simp_all add: hce_handle_process_def Let_def split: prod.split)

interpretation hce_table: invariant_machine hce_step hce_ok
proof
  show "hce_ok (fst (hce_step s e))" if "hce_ok s" for s e
  proof (cases e)
    case (H_Add bus exported aid data impl)
    then show ?thesis
      using add_keeps_table [of "hs_next s" "hs_client s" bus exported aid data impl] that
      by (auto simp: hce_ok_def split: prod.split)
  next
    case (H_Remove aid)
    then show ?thesis
      using remove_keeps_table [of "hs_next s" "hs_client s" aid] that by (auto simp: hce_ok_def split: prod.split)
  next
    case H_Clear
    then show ?thesis
      by (auto simp: hce_ok_def nfcd_client_clear_card_emulation_def table_ok_def Let_def)
  next
    case (H_Registered addr err)
    then show ?thesis
      using that by (auto simp: hce_ok_def hce_register_ready_def update_profile_def table_ok_flag split: option.split)
  next
    case (H_Process aid ins)
    then show ?thesis
      using that process_keeps_table by (auto simp: hce_ok_def split: option.split prod.split)
        (metis fst_conv)
  qed (use that in \<open>auto simp: hce_ok_def hce_mode_ready_def hce_handle_response_status_def Let_def split: option.split\<close>)
qed

text \<open>
  C27.  In every state the card emulation can get into from an empty table, whatever the service,
  nfcd and readers do: the profiles are keyed by their own AID in hex, no AID and no profile
  occurs twice, each is exported at the object path of its AID, and none has an empty AID.
\<close>

theorem hce_table_well_formed:
  assumes "hce_profiles (hs_client s) = []"
  shows "table_ok (hs_next (fst (run hce_step s es))) (hce_profiles (hs_client (fst (run hce_step s es))))"
  using hce_table.inv_run [of s es] assms by (simp add: hce_ok_def table_ok_def)

definition hce_start :: hce_state where
  "hce_start = \<lparr>hs_client = demo_client, hs_next = 0, hs_pending = [], hs_wild = False\<rparr>"

theorem hce_table_well_formed_witness:
  "table_ok 1 (hce_profiles (hs_client (fst (hce_step hce_start (H_Add True True (Some [0xf0, 0x01]) (Some [0x42]) False)))))"
  using hce_table_well_formed [of hce_start "[H_Add True True (Some [0xf0, 0x01]) (Some [0x42]) False]"]
  by (simp add: hce_start_def demo_client_def Let_def split: prod.split_asm prod.split)

section \<open>What the service is told\<close>

definition is_hce_reply :: "hce_out \<Rightarrow> bool" where
  "is_hce_reply out \<longleftrightarrow> (case out of HceReply _ _ \<Rightarrow> True | _ \<Rightarrow> False)"

definition is_register :: "hce_out \<Rightarrow> bool" where
  "is_register out \<longleftrightarrow> (case out of HceCall (RegisterLocalHostApp _ _ _ _) \<Rightarrow> True | _ \<Rightarrow> False)"

definition open_answers :: "hce_out list \<Rightarrow> nat" where
  "open_answers outs = length (filter (\<lambda>out. is_hce_reply out \<or> is_register out) outs)"

lemma open_answers_simps [simp]:
  "open_answers [] = 0"
  "open_answers (HceReply b m # outs) = Suc (open_answers outs)"
  "open_answers (HceCall (RegisterLocalHostApp w x y z) # outs) = Suc (open_answers outs)"
  "open_answers (HceCall (UnregisterLocalHostApp x) # outs) = open_answers outs"
  "open_answers (HceCall (DaemonRequestMode n) # outs) = open_answers outs"
  "open_answers (HceCall (DaemonReleaseMode n) # outs) = open_answers outs"
  "open_answers (xs @ ys) = open_answers xs + open_answers ys"
  by (simp_all add: open_answers_def is_hce_reply_def is_register_def)

lemma open_answers_unregister: "open_answers (map (\<lambda>e. HceCall (UnregisterLocalHostApp (f e))) xs) = 0"
  by (induction xs) simp_all

lemma register_answers: "open_answers (hce_do_register c p a) = 1"
  by (simp add: hce_do_register_def)

text \<open>
  Every call of the service to add, remove or clear profiles is answered at once or leaves
  exactly one registration with nfcd in flight, and the completion of that registration
  answers it exactly once, provided the profile is still there.
\<close>

theorem hce_calls_answered:
  "open_answers (fst (snd (nfcd_client_add_card_emulation_profile c addr bus exported aid data impl))) = 1
   \<and> open_answers (snd (nfcd_client_remove_card_emulation_profile c aid)) = 1
   \<and> open_answers (snd (nfcd_client_clear_card_emulation c)) = 1
   \<and> (profile_at addr c \<longrightarrow> (\<exists>c' m. hce_register_ready c addr err = Some (c', [HceReply (err = None) m])))"
proof (intro conjI impI)
  show "open_answers (fst (snd (nfcd_client_add_card_emulation_profile c addr bus exported aid data impl))) = 1"
    by (simp add: nfcd_client_add_card_emulation_profile_def hce_export_skeleton_def register_answers Let_def
        split: option.split)
  show "open_answers (snd (nfcd_client_remove_card_emulation_profile c aid)) = 1"
    by (simp add: nfcd_client_remove_card_emulation_profile_def Let_def split: option.split)
  show "open_answers (snd (nfcd_client_clear_card_emulation c)) = 1"
    by (simp add: nfcd_client_clear_card_emulation_def open_answers_unregister Let_def)
  show "\<exists>c' m. hce_register_ready c addr err = Some (c', [HceReply (err = None) m])" if "profile_at addr c"
    using that by (cases err) (simp_all add: hce_register_ready_def)
qed

theorem hce_calls_answered_witness:
  "profile_at 0 (demo_client\<lparr>hce_profiles := [(str ''f001'', badge)]\<rparr>)
   \<and> (\<exists>c' m. hce_register_ready (demo_client\<lparr>hce_profiles := [(str ''f001'', badge)]\<rparr>) 0 None = Some (c', [HceReply True m]))"
  using hce_calls_answered [of "demo_client\<lparr>hce_profiles := [(str ''f001'', badge)]\<rparr>" 0 True True None None True None]
  by (simp add: profile_at_def badge_def)



section \<open>Where the code loses track\<close>


text \<open>
  Removing a profile while its registration is in flight leaves the completion with a pointer
  to freed memory.
\<close>

lemma hce_remove_in_flight_dangles:
  "hs_wild (fst (run hce_step hce_start
     [H_Add True True (Some [0xf0, 0x01]) None False, H_Remove (Some [0xf0, 0x01]), H_Registered 0 None]))"
  by (simp add: nfcd_client_add_card_emulation_profile_def nfcd_client_remove_card_emulation_profile_def
      hce_register_ready_def profile_at_def hce_export_skeleton_def hce_do_register_def in_flight_def
      hce_start_def demo_client_def Let_def)

text \<open>
  Every added profile requests the card emulation mode anew, but only the last request is
  remembered: clearing releases that one and no other.
\<close>

lemma hce_mode_requests_leak:
  "filter (\<lambda>out. \<exists>n. out = HceCall (DaemonReleaseMode n)) (snd (run hce_step hce_start
     [H_Add True True (Some [0xf0, 0x01]) None False, H_Mode (Some 1),
      H_Add True True (Some [0xf0, 0x02]) None False, H_Mode (Some 2), H_Clear])) =
   [HceCall (DaemonReleaseMode 2)]"
proof -
  have "ndef_bytes_to_hex [0xf0, 0x01] \<noteq> ndef_bytes_to_hex [0xf0, 0x02]" by code_simp
  then show ?thesis
    by (simp add: nfcd_client_add_card_emulation_profile_def nfcd_client_clear_card_emulation_def
        hce_mode_ready_def hce_export_skeleton_def hce_do_register_def in_flight_def
        hce_start_def demo_client_def Let_def)
qed

end
