(* ===== verification/Bac_Facts.thy ===== *)
theory Bac_Facts
  imports Bac
begin

text \<open>
  BAC does what ICAO 9303-11 asks for: key bytes have odd parity, mutual authentication
  succeeds with an honest chip and only with a chip that knows the keys, both sides end
  up with the same session, and the secure messaging layer delivers what the chip sent
  and nothing else.
\<close>

section \<open>Primitives\<close>

definition odd_parity :: "byte \<Rightarrow> bool" where
  "odd_parity b \<longleftrightarrow> odd (length (filter (bit b) [0..<8]))"

lemma upt8: "[0..<8] = [0, 1, 2, 3, 4, 5, 6, 7]"
  by (simp add: upt_rec)

lemma bit_0xFE: "bit (0xFE :: byte) n \<longleftrightarrow> n \<in> {1, 2, 3, 4, 5, 6, 7}"
proof (cases "n < 8")
  case True
  then have "n \<in> set [0..<8]" by simp
  then show ?thesis unfolding upt8 by auto
next
  case False
  then show ?thesis by (auto dest: bit_imp_le_length)
qed

lemma and_mask_iff: "(v AND push_bit n 1 \<noteq> 0) = bit (v :: byte) n"
  by (simp add: and_exp_eq_0_iff_not_bit push_bit_of_1)

lemma parity_byte_odd: "odd_parity (parity_byte b)"
  unfolding odd_parity_def parity_byte_def Let_def upt8 and_mask_iff
  by (simp add: bit_simps bit_0xFE)

lemma parity_byte_rest: "parity_byte b AND 0xFE = b AND 0xFE"
  unfolding parity_byte_def Let_def by (rule bit_eqI) (auto simp: bit_simps bit_0xFE)

text \<open>
  Every derived key is 16 bytes of odd parity, and the parity bit is the only bit
  that differs from the digest.
\<close>

theorem kdf_parity:
  assumes "digest_sizes ossl"
  shows "length (kdf ossl kseed c) = 16 \<and> (\<forall>b \<in> set (kdf ossl kseed c). odd_parity b)
    \<and> map (\<lambda>b. b AND 0xFE) (kdf ossl kseed c) =
        map (\<lambda>b. b AND 0xFE) (take 16 (SHA1 ossl (kseed @ be32 c)))"
  using assms by (auto simp: kdf_def set_key_parity_def digest_sizes_def parity_byte_odd parity_byte_rest)

theorem kdf_parity_witness:
  "length (kdf demo_openssl (replicate 16 0) 1) = 16"
  using kdf_parity [OF demo_digest_sizes] by simp

lemma length_kdf: "digest_sizes ossl \<Longrightarrow> length (kdf ossl kseed c) = 16"
  by (simp add: kdf_def set_key_parity_def digest_sizes_def)

lemma retail_mac_length: "retail_mac ossl key data = Some m \<Longrightarrow> length m = 8"
proof -
  assume "retail_mac ossl key data = Some m"
  then obtain c d where c: "des_cbc ossl key iv0 (bac_iso_pad data) = Some c"
    and d: "des_ecb ossl False (drop 8 key) (drop (length (bac_iso_pad data) - 8) c) = Some d"
    and m: "des_ecb ossl True key d = Some m"
    by (auto simp: retail_mac_def Let_def split: option.splits)
  have "8 \<le> length (bac_iso_pad data)" using bac_pad.pad_length [of data] by simp
  moreover have "length c = length (bac_iso_pad data)"
    using c by (auto simp: des_cbc_def Let_def dest: evp_crypt_length)
  ultimately have "length d = 8"
    using d by (auto simp: des_ecb_def Let_def dest!: evp_crypt_length)
  then show ?thesis using m by (auto simp: des_ecb_def Let_def dest!: evp_crypt_length)
qed

lemma retail_mac_total:
  assumes "cipher_works ossl" and "length key = 16"
  shows "\<exists>m. retail_mac ossl key data = Some m \<and> length m = 8"
proof -
  let ?p = "bac_iso_pad data"
  obtain c where c: "des_cbc ossl key iv0 ?p = Some c" "length c = length ?p"
    using evp_crypt_total [OF assms(1), of "take 8 key @ take 8 key @ take 8 key" DES_EDE3_CBC ?p True iv0]
      assms(2) bac_pad.pad_aligned [of data] by (auto simp: des_cbc_def Let_def)
  have "8 \<le> length ?p" using bac_pad.pad_length [of data] by simp
  then have last: "length (drop (length ?p - 8) c) = 8" using c(2) by simp
  then obtain d where d: "des_ecb ossl False (drop 8 key) (drop (length ?p - 8) c) = Some d" "length d = 8"
    using evp_crypt_total [OF assms(1), of "take 8 (drop 8 key) @ take 8 (drop 8 key) @ take 8 (drop 8 key)"
        DES_EDE3_ECB "drop (length ?p - 8) c" False iv0] assms(2)
    by (auto simp: des_ecb_def Let_def)
  obtain m where "des_ecb ossl True key d = Some m" "length m = 8"
    using evp_crypt_total [OF assms(1), of "take 8 key @ take 8 key @ take 8 key" DES_EDE3_ECB d True iv0]
      assms(2) d(2) by (auto simp: des_ecb_def Let_def)
  then show ?thesis using c d by (simp add: retail_mac_def Let_def)
qed

lemma des3_roundtrip:
  assumes "cipher_works ossl" and "length key = 16" and "length m mod 8 = 0"
  shows "\<exists>e. des3_cbc ossl True key iv m = Some e \<and> length e = length m
    \<and> des3_cbc ossl False key iv e = Some m"
  using evp_crypt_roundtrip [OF assms(1), of "key @ take 8 key" DES_EDE3_CBC m iv] assms(2,3)
  by (simp add: des3_cbc_def)

lemma des3_length: "des3_cbc ossl b key iv m = Some e \<Longrightarrow> length e = length m"
  by (auto simp: des3_cbc_def dest: evp_crypt_length)

section \<open>Mutual authentication\<close>

text \<open>
  The chip's side of MUTUAL AUTHENTICATE (9303-11 4.3.2): check the code, decrypt, compare
  its own challenge, answer with both challenges and its key half, derive the session.
\<close>

definition chip_mutual_authenticate ::
    "openssl \<Rightarrow> bac_static_keys \<Rightarrow> bytes \<Rightarrow> bytes \<Rightarrow> bytes \<Rightarrow> (bytes \<times> bac_session) option" where
  "chip_mutual_authenticate ossl keys rnd_icc k_icc apdu =
     (let data = take 40 (drop 5 apdu); e = take 32 data in
      case retail_mac ossl (kmac keys) e of None \<Rightarrow> None | Some m \<Rightarrow>
      if m \<noteq> drop 32 data then None
      else case des3_cbc ossl False (kenc keys) iv0 e of None \<Rightarrow> None | Some s \<Rightarrow>
        if take 8 (drop 8 s) \<noteq> rnd_icc then None
        else let kseed = map2 (\<lambda>a b. a XOR b) (drop 16 s) k_icc in
          case des3_cbc ossl True (kenc keys) iv0 (rnd_icc @ take 8 s @ k_icc) of None \<Rightarrow> None | Some r \<Rightarrow>
          case retail_mac ossl (kmac keys) r of None \<Rightarrow> None | Some t \<Rightarrow>
            Some (r @ t, \<lparr>ks_enc = kdf ossl kseed 1, ks_mac = kdf ossl kseed 2,
              ssc = drop 4 rnd_icc @ drop 4 (take 8 s)\<rparr>))"

lemma bac_mutual_honest:
  assumes works: "cipher_works ossl" and keys: "length (kenc keys) = 16" "length (kmac keys) = 16"
    and icc: "length rnd_icc = 8" "length k_icc = 16" and ifd: "length rnd = 8" "length k = 16"
  shows "\<exists>apdu challenge response session.
    bac_build_mutual_authenticate ossl keys rnd_icc (Some rnd) (Some k) = Some (apdu, challenge)
    \<and> length apdu = 46
    \<and> chip_mutual_authenticate ossl keys rnd_icc k_icc apdu = Some (response, session)
    \<and> bac_process_mutual_authenticate_response ossl keys challenge rnd_icc response = Some session"
proof -
  let ?s = "rnd @ rnd_icc @ k" and ?r = "rnd_icc @ rnd @ k_icc"
  obtain e where e: "des3_cbc ossl True (kenc keys) iv0 ?s = Some e" "length e = 32"
      "des3_cbc ossl False (kenc keys) iv0 e = Some ?s"
    using des3_roundtrip [OF works keys(1), of ?s iv0] icc ifd by auto
  obtain m where m: "retail_mac ossl (kmac keys) e = Some m" "length m = 8"
    using retail_mac_total [OF works keys(2)] by blast
  obtain r where r: "des3_cbc ossl True (kenc keys) iv0 ?r = Some r" "length r = 32"
      "des3_cbc ossl False (kenc keys) iv0 r = Some ?r"
    using des3_roundtrip [OF works keys(1), of ?r iv0] icc ifd by auto
  obtain t where t: "retail_mac ossl (kmac keys) r = Some t" "length t = 8"
    using retail_mac_total [OF works keys(2)] by blast
  have eq: "bytes_equal t t 8" "bytes_equal ?r rnd_icc 8" "bytes_equal (rnd @ k_icc) rnd 8"
    using t icc ifd by (simp_all add: bytes_equal_iff)
  have xor: "map2 (\<lambda>a b. a XOR b) k k_icc = map2 (\<lambda>a b. a XOR b) k (take 16 k_icc)"
    using icc by simp
  show ?thesis
    using e m r t icc ifd eq
    by (auto simp: bac_build_mutual_authenticate_def chip_mutual_authenticate_def
        bac_process_mutual_authenticate_response_def Let_def)
qed

text \<open>
  C16.  A chip that holds the same static keys accepts the command the reader builds,
  the reader accepts its answer, and both hold the same session.
\<close>

theorem bac_mutual_authentication:
  assumes works: "cipher_works ossl" and keys: "length (kenc keys) = 16" "length (kmac keys) = 16"
    and icc: "length rnd_icc = 8" "length k_icc = 16" and ifd: "length rnd = 8" "length k = 16"
  shows "\<exists>apdu challenge response session.
    bac_build_mutual_authenticate ossl keys rnd_icc (Some rnd) (Some k) = Some (apdu, challenge)
    \<and> length apdu = 46
    \<and> chip_mutual_authenticate ossl keys rnd_icc k_icc apdu = Some (response, session)
    \<and> bac_process_mutual_authenticate_response ossl keys challenge rnd_icc response = Some session"
  using assms by (rule bac_mutual_honest)

text \<open>With the stand-in library: the exchange goes through on concrete values.\<close>

theorem bac_mutual_authentication_witness:
  "\<exists>apdu challenge response session.
    bac_build_mutual_authenticate demo_openssl \<lparr>kenc = replicate 16 1, kmac = replicate 16 2\<rparr>
      (replicate 8 3) (Some (replicate 8 4)) (Some (replicate 16 5)) = Some (apdu, challenge)
    \<and> length apdu = 46
    \<and> chip_mutual_authenticate demo_openssl \<lparr>kenc = replicate 16 1, kmac = replicate 16 2\<rparr>
        (replicate 8 3) (replicate 16 6) apdu = Some (response, session)
    \<and> bac_process_mutual_authenticate_response demo_openssl \<lparr>kenc = replicate 16 1, kmac = replicate 16 2\<rparr>
        challenge (replicate 8 3) response = Some session"
  by (rule bac_mutual_authentication) simp_all

text \<open>
  C6.  A response is accepted exactly when it is 40 bytes, its last eight are the code
  of the first 32 under KMAC, and those decrypt to both challenges in order followed by a
  key half; the session is then the one those values determine.
\<close>

theorem bac_accepts_only_authentic:
  assumes icc: "length rnd_icc = 8" and ifd: "length (rnd_ifd ch) = 8"
  shows "bac_process_mutual_authenticate_response ossl keys ch rnd_icc response = Some session \<longleftrightarrow>
    (\<exists>e m k_icc. response = e @ m \<and> length e = 32 \<and> retail_mac ossl (kmac keys) e = Some m
      \<and> des3_cbc ossl False (kenc keys) iv0 e = Some (rnd_icc @ rnd_ifd ch @ k_icc) \<and> length k_icc = 16
      \<and> session = (let kseed = map2 (\<lambda>a b. a XOR b) (k_ifd ch) k_icc in
          \<lparr>ks_enc = kdf ossl kseed 1, ks_mac = kdf ossl kseed 2,
           ssc = drop 4 rnd_icc @ drop 4 (rnd_ifd ch)\<rparr>))"
    (is "?lhs \<longleftrightarrow> ?rhs")
proof
  assume ?lhs
  then obtain m r where len: "length response = 40"
    and m: "retail_mac ossl (kmac keys) (take 32 response) = Some m"
      "bytes_equal m (drop 32 response) 8"
    and r: "des3_cbc ossl False (kenc keys) iv0 (take 32 response) = Some r"
      "bytes_equal r rnd_icc 8" "bytes_equal (drop 8 r) (rnd_ifd ch) 8"
    and s: "session = (let kseed = map2 (\<lambda>a b. a XOR b) (k_ifd ch) (take 16 (drop 16 r)) in
        \<lparr>ks_enc = kdf ossl kseed 1, ks_mac = kdf ossl kseed 2,
          ssc = take 4 (drop 4 rnd_icc) @ take 4 (drop 4 (rnd_ifd ch))\<rparr>)"
    by (auto simp: bac_process_mutual_authenticate_response_def Let_def split: if_splits option.splits)
  have lm: "length m = 8" and lr: "length r = 32"
    using retail_mac_length [OF m(1)] des3_length [OF r(1)] len by auto
  have tag: "m = drop 32 response" using m(2) lm len by (simp add: bytes_equal_iff)
  have r1: "take 8 r = rnd_icc" using r(2) lr icc by (simp add: bytes_equal_iff)
  have r2: "take 8 (drop 8 r) = rnd_ifd ch" using r(3) lr ifd by (simp add: bytes_equal_iff)
  have "r = take 8 r @ take 8 (drop 8 r) @ drop 16 r"
    using append_take_drop_id [of 8 r] append_take_drop_id [of 8 "drop 8 r"] by simp
  then have split: "r = rnd_icc @ rnd_ifd ch @ drop 16 r" by (simp only: r1 r2)
  show ?rhs
    by (rule exI [of _ "take 32 response"], rule exI [of _ m], rule exI [of _ "drop 16 r"])
      (use len m(1) tag r(1) split s lr icc ifd in simp)
next
  assume ?rhs
  then obtain e m k_icc where "response = e @ m" "length e = 32" and m: "retail_mac ossl (kmac keys) e = Some m"
    and "des3_cbc ossl False (kenc keys) iv0 e = Some (rnd_icc @ rnd_ifd ch @ k_icc)" "length k_icc = 16"
    and "session = (let kseed = map2 (\<lambda>a b. a XOR b) (k_ifd ch) k_icc in
          \<lparr>ks_enc = kdf ossl kseed 1, ks_mac = kdf ossl kseed 2,
           ssc = drop 4 rnd_icc @ drop 4 (rnd_ifd ch)\<rparr>)"
    by blast
  then show ?lhs
    using retail_mac_length [OF m] icc ifd
    by (simp add: bac_process_mutual_authenticate_response_def bytes_equal_iff Let_def)
qed

theorem bac_accepts_only_authentic_witness:
  "bac_process_mutual_authenticate_response demo_openssl \<lparr>kenc = replicate 16 1, kmac = replicate 16 2\<rparr>
     \<lparr>rnd_ifd = replicate 8 4, k_ifd = replicate 16 5\<rparr> (replicate 8 3) (replicate 40 0) \<noteq>
     Some \<lparr>ks_enc = [], ks_mac = [], ssc = []\<rparr>"
  using bac_accepts_only_authentic [of "replicate 8 3" "\<lparr>rnd_ifd = replicate 8 4, k_ifd = replicate 16 5\<rparr>"
      demo_openssl "\<lparr>kenc = replicate 16 1, kmac = replicate 16 2\<rparr>" "replicate 40 0"
      "\<lparr>ks_enc = [], ks_mac = [], ssc = []\<rparr>"]
  by (simp add: Let_def)

section \<open>Unprotecting responses\<close>

definition bac_session_ok :: "bac_session \<Rightarrow> bool" where
  "bac_session_ok s \<longleftrightarrow> length (ks_enc s) = 16 \<and> length (ks_mac s) = 16 \<and> length (ssc s) = 8"

lemma open_do87_in_bounds:
  assumes "is_tlv_at rapdu (off, len)"
  shows "bac_open_do87 ossl s rapdu off len sw \<noteq> SM_OutOfBounds"
proof -
  have len: "off + len \<le> length rapdu" "2 \<le> len" using is_tlv_at_len [OF assms] by auto
  then have "ber_length rapdu (off + 1) (len - 1) \<noteq> Undefined"
    by (intro ber_length_defined) simp
  moreover have "bac_open_do87 ossl s rapdu off len sw \<noteq> SM_OutOfBounds"
    if ber: "ber_length rapdu (off + 1) (len - 1) = Parsed (h, c)" for h c
    using len is_tlv_at_body [OF assms ber] ber
    by (auto simp: bac_open_do87_def Let_def rd_def rd_n_def split: option.splits if_splits)
  ultimately show ?thesis
    by (cases "ber_length rapdu (off + 1) (len - 1)") (auto simp: bac_open_do87_def)
qed

lemma open_do87_sw: "bac_open_do87 ossl s rapdu off len sw = SM_Accepted p sw' \<Longrightarrow> sw' = sw"
  by (auto simp: bac_open_do87_def Let_def split: option.splits outcome.splits if_splits prod.splits)

definition bac_next :: "bac_session \<Rightarrow> bac_session" where
  "bac_next s = s\<lparr>ssc := ssc_increment (ssc s)\<rparr>"

text \<open>The response side of BAC is the common unwrapping, with the retail MAC and 3DES.\<close>

interpretation bac_unwrap: sm_unwrapping "bac_sm_unprotect ossl" bac_next ssc
    "\<lambda>s. retail_mac ossl (ks_mac s)" "bac_open_do87 ossl" for ossl
proof
  fix s rapdu m t off len sw p sw'
  show "bac_sm_unprotect ossl s rapdu =
      sm_unwrap bac_next ssc (\<lambda>s. retail_mac ossl (ks_mac s)) (bac_open_do87 ossl) s rapdu"
    unfolding bac_sm_unprotect_def sm_unwrap_def bac_next_def Let_def by (rule refl)
  show "8 \<le> length t" if "retail_mac ossl (ks_mac s) m = Some t"
    using retail_mac_length [OF that] by simp
  show "bac_open_do87 ossl s rapdu off len sw \<noteq> SM_OutOfBounds" if "is_tlv_at rapdu (off, len)"
    using that by (rule open_do87_in_bounds)
  show "sw' = sw" if "bac_open_do87 ossl s rapdu off len sw = SM_Accepted p sw'"
    using that by (rule open_do87_sw)
qed



section \<open>What the chip sends arrives\<close>

text \<open>The response of a chip that shares the session: the next counter value, then its objects.\<close>

definition bac_chip_reply :: "openssl \<Rightarrow> bac_session \<Rightarrow> bytes option \<Rightarrow> byte \<Rightarrow> byte \<Rightarrow> bytes \<Rightarrow> bytes option" where
  "bac_chip_reply ossl s p sw1 sw2 trailer =
     (case p of
        None \<Rightarrow> chip_response (retail_mac ossl (ks_mac s)) (ssc_increment (ssc s)) None sw1 sw2 trailer
      | Some plaintext \<Rightarrow>
          (case des3_cbc ossl True (ks_enc s) iv0 (bac_iso_pad plaintext) of
             None \<Rightarrow> None
           | Some e \<Rightarrow> chip_response (retail_mac ossl (ks_mac s)) (ssc_increment (ssc s)) (Some e) sw1 sw2 trailer))"

lemma bac_open_chip:
  assumes "length e < 65535" and "e \<noteq> []" and "length e mod 8 = 0"
    and "des3_cbc ossl False (ks_enc s) iv0 e = Some dec" and "iso_unpad dec = Some pt"
  shows "bac_open_do87 ossl s (chip_do87 (Some e) @ rest) 0 (length (chip_do87 (Some e))) sw =
    SM_Accepted (Some pt) sw"
  using read_chip_do87 [OF assms(1), of rest] assms(2-5)
  by (auto simp: bac_open_do87_def Let_def)

lemma bac_reply_transfer:
  assumes works: "cipher_works ossl" and ok: "bac_session_ok s"
    and p: "case p of None \<Rightarrow> True | Some pt \<Rightarrow> length pt < 65000" and x: "x \<notin> {0x87, 0x99, 0x8E}"
  shows "\<exists>r r'. bac_chip_reply ossl s p a b [] = Some r \<and> bac_chip_reply ossl s p a b [x, y] = Some r'
    \<and> bac_sm_unprotect ossl s r =
        (s\<lparr>ssc := ssc_increment (ssc s)\<rparr>, SM_Accepted p (unat a * 256 + unat b))
    \<and> bac_sm_unprotect ossl s r' =
        (if y = 0 then (s\<lparr>ssc := ssc_increment (ssc s)\<rparr>, SM_Accepted p (unat a * 256 + unat b))
         else (s, SM_Rejected))"
proof -
  have kenc: "length (ks_enc s) = 16" and kmac: "length (ks_mac s) = 16"
    using ok by (simp_all add: bac_session_ok_def)
  define opens where "opens = (\<lambda>enc. case enc of None \<Rightarrow> p = None | Some e \<Rightarrow> \<forall>rest sw.
      bac_open_do87 ossl (bac_next s) (chip_do87 enc @ rest) 0 (length (chip_do87 enc)) sw = SM_Accepted p sw)"
  obtain enc where op: "opens enc" and small: "case enc of None \<Rightarrow> True | Some e \<Rightarrow> length e < 65535"
    and reply: "\<And>t. bac_chip_reply ossl s p a b t =
      chip_response (retail_mac ossl (ks_mac s)) (ssc_increment (ssc s)) enc a b t"
  proof (cases p)
    case None
    then show ?thesis by (intro that [of None]) (simp_all add: opens_def bac_chip_reply_def)
  next
    case (Some pt)
    obtain e where e: "des3_cbc ossl True (ks_enc s) iv0 (bac_iso_pad pt) = Some e"
      "length e = length (bac_iso_pad pt)" "des3_cbc ossl False (ks_enc s) iv0 e = Some (bac_iso_pad pt)"
      using des3_roundtrip [OF works kenc bac_pad.pad_aligned] by blast
    have len: "length e < 65535" "e \<noteq> []" "length e mod 8 = 0"
      using bac_pad.pad_bound [of pt] bac_pad.pad_aligned [of pt] p Some e(2) by auto
    have "opens (Some e)"
      using bac_open_chip [OF len, of ossl "bac_next s" "bac_iso_pad pt" pt] e(3) bac_pad.unpad_pad [of pt] Some
      by (simp add: opens_def bac_next_def)
    with len e(1) Some show ?thesis
      by (intro that [of "Some e"]) (simp_all add: bac_chip_reply_def)
  qed
  have mac: "\<exists>m. retail_mac ossl (ks_mac (bac_next s)) (ssc (bac_next s) @ chip_do87 enc @ [0x99, 0x02, a, b]) = Some m"
    using retail_mac_total [OF works, of "ks_mac (bac_next s)"] kmac by (auto simp: bac_next_def)
  have next_s: "ssc (bac_next s) = ssc_increment (ssc s)" "ks_mac (bac_next s) = ks_mac s"
    by (simp_all add: bac_next_def)
  from bac_unwrap.unprotect_chip_reply [OF mac small op [unfolded opens_def] x, of y]
  show ?thesis unfolding reply next_s unfolding bac_next_def .
qed

text \<open>
  C30.  Data and status word of a chip's response arrive, and the counter moves to the value
  the chip used.  The response is read with the two bytes of the plain status word still
  appended, as one more data object; the second byte is its length.  A response followed
  by a status word with a second byte of zero is accepted; with any other second byte,
  6A82 say, an authentic response is refused and the counter stays behind the chip's.
\<close>

theorem bac_reply_roundtrip:
  assumes works: "cipher_works ossl" and ok: "bac_session_ok s"
    and p: "case p of None \<Rightarrow> True | Some pt \<Rightarrow> length pt < 65000" and x: "x \<notin> {0x87, 0x99, 0x8E}"
  shows "\<exists>r r'. bac_chip_reply ossl s p a b [] = Some r \<and> bac_chip_reply ossl s p a b [x, y] = Some r'
    \<and> bac_sm_unprotect ossl s r =
        (s\<lparr>ssc := ssc_increment (ssc s)\<rparr>, SM_Accepted p (unat a * 256 + unat b))
    \<and> bac_sm_unprotect ossl s r' =
        (if y = 0 then (s\<lparr>ssc := ssc_increment (ssc s)\<rparr>, SM_Accepted p (unat a * 256 + unat b))
         else (s, SM_Rejected))"
  using assms by (rule bac_reply_transfer)

theorem bac_reply_roundtrip_witness:
  "\<exists>r r'. bac_chip_reply demo_openssl \<lparr>ks_enc = replicate 16 1, ks_mac = replicate 16 2, ssc = replicate 8 0\<rparr>
       (Some (str ''MRZ'')) 0x90 0x00 [] = Some r
     \<and> bac_chip_reply demo_openssl \<lparr>ks_enc = replicate 16 1, ks_mac = replicate 16 2, ssc = replicate 8 0\<rparr>
       (Some (str ''MRZ'')) 0x90 0x00 [0x6A, 0x82] = Some r'
     \<and> snd (bac_sm_unprotect demo_openssl \<lparr>ks_enc = replicate 16 1, ks_mac = replicate 16 2, ssc = replicate 8 0\<rparr> r)
         = SM_Accepted (Some (str ''MRZ'')) 0x9000
     \<and> snd (bac_sm_unprotect demo_openssl \<lparr>ks_enc = replicate 16 1, ks_mac = replicate 16 2, ssc = replicate 8 0\<rparr> r')
         = SM_Rejected"
proof -
  let ?s = "\<lparr>ks_enc = replicate 16 1, ks_mac = replicate 16 2, ssc = replicate 8 0\<rparr>"
  have ok: "bac_session_ok ?s" by (simp add: bac_session_ok_def)
  have len: "case Some (str ''MRZ'') of None \<Rightarrow> True | Some pt \<Rightarrow> length pt < 65000"
    by (simp add: length_str)
  have x: "(0x6A :: byte) \<notin> {0x87, 0x99, 0x8E}" by simp
  show ?thesis
    using bac_reply_roundtrip [OF demo_cipher_works ok len x, of "0x90" "0x00" "0x82"] by auto
qed

section \<open>Protecting commands, and the channel\<close>

definition bac_protect :: "openssl \<Rightarrow> bac_session \<Rightarrow> sm_command \<Rightarrow> bac_session \<times> bytes option" where
  "bac_protect ossl s c = bac_sm_protect ossl s (c_cla c) (c_ins c) (c_p1 c) (c_p2 c) (c_data c) (c_le c)"

lemma bac_protect_session:
  "fst (bac_protect ossl s c) = s \<or> fst (bac_protect ossl s c) = s\<lparr>ssc := ssc_increment (ssc s)\<rparr>"
  by (auto simp: bac_protect_def bac_sm_protect_def Let_def split: option.split)

lemma bac_protect_Some: "bac_protect ossl s c = (s', Some apdu) \<Longrightarrow> s' = s\<lparr>ssc := ssc_increment (ssc s)\<rparr>"
  by (auto simp: bac_protect_def bac_sm_protect_def Let_def split: option.splits if_splits)

text \<open>The contract of the channel, for every instance of the library.\<close>

interpretation bac_channel: sm_channel "bac_protect ossl" "bac_sm_unprotect ossl" bac_session_ok
    "\<lambda>s. be_val (ssc s)" "256 ^ 8" "\<lambda>s. (ks_enc s, ks_mac s)" for ossl
proof
  fix s :: bac_session and c r s' apdu p sw
  assume ok: "bac_session_ok s"
  show "bac_session_ok (fst (bac_protect ossl s c))
      \<and> (ks_enc (fst (bac_protect ossl s c)), ks_mac (fst (bac_protect ossl s c))) = (ks_enc s, ks_mac s)"
    using bac_protect_session [of ossl s c] ok by (auto simp: bac_session_ok_def)
  show "bac_session_ok (fst (bac_sm_unprotect ossl s r))
      \<and> (ks_enc (fst (bac_sm_unprotect ossl s r)), ks_mac (fst (bac_sm_unprotect ossl s r))) = (ks_enc s, ks_mac s)"
    using bac_unwrap.unprotect_session [of ossl s r] ok by (auto simp: bac_session_ok_def bac_next_def)
  have inc: "be_val (ssc_increment (ssc s)) = (be_val (ssc s) + 1) mod 256 ^ 8"
    using ok by (intro bac_ssc.incr_val) (simp add: bac_session_ok_def)
  show "be_val (ssc s') = (be_val (ssc s) + 1) mod 256 ^ 8" if "bac_protect ossl s c = (s', Some apdu)"
    using bac_protect_Some [OF that] inc by simp
  show "be_val (ssc s') = (be_val (ssc s) + 1) mod 256 ^ 8" if "bac_sm_unprotect ossl s r = (s', SM_Accepted p sw)"
    using bac_unwrap.unprotect_accepted [OF that] inc by (simp add: bac_next_def)
  show "be_val (ssc s) < 256 ^ 8"
    using be_val_bound [of "ssc s"] ok by (simp add: bac_session_ok_def)
  show "snd (bac_sm_unprotect ossl s r) \<noteq> SM_OutOfBounds"
    by (rule bac_unwrap.unprotect_in_bounds)
qed

lemma bac_pad_fits: "length (bac_iso_pad data) \<le> 120 \<longleftrightarrow> length data \<le> 119"
  using bac_pad.pad_length [of data] by (simp add: div_le_mono) presburger

lemma bac_pad_small: "length data \<le> 223 \<Longrightarrow> length (bac_iso_pad data) \<le> 224"
  using bac_pad.pad_length [of data] by simp

text \<open>What the function writes, whatever the data: the objects with their one-byte lengths.\<close>

lemma bac_protect_shape:
  assumes works: "cipher_works ossl" and ok: "bac_session_ok s"
    and data: "length (c_data c) \<le> 223" and le: "c_le c \<le> 255"
  shows "\<exists>enc m. des3_cbc ossl False (ks_enc s) iv0 enc = Some (bac_iso_pad (c_data c))
    \<and> length enc = length (bac_iso_pad (c_data c)) \<and> length m = 8
    \<and> (let objs = (if c_data c = [] then [] else append_tlv 0x87 (0x01 # enc))
              @ (if 0 \<le> c_le c then append_tlv 0x97 [byte_of (nat (c_le c))] else []);
           body = objs @ append_tlv 0x8E m
       in retail_mac ossl (ks_mac s) (ssc_increment (ssc s) @ bac_iso_pad (masked_header c) @ objs) = Some m
         \<and> length body < 256
         \<and> bac_protect ossl s c = (s\<lparr>ssc := ssc_increment (ssc s)\<rparr>,
             Some (masked_header c @ [byte_of (length body)] @ body @ [0x00])))"
proof -
  have kenc: "length (ks_enc s) = 16" and kmac: "length (ks_mac s) = 16"
    using ok by (simp_all add: bac_session_ok_def)
  obtain enc where enc: "des3_cbc ossl True (ks_enc s) iv0 (bac_iso_pad (c_data c)) = Some enc"
      "length enc = length (bac_iso_pad (c_data c))"
      "des3_cbc ossl False (ks_enc s) iv0 enc = Some (bac_iso_pad (c_data c))"
    using des3_roundtrip [OF works kenc bac_pad.pad_aligned] by blast
  define objs where "objs = (if c_data c = [] then [] else append_tlv 0x87 (0x01 # enc))
      @ (if 0 \<le> c_le c then append_tlv 0x97 [byte_of (nat (c_le c))] else [])"
  obtain m where m: "retail_mac ossl (ks_mac s) (ssc_increment (ssc s) @ bac_iso_pad (masked_header c) @ objs) = Some m"
      "length m = 8"
    using retail_mac_total [OF works kmac] by blast
  have len: "length (objs @ append_tlv 0x8E m) < 256"
    using bac_pad_small [OF data] enc(2) m(2) by (simp add: objs_def length_append_tlv)
  have "bac_protect ossl s c = (s\<lparr>ssc := ssc_increment (ssc s)\<rparr>,
      Some (masked_header c @ [byte_of (length (objs @ append_tlv 0x8E m))] @ (objs @ append_tlv 0x8E m) @ [0x00]))"
    using data le enc(1) m
    by (cases "c_data c = []"; cases "0 \<le> c_le c")
      (simp_all add: bac_protect_def bac_sm_protect_def masked_header_def objs_def Let_def length_append_tlv)
  with enc m len show ?thesis
    unfolding Let_def objs_def by blast
qed

text \<open>
  For up to 119 bytes of data the command is well formed: the chip finds the
  objects, the length of all of them, the encrypted data and a valid code over them under
  the new counter value.
\<close>

theorem bac_command_well_formed:
  assumes works: "cipher_works ossl" and ok: "bac_session_ok s"
    and data: "length (c_data c) \<le> 119" and le: "c_le c \<le> 255"
  shows "\<exists>enc apdu. bac_protect ossl s c = (s\<lparr>ssc := ssc_increment (ssc s)\<rparr>, Some apdu)
    \<and> des3_cbc ossl False (ks_enc s) iv0 enc = Some (bac_iso_pad (c_data c))
    \<and> sm_well_formed (retail_mac ossl (ks_mac s)) bac_iso_pad (ssc_increment (ssc s)) c enc apdu"
proof -
  obtain enc m where dec: "des3_cbc ossl False (ks_enc s) iv0 enc = Some (bac_iso_pad (c_data c))"
      and len: "length enc = length (bac_iso_pad (c_data c))" and m: "length m = 8"
      and shape: "let objs = (if c_data c = [] then [] else append_tlv 0x87 (0x01 # enc))
              @ (if 0 \<le> c_le c then append_tlv 0x97 [byte_of (nat (c_le c))] else []);
           body = objs @ append_tlv 0x8E m
       in retail_mac ossl (ks_mac s) (ssc_increment (ssc s) @ bac_iso_pad (masked_header c) @ objs) = Some m
         \<and> length body < 256
         \<and> bac_protect ossl s c = (s\<lparr>ssc := ssc_increment (ssc s)\<rparr>,
             Some (masked_header c @ [byte_of (length body)] @ body @ [0x00]))"
    using bac_protect_shape [OF works ok, of c] data le by auto
  have short: "append_tlv 0x87 (0x01 # enc) = tlv 0x87 (0x01 # enc)"
    using len data bac_pad_fits [of "c_data c"] by (intro append_tlv_short) simp
  have objs: "(if c_data c = [] then [] else append_tlv 0x87 (0x01 # enc))
      @ (if 0 \<le> c_le c then append_tlv 0x97 [byte_of (nat (c_le c))] else []) = sm_objects c enc"
    by (simp add: sm_objects_def short append_tlv_short)
  have code: "append_tlv 0x8E m = tlv 0x8E (take 8 m)"
    using m by (simp add: append_tlv_short)
  show ?thesis
    using dec shape unfolding objs code Let_def
    by (auto simp: sm_well_formed_def)
qed

theorem bac_command_well_formed_witness:
  "\<exists>enc apdu. bac_protect demo_openssl \<lparr>ks_enc = replicate 16 1, ks_mac = replicate 16 2, ssc = replicate 8 0\<rparr>
       \<lparr>c_cla = 0x00, c_ins = 0xA4, c_p1 = 0x02, c_p2 = 0x0C, c_data = [0x01, 0x01], c_le = - 1\<rparr> =
     (\<lparr>ks_enc = replicate 16 1, ks_mac = replicate 16 2, ssc = ssc_increment (replicate 8 0)\<rparr>, Some apdu)
     \<and> sm_well_formed (retail_mac demo_openssl (replicate 16 2)) bac_iso_pad (ssc_increment (replicate 8 0))
         \<lparr>c_cla = 0x00, c_ins = 0xA4, c_p1 = 0x02, c_p2 = 0x0C, c_data = [0x01, 0x01], c_le = - 1\<rparr> enc apdu"
  using bac_command_well_formed [OF demo_cipher_works,
      of "\<lparr>ks_enc = replicate 16 1, ks_mac = replicate 16 2, ssc = replicate 8 0\<rparr>"
        "\<lparr>c_cla = 0x00, c_ins = 0xA4, c_p1 = 0x02, c_p2 = 0x0C, c_data = [0x01, 0x01], c_le = - 1\<rparr>"]
  by (auto simp: bac_session_ok_def)

text \<open>
  For 120 to 223 bytes of data, which the guard lets through as well, the one-byte
  length of the 87 object is 0x81 or more: it does not parse as the 1 + n bytes that follow.
\<close>

theorem bac_command_long_data:
  assumes works: "cipher_works ossl" and ok: "bac_session_ok s"
    and data: "120 \<le> length (c_data c)" "length (c_data c) \<le> 223" and le: "c_le c \<le> 255"
  shows "\<exists>apdu. bac_protect ossl s c = (s\<lparr>ssc := ssc_increment (ssc s)\<rparr>, Some apdu)
    \<and> apdu ! 5 = 0x87
    \<and> (\<forall>h. bac_ber_tlv_header (drop 5 apdu) 0 (length apdu - 5) \<noteq> Parsed (h, 1 + length (bac_iso_pad (c_data c))))"
proof -
  obtain enc m where len: "length enc = length (bac_iso_pad (c_data c))" and m: "length m = 8"
      and shape: "let objs = (if c_data c = [] then [] else append_tlv 0x87 (0x01 # enc))
              @ (if 0 \<le> c_le c then append_tlv 0x97 [byte_of (nat (c_le c))] else []);
           body = objs @ append_tlv 0x8E m
       in retail_mac ossl (ks_mac s) (ssc_increment (ssc s) @ bac_iso_pad (masked_header c) @ objs) = Some m
         \<and> length body < 256
         \<and> bac_protect ossl s c = (s\<lparr>ssc := ssc_increment (ssc s)\<rparr>,
             Some (masked_header c @ [byte_of (length body)] @ body @ [0x00]))"
    using bac_protect_shape [OF works ok, of c] data le by auto
  have n: "128 \<le> length enc" "length enc \<le> 224" "length enc mod 8 = 0"
    using bac_pad_fits [of "c_data c"] bac_pad_small [OF data(2)] bac_pad.pad_aligned [of "c_data c"] data(1)
    by (auto simp: len)
  have ne: "c_data c \<noteq> []" using data(1) by auto
  obtain rest lc where apdu: "bac_protect ossl s c = (s\<lparr>ssc := ssc_increment (ssc s)\<rparr>,
      Some (masked_header c @ lc # 0x87 # byte_of (1 + length enc) # 0x01 # enc @ rest))"
    using shape ne by (auto simp: Let_def append_tlv_def)
  let ?b = "byte_of (1 + length enc)"
  have b: "\<not> ?b < 0x80" using n by (simp add: word_less_nat_alt)
  have no82: "?b \<noteq> 0x82"
  proof
    assume "?b = 0x82"
    then have "unat ?b = 130" by simp
    moreover have "unat ?b = 1 + length enc" using n(2) by simp
    ultimately have "length enc = 129" by simp
    with n(3) show False by simp
  qed
  have "bac_ber_tlv_header (0x87 # ?b # 0x01 # enc @ rest) 0 (length (0x87 # ?b # 0x01 # enc @ rest)) \<noteq>
      Parsed (h, 1 + length (bac_iso_pad (c_data c)))" for h
    using b no82 n len by (auto simp: bac_ber_tlv_header_def ber_length_def)
  then show ?thesis
    by (intro exI [of _ "masked_header c @ lc # 0x87 # ?b # 0x01 # enc @ rest"])
      (simp add: apdu masked_header_def)
qed

theorem bac_command_long_data_witness:
  "\<exists>apdu. bac_protect demo_openssl \<lparr>ks_enc = replicate 16 1, ks_mac = replicate 16 2, ssc = replicate 8 0\<rparr>
       \<lparr>c_cla = 0x00, c_ins = 0xD6, c_p1 = 0x00, c_p2 = 0x00, c_data = replicate 120 7, c_le = - 1\<rparr> =
     (\<lparr>ks_enc = replicate 16 1, ks_mac = replicate 16 2, ssc = ssc_increment (replicate 8 0)\<rparr>, Some apdu)
     \<and> apdu ! 5 = 0x87"
  using bac_command_long_data [OF demo_cipher_works,
      of "\<lparr>ks_enc = replicate 16 1, ks_mac = replicate 16 2, ssc = replicate 8 0\<rparr>"
        "\<lparr>c_cla = 0x00, c_ins = 0xD6, c_p1 = 0x00, c_p2 = 0x00, c_data = replicate 120 7, c_le = - 1\<rparr>"]
  by (auto simp: bac_session_ok_def)

end
