(* ===== verification/Pace_Facts.thy ===== *)
theory Pace_Facts
  imports Pace_Exchange Bac_Facts
begin

text \<open>
  PACE is correct against an honest chip, its secure messaging layer keeps the channel
  contract, and its parsers of untrusted bytes are examined for reads outside their
  buffers.
\<close>

section \<open>Primitives\<close>

lemma aes_cbc_evp: "aes_cbc ossl b key n iv m = evp_crypt ossl (aes_cbc_cipher n) b key iv m"
  by (simp add: aes_cbc_def evp_crypt_def)

lemma aes_cipher_sizes [simp]:
  "n \<in> {16, 32} \<Longrightarrow> key_size (aes_cbc_cipher n) = n" "block_size (aes_cbc_cipher n) = 16"
  "n \<in> {16, 32} \<Longrightarrow> key_size (aes_ecb_cipher n) = n" "block_size (aes_ecb_cipher n) = 16"
  by (auto simp: aes_cbc_cipher_def aes_ecb_cipher_def)

lemma aes_roundtrip:
  assumes "cipher_works ossl" and "n \<in> {16, 32}" and "length key = n" and "length m mod 16 = 0"
  shows "\<exists>e. aes_cbc ossl True key n iv m = Some e \<and> length e = length m \<and> aes_cbc ossl False key n iv e = Some m"
  unfolding aes_cbc_evp by (rule evp_crypt_roundtrip) (use assms in simp_all)

lemma aes_ecb_total:
  assumes "cipher_works ossl" and "n \<in> {16, 32}" and "length key = n" and "length b = 16"
  shows "\<exists>iv. aes_ecb_encrypt_block ossl key n b = Some iv"
proof -
  obtain e where "EVP_Cipher ossl (aes_ecb_cipher n) True key [] b = Some e" "length e = length b"
    using assms(1) [unfolded cipher_works_def, rule_format, of key "aes_ecb_cipher n" b "[]"] assms(2-4) by auto
  then show ?thesis using assms(4) by (simp add: aes_ecb_encrypt_block_def)
qed

lemma aes_cmac_total:
  assumes "cmac_works ossl" and "n \<in> {16, 32}" and "length key = n"
  shows "\<exists>t. aes_cmac ossl key n m = Some t \<and> length t = 16"
proof -
  obtain t where "EVP_CMAC ossl (aes_cbc_cipher n) key m = Some t" "length t = 16"
    using assms(1) [unfolded cmac_works_def, rule_format, of key "aes_cbc_cipher n" m] assms(2,3) by auto
  then show ?thesis by (simp add: aes_cmac_def)
qed

lemma aes_cmac_length: "aes_cmac ossl key n m = Some t \<Longrightarrow> length t = 16"
  by (auto simp: aes_cmac_def split: option.splits if_splits)

lemma length_pace_kdf: "digest_sizes ossl \<Longrightarrow> n \<in> {16, 32} \<Longrightarrow> length (pace_kdf ossl k c n) = n"
  by (auto simp: pace_kdf_def digest_sizes_def)

section \<open>Secure messaging\<close>

definition pace_next :: "pace_session \<Rightarrow> pace_session" where
  "pace_next s = s\<lparr>pssc := ssc_increment (pssc s)\<rparr>"

definition pace_session_ok :: "pace_session \<Rightarrow> bool" where
  "pace_session_ok s \<longleftrightarrow> skey_len s \<in> {16, 32} \<and> length (pks_enc s) = skey_len s
     \<and> length (pks_mac s) = skey_len s \<and> length (pssc s) = 16"

definition pace_mac :: "openssl \<Rightarrow> pace_session \<Rightarrow> bytes \<Rightarrow> bytes option" where
  "pace_mac ossl s m = aes_cmac ossl (pks_mac s) (skey_len s) (pace_iso_pad m)"

lemma ber_header_length:
  "2 \<le> len \<Longrightarrow> bac_ber_tlv_header rapdu off len =
     (case ber_length rapdu (off + 1) (len - 1) of
        Undefined \<Rightarrow> Undefined | Malformed \<Rightarrow> Malformed | Parsed (h, c) \<Rightarrow> Parsed (1 + h, c))"
  by (simp add: bac_ber_tlv_header_def)

lemma pace_open_do87_in_bounds:
  assumes "is_tlv_at rapdu (off, len)"
  shows "pace_open_do87 ossl s rapdu off len sw \<noteq> SM_OutOfBounds"
proof -
  have len: "off + len \<le> length rapdu" "2 \<le> len" using is_tlv_at_len [OF assms] by auto
  then have "ber_length rapdu (off + 1) (len - 1) \<noteq> Undefined"
    by (intro ber_length_defined) simp
  moreover have "pace_open_do87 ossl s rapdu off len sw \<noteq> SM_OutOfBounds"
    if ber: "ber_length rapdu (off + 1) (len - 1) = Parsed (h, c)" for h c
    using len is_tlv_at_body [OF assms ber] ber
    by (auto simp: pace_open_do87_def ber_header_length Let_def rd_def rd_n_def split: option.splits if_splits)
  ultimately show ?thesis
    using len by (cases "ber_length rapdu (off + 1) (len - 1)") (auto simp: pace_open_do87_def ber_header_length)
qed

lemma pace_open_do87_sw: "pace_open_do87 ossl s rapdu off len sw = SM_Accepted p sw' \<Longrightarrow> sw' = sw"
  by (auto simp: pace_open_do87_def Let_def split: option.splits outcome.splits if_splits prod.splits)

interpretation pace_unwrap: sm_unwrapping "pace_sm_unprotect ossl" pace_next pssc
    "pace_mac ossl" "pace_open_do87 ossl" for ossl
proof
  fix s rapdu m t off len sw p sw'
  show "pace_sm_unprotect ossl s rapdu =
      sm_unwrap pace_next pssc (pace_mac ossl) (pace_open_do87 ossl) s rapdu"
    unfolding pace_sm_unprotect_def sm_unwrap_def pace_next_def pace_mac_def Let_def pace_scan_dos_eq by (rule refl)
  show "8 \<le> length t" if "pace_mac ossl s m = Some t"
    using that aes_cmac_length by (auto simp: pace_mac_def)
  show "pace_open_do87 ossl s rapdu off len sw \<noteq> SM_OutOfBounds" if "is_tlv_at rapdu (off, len)"
    using that by (rule pace_open_do87_in_bounds)
  show "sw' = sw" if "pace_open_do87 ossl s rapdu off len sw = SM_Accepted p sw'"
    using that by (rule pace_open_do87_sw)
qed

definition pace_protect :: "openssl \<Rightarrow> pace_session \<Rightarrow> sm_command \<Rightarrow> pace_session \<times> bytes option" where
  "pace_protect ossl s c = pace_sm_protect ossl s (c_cla c) (c_ins c) (c_p1 c) (c_p2 c) (c_data c) (c_le c)"

lemma pace_protect_session: "fst (pace_protect ossl s c) = s \<or> fst (pace_protect ossl s c) = pace_next s"
  by (auto simp: pace_protect_def pace_sm_protect_def pace_next_def Let_def split: option.split)

lemma pace_protect_Some: "pace_protect ossl s c = (s', Some apdu) \<Longrightarrow> s' = pace_next s"
  by (auto simp: pace_protect_def pace_sm_protect_def pace_next_def Let_def split: option.splits if_splits)

interpretation pace_channel: sm_channel "pace_protect ossl" "pace_sm_unprotect ossl" pace_session_ok
    "\<lambda>s. be_val (pssc s)" "256 ^ 16" "\<lambda>s. (pks_enc s, pks_mac s, skey_len s)" for ossl
proof
  fix s :: pace_session and c r s' apdu p sw
  assume ok: "pace_session_ok s"
  show "pace_session_ok (fst (pace_protect ossl s c))
      \<and> (pks_enc (fst (pace_protect ossl s c)), pks_mac (fst (pace_protect ossl s c)), skey_len (fst (pace_protect ossl s c)))
        = (pks_enc s, pks_mac s, skey_len s)"
    using pace_protect_session [of ossl s c] ok by (auto simp: pace_session_ok_def pace_next_def)
  show "pace_session_ok (fst (pace_sm_unprotect ossl s r))
      \<and> (pks_enc (fst (pace_sm_unprotect ossl s r)), pks_mac (fst (pace_sm_unprotect ossl s r)),
          skey_len (fst (pace_sm_unprotect ossl s r))) = (pks_enc s, pks_mac s, skey_len s)"
    using pace_unwrap.unprotect_session [of ossl s r] ok by (auto simp: pace_session_ok_def pace_next_def)
  have next_ctr: "pssc (pace_next s) = ssc_increment (pssc s)" by (simp add: pace_next_def)
  have inc: "be_val (pssc (pace_next s)) = (be_val (pssc s) + 1) mod 256 ^ 16"
    unfolding next_ctr by (rule pace_ssc.incr_val) (use ok in \<open>simp add: pace_session_ok_def\<close>)
  show "be_val (pssc s') = (be_val (pssc s) + 1) mod 256 ^ 16" if "pace_protect ossl s c = (s', Some apdu)"
    using pace_protect_Some [OF that] inc by (simp only:)
  show "be_val (pssc s') = (be_val (pssc s) + 1) mod 256 ^ 16" if "pace_sm_unprotect ossl s r = (s', SM_Accepted p sw)"
    using pace_unwrap.unprotect_accepted [OF that] inc by (simp only:)
  show "be_val (pssc s) < 256 ^ 16"
    using be_val_bound [of "pssc s"] ok by (simp only: pace_session_ok_def)
  show "snd (pace_sm_unprotect ossl s r) \<noteq> SM_OutOfBounds"
    by (rule pace_unwrap.unprotect_in_bounds)
qed

definition pace_chip_reply :: "openssl \<Rightarrow> pace_session \<Rightarrow> bytes option \<Rightarrow> byte \<Rightarrow> byte \<Rightarrow> bytes \<Rightarrow> bytes option" where
  "pace_chip_reply ossl s p sw1 sw2 trailer =
     (let s' = pace_next s in
      case p of
        None \<Rightarrow> chip_response (pace_mac ossl s') (pssc s') None sw1 sw2 trailer
      | Some plaintext \<Rightarrow>
          (case aes_ecb_encrypt_block ossl (pks_enc s') (skey_len s') (pssc s') of
             None \<Rightarrow> None
           | Some iv \<Rightarrow>
               (case aes_cbc ossl True (pks_enc s') (skey_len s') iv (pace_iso_pad plaintext) of
                  None \<Rightarrow> None
                | Some e \<Rightarrow> chip_response (pace_mac ossl s') (pssc s') (Some e) sw1 sw2 trailer)))"

lemma pace_open_chip:
  assumes "length e < 65535" and "e \<noteq> []" and "length e mod 16 = 0"
    and "aes_ecb_encrypt_block ossl (pks_enc s) (skey_len s) (pssc s) = Some iv"
    and "aes_cbc ossl False (pks_enc s) (skey_len s) iv e = Some dec" and "iso_unpad dec = Some pt"
  shows "pace_open_do87 ossl s (chip_do87 (Some e) @ rest) 0 (length (chip_do87 (Some e))) sw =
    SM_Accepted (Some pt) sw"
proof -
  have two: "2 \<le> length (chip_do87 (Some e))" by (simp add: chip_do87_def length_tlv_ge)
  show ?thesis
    using read_chip_do87 [OF assms(1), of rest] assms(2-6)
    by (auto simp: pace_open_do87_def ber_header_length [OF two] Let_def)
qed

text \<open>
  The same for the AES layer: data and status word of a chip's response arrive,
  and an appended plain status word is harmless only if its second byte is zero.
\<close>

theorem pace_reply_roundtrip:
  assumes works: "cipher_works ossl" "cmac_works ossl" and ok: "pace_session_ok s"
    and p: "case p of None \<Rightarrow> True | Some pt \<Rightarrow> length pt < 65000" and x: "x \<notin> {0x87, 0x99, 0x8E}"
  shows "\<exists>r r'. pace_chip_reply ossl s p a b [] = Some r \<and> pace_chip_reply ossl s p a b [x, y] = Some r'
    \<and> pace_sm_unprotect ossl s r = (pace_next s, SM_Accepted p (unat a * 256 + unat b))
    \<and> pace_sm_unprotect ossl s r' =
        (if y = 0 then (pace_next s, SM_Accepted p (unat a * 256 + unat b)) else (s, SM_Rejected))"
proof -
  let ?n = "skey_len s" and ?s = "pace_next s"
  have n: "?n \<in> {16, 32}" and keys: "length (pks_enc s) = ?n" "length (pks_mac s) = ?n" and ctr: "length (pssc s) = 16"
    using ok by (simp_all add: pace_session_ok_def)
  have nxt: "skey_len ?s = ?n" "pks_enc ?s = pks_enc s" "pks_mac ?s = pks_mac s" "pssc ?s = ssc_increment (pssc s)"
    by (simp_all add: pace_next_def)
  define opens where "opens = (\<lambda>enc. case enc of None \<Rightarrow> p = None | Some e \<Rightarrow> \<forall>rest sw.
      pace_open_do87 ossl ?s (chip_do87 enc @ rest) 0 (length (chip_do87 enc)) sw = SM_Accepted p sw)"
  obtain enc where op: "opens enc" and small: "case enc of None \<Rightarrow> True | Some e \<Rightarrow> length e < 65535"
    and reply: "\<And>t. pace_chip_reply ossl s p a b t = chip_response (pace_mac ossl ?s) (pssc ?s) enc a b t"
  proof (cases p)
    case None
    then show ?thesis by (intro that [of None]) (simp_all add: opens_def pace_chip_reply_def Let_def)
  next
    case (Some pt)
    obtain iv where iv: "aes_ecb_encrypt_block ossl (pks_enc ?s) (skey_len ?s) (pssc ?s) = Some iv"
      using aes_ecb_total [OF works(1) n keys(1), of "ssc_increment (pssc s)"] ctr unfolding nxt by auto
    obtain e where e: "aes_cbc ossl True (pks_enc ?s) (skey_len ?s) iv (pace_iso_pad pt) = Some e"
      "length e = length (pace_iso_pad pt)" "aes_cbc ossl False (pks_enc ?s) (skey_len ?s) iv e = Some (pace_iso_pad pt)"
      using aes_roundtrip [OF works(1) n keys(1) pace_pad.pad_aligned, of iv pt] unfolding nxt by blast
    have len: "length e < 65535" "e \<noteq> []" "length e mod 16 = 0"
      using pace_pad.pad_bound [of pt] pace_pad.pad_aligned [of pt] p Some e(2) by auto
    have "opens (Some e)"
      using pace_open_chip [OF len iv e(3) pace_pad.unpad_pad] Some by (simp add: opens_def)
    with len e(1) iv Some show ?thesis
      by (intro that [of "Some e"]) (simp_all add: pace_chip_reply_def Let_def)
  qed
  have mac: "\<exists>m. pace_mac ossl ?s (pssc ?s @ chip_do87 enc @ [0x99, 0x02, a, b]) = Some m"
    using aes_cmac_total [OF works(2) n keys(2)] unfolding pace_mac_def nxt by blast
  from pace_unwrap.unprotect_chip_reply [OF mac small op [unfolded opens_def] x, of y]
  show ?thesis unfolding reply .
qed

theorem pace_reply_roundtrip_witness:
  "\<exists>r. pace_chip_reply demo_openssl \<lparr>pks_enc = replicate 32 1, pks_mac = replicate 32 2, pssc = replicate 16 0, skey_len = 32\<rparr>
       (Some (str ''DG1'')) 0x90 0x00 [] = Some r
     \<and> snd (pace_sm_unprotect demo_openssl \<lparr>pks_enc = replicate 32 1, pks_mac = replicate 32 2, pssc = replicate 16 0, skey_len = 32\<rparr> r)
         = SM_Accepted (Some (str ''DG1'')) 0x9000"
proof -
  let ?s = "\<lparr>pks_enc = replicate 32 1, pks_mac = replicate 32 2, pssc = replicate 16 0, skey_len = 32\<rparr>"
  have ok: "pace_session_ok ?s" by (simp add: pace_session_ok_def)
  have len: "case Some (str ''DG1'') of None \<Rightarrow> True | Some pt \<Rightarrow> length pt < 65000"
    by (simp add: length_str)
  have x: "(0x90 :: byte) \<notin> {0x87, 0x99, 0x8E}" by simp
  show ?thesis
    using pace_reply_roundtrip [OF demo_cipher_works demo_cmac_works ok len x, of "0x90" "0x00" "0x00"] by auto
qed



section \<open>Parsing responses\<close>

lemma find_in_7c_loop_defined: "end \<le> length resp \<Longrightarrow> find_in_7c_loop resp tag end pos \<noteq> Undefined"
proof (induction resp tag "end" pos rule: find_in_7c_loop.induct)
  case (1 resp tag "end" pos)
  then show ?case
    by (subst find_in_7c_loop.simps) (auto simp: rd_def rd_n_def read_or_Undefined split: if_splits)
qed

lemma find_in_7c_defined: "find_in_7c resp tag \<noteq> Undefined"
  by (auto simp: find_in_7c_def read_or_Undefined rd_None_iff find_in_7c_loop_defined split: if_splits)

lemma find_in_7c_bound: "find_in_7c resp tag = Parsed c \<Longrightarrow> length c < 128"
proof -
  have "find_in_7c_loop resp tag end pos = Parsed c \<Longrightarrow> length c < 128" for "end" pos
  proof (induction resp tag "end" pos rule: find_in_7c_loop.induct)
    case (1 resp tag "end" pos)
    from "1.prems" show ?case
      by (subst (asm) find_in_7c_loop.simps)
        (auto simp: read_or_Parsed rd_n_def word_less_nat_alt word_le_nat_alt not_le
          split: if_splits option.splits intro: "1.IH")
  qed
  then show "find_in_7c resp tag = Parsed c \<Longrightarrow> length c < 128"
    by (auto simp: find_in_7c_def read_or_Parsed split: if_splits)
qed

lemma find_in_wrap_7c:
  assumes "length data < 126"
  shows "find_in_7c (wrap_7c tag data @ rest) tag = Parsed data"
proof -
  let ?r = "wrap_7c tag data @ rest"
  have b: "byte_of (length data + 2) < 0x80" "byte_of (length data) < 0x80"
    using assms by (simp_all add: word_less_nat_alt)
  have "find_in_7c_loop ?r tag (Suc (Suc (Suc (Suc (length data))))) 2 = Parsed data"
    using b assms by (subst find_in_7c_loop.simps)
      (simp add: wrap_7c_def rd_def rd_n_def not_le [symmetric] numeral_2_eq_2)
  then show ?thesis
    using b assms by (simp add: find_in_7c_def wrap_7c_def rd_def not_le [symmetric])
qed

section \<open>EF.CardAccess\<close>

text \<open>The inner objects of a SecurityInfo, one after the other.\<close>

lemma skip_version_defined:
  assumes "pos + seq_len \<le> length data"
  shows "skip_version data pos seq_len p \<noteq> Undefined \<and> skip_version data pos seq_len p \<noteq> Malformed"
proof -
  have "p < seq_len \<Longrightarrow> bac_ber_tlv_header data (pos + p) (seq_len - p) \<noteq> Undefined"
    using assms by (intro ber_header_defined) simp
  then show ?thesis
    using assms by (auto simp: skip_version_def read_or_def rd_def split: option.splits outcome.splits if_splits)
qed

lemma read_parameter_id_defined:
  assumes "pos + seq_len + 16 \<le> length data"
  shows "read_parameter_id data pos seq_len p \<noteq> Undefined \<and> read_parameter_id data pos seq_len p \<noteq> Malformed"
proof -
  have "p < seq_len \<Longrightarrow> bac_ber_tlv_header data (pos + p) (seq_len - p) \<noteq> Undefined"
    using assms by (intro ber_header_defined) simp
  moreover have "ih \<le> seq_len - p" if "bac_ber_tlv_header data (pos + p) (seq_len - p) = Parsed (ih, ic)" for ih ic
    using ber_header_header [OF that] by simp
  ultimately show ?thesis
    using assms by (fastforce simp: read_parameter_id_def read_or_def rd_def rd_n_def
        split: option.splits outcome.splits if_splits)
qed

lemma parse_security_info_defined:
  assumes "pos + seq_len + 16 \<le> length data"
  shows "parse_security_info data pos h seq_len \<noteq> Undefined \<and> parse_security_info data pos h seq_len \<noteq> Malformed"
proof (cases "h < seq_len \<and> data ! (pos + h) = 0x06")
  case False
  then show ?thesis using assms by (auto simp: parse_security_info_def Let_def)
next
  case True
  then have rd: "rd data (pos + h) = Some 0x06" using assms by simp
  have hdr: "bac_ber_tlv_header data (pos + h) (seq_len - h) \<noteq> Undefined"
    using assms True by (intro ber_header_defined) simp
  have sv: "skip_version data pos seq_len p \<noteq> Undefined \<and> skip_version data pos seq_len p \<noteq> Malformed" for p
    using assms by (intro skip_version_defined) simp
  note pid = read_parameter_id_defined [OF assms]
  show ?thesis
  proof (cases "bac_ber_tlv_header data (pos + h) (seq_len - h)")
    case (Parsed x)
    obtain oh oc where x: "x = (oh, oc)" by (cases x)
    have "oh \<le> seq_len - h" using ber_header_header [OF Parsed [unfolded x]] by simp
    then have fit: "oc \<le> 16 \<Longrightarrow> pos + h + oh + oc \<le> length data"
      using True [THEN conjunct1] assms by linarith
    have tail: "(case skip_version data pos seq_len p of Undefined \<Rightarrow> Undefined | Malformed \<Rightarrow> Malformed
        | Parsed p' \<Rightarrow> (case read_parameter_id data pos seq_len p' of Undefined \<Rightarrow> Undefined | Malformed \<Rightarrow> Malformed
          | Parsed v \<Rightarrow> Parsed (Some \<lparr>e_oid = q, e_parameter_id = v\<rparr>))) \<notin> {Undefined, Malformed}" for p q
      using sv [of p] pid by (cases "skip_version data pos seq_len p") (auto split: outcome.split)
    show ?thesis
    proof (cases "0 < oc \<and> oc \<le> 16 \<and> length id_pace_prefix \<le> oc")
      case True
      then have r: "rd_n data (pos + h + oh) (length id_pace_prefix) = Some (take (length id_pace_prefix) (drop (pos + h + oh) data))"
          "rd_n data (pos + h + oh) oc = Some (take oc (drop (pos + h + oh) data))"
        using fit by auto
      then show ?thesis
        using tail [where p = "h + (oh + oc)" and q = "take oc (drop (pos + h + oh) data)"] rd Parsed True \<open>h < seq_len \<and> _\<close>
        by (simp add: parse_security_info_def x)
    qed (use rd Parsed \<open>h < seq_len \<and> _\<close> in \<open>auto simp: parse_security_info_def x\<close>)
  qed (use hdr rd True in \<open>simp_all add: parse_security_info_def\<close>)
qed

lemma security_infos_defined:
  "end + 16 \<le> length data \<Longrightarrow>
     security_infos data pos end n \<noteq> Undefined \<and> security_infos data pos end n \<noteq> Malformed"
proof (induction data pos "end" n rule: security_infos.induct)
  case (1 data pos "end" n)
  show ?case
  proof (cases "pos < end \<and> 0 < n \<and> data ! pos = 0x30")
    case False
    then show ?thesis using "1.prems" by (subst (1 2) security_infos.simps) auto
  next
    case True
    then have rd: "rd data pos = Some 0x30" using "1.prems" by simp
    have hdr: "bac_ber_tlv_header data pos (end - pos) \<noteq> Undefined"
      using "1.prems" True by (intro ber_header_defined) simp
    have info: "pos + (h + c) \<le> end \<Longrightarrow> parse_security_info data pos h (h + c) \<notin> {Undefined, Malformed}" for h c
      using parse_security_info_defined [of pos "h + c" data h] "1.prems" by simp
    show ?thesis
      using True rd hdr info "1.IH" "1.prems"
      by (subst (1 2) security_infos.simps)
        (auto simp: Let_def not_less split: outcome.splits option.splits if_splits)
  qed
qed

text \<open>
  C34.  Parsing EF.CardAccess reads at most 16 bytes beyond the length it is given: with that
  much behind the file it never leaves the buffer.  The inner objects are not checked
  against the SecurityInfo they stand in, so without it even six bytes make it read outside.
\<close>

theorem card_access_overread:
  "(\<forall>data len n. len + 16 \<le> length data \<longrightarrow> pace_parse_card_access data len n \<noteq> Undefined)
   \<and> pace_parse_card_access [0x31, 0x04, 0x30, 0x02, 0x06, 0x08] 6 16 = Undefined"
proof (intro conjI allI impI)
  fix data :: bytes and len n
  assume len: "len + 16 \<le> length data"
  have "2 \<le> len \<Longrightarrow> bac_ber_tlv_header data 0 len \<noteq> Undefined"
    using len by (intro ber_header_defined) simp
  then show "pace_parse_card_access data len n \<noteq> Undefined"
    using len security_infos_defined [of _ data]
    by (auto simp: pace_parse_card_access_def read_or_Undefined rd_None_iff split: outcome.splits if_splits)
qed code_simp

theorem card_access_overread_witness:
  "pace_parse_card_access ([0x31, 0x04, 0x30, 0x02, 0x06, 0x08] @ replicate 16 0) 6 16 \<noteq> Undefined"
  using card_access_overread [THEN conjunct1, rule_format, of 6 "[0x31, 0x04, 0x30, 0x02, 0x06, 0x08] @ replicate 16 0" 16]
  by simp

text \<open>A PACEInfo with version 2 and a standardized parameter, and the file of several of them.\<close>

definition pace_info :: "pace_info_entry \<Rightarrow> bytes" where
  "pace_info e = tlv 0x30 (tlv 0x06 (e_oid e) @ tlv 0x02 [0x02] @ tlv 0x02 [byte_of (nat (e_parameter_id e))])"

definition card_access_file :: "pace_info_entry list \<Rightarrow> bytes" where
  "card_access_file es = tlv 0x31 (concat (map pace_info es))"

definition standard_info :: "pace_info_entry \<Rightarrow> bool" where
  "standard_info e \<longleftrightarrow> take 8 (e_oid e) = id_pace_prefix \<and> length (e_oid e) \<le> 16
     \<and> 0 \<le> e_parameter_id e \<and> e_parameter_id e < 128"

lemma tlv_header:
  assumes "length c < 65536" and "length (tlv t c) \<le> avail"
  shows "bac_ber_tlv_header (pre @ tlv t c @ rest) (length pre) avail =
    Parsed (1 + length (ber_enc (length c)), length c)"
proof -
  have "ber_length (pre @ tlv t c @ rest) (length pre + 1) (avail - 1) =
      Parsed (length (ber_enc (length c)), length c)"
    by (rule ber_length_enc [OF assms(1), where rest = "c @ rest"])
      (use assms(2) in \<open>simp_all add: tlv_def\<close>)
  moreover have "2 \<le> avail" using assms(2) length_tlv_ge [of t c] by linarith
  ultimately show ?thesis by (simp add: ber_header_length)
qed

lemma tlv_short: "length c < 128 \<Longrightarrow> tlv t c = t # byte_of (length c) # c"
  by (simp add: tlv_def ber_enc_def)

lemma tlv_header_at:
  assumes "data = pre @ tlv t c @ rest" and "length pre = pos" and "length c < 128" and "length c + 2 \<le> avail"
  shows "bac_ber_tlv_header data pos avail = Parsed (2, length c)"
  using tlv_header [of c t avail pre rest] assms by (simp add: tlv_short ber_enc_def)

lemma tlv_byte_at:
  assumes "data = pre @ tlv t [v] @ rest" and "length pre = pos"
  shows "rd_n data (pos + 2) 1 = Some [v]"
  using assms by (auto simp: tlv_short rd_n_def)

lemma parameter_value_byte: "n < 128 \<Longrightarrow> parameter_value [byte_of n] = int n"
proof -
  assume "n < 128"
  then have "(ucast (byte_of n) :: 32 word) = word_of_nat n"
    by (simp add: byte_of_def unsigned_of_nat take_bit_nat_eq_self)
  moreover have "sint (word_of_nat n :: 32 word) = int n"
    using \<open>n < 128\<close> i32_of_nat_small [of n] by (simp add: i32_of_nat_def)
  ultimately show ?thesis by (simp add: parameter_value_def)
qed

text \<open>The three objects inside a PACEInfo, each at its offset.\<close>

lemma info_objects:
  assumes len: "8 \<le> length q" "length q \<le> 16"
    and d: "d = pre @ (0x30 # byte_of (length q + 8) # tlv 0x06 q @ tlv 0x02 [0x02] @ tlv 0x02 [v]) @ rest"
  shows "bac_ber_tlv_header d (length pre + 2) (length q + 8) = Parsed (2, length q)"
    and "rd d (length pre + 2) = Some 0x06" and "rd_n d (length pre + 2 + 2) (length q) = Some q"
    and "rd_n d (length pre + 2 + 2) 8 = Some (take 8 q)"
    and "skip_version d (length pre) (length q + 10) (length q + 4) = Parsed (length q + 7)"
    and "read_parameter_id d (length pre) (length q + 10) (length q + 7) = Parsed (parameter_value [v])"
proof -
  let ?o = "pre @ [0x30, byte_of (length q + 8)]"
  have o: "d = ?o @ tlv 0x06 q @ (tlv 0x02 [0x02] @ tlv 0x02 [v] @ rest)" "length ?o = length pre + 2"
    by (simp_all add: d)
  have p: "d = (?o @ tlv 0x06 q) @ tlv 0x02 [0x02] @ (tlv 0x02 [v] @ rest)" "length (?o @ tlv 0x06 q) = length pre + (length q + 4)"
    using len by (simp_all add: d tlv_short)
  have i: "d = (?o @ tlv 0x06 q @ tlv 0x02 [0x02]) @ tlv 0x02 [v] @ rest"
    "length (?o @ tlv 0x06 q @ tlv 0x02 [0x02]) = length pre + (length q + 7)"
    using len by (simp_all add: d tlv_short)
  show "bac_ber_tlv_header d (length pre + 2) (length q + 8) = Parsed (2, length q)"
    by (rule tlv_header_at [OF o]) (use len in simp_all)
  show "rd d (length pre + 2) = Some 0x06" "rd_n d (length pre + 2 + 2) (length q) = Some q"
    "rd_n d (length pre + 2 + 2) 8 = Some (take 8 q)"
    using len by (simp_all add: d tlv_short rd_def rd_n_def nth_append)
  have "rd d (length pre + (length q + 4)) = Some 0x02" "rd d (length pre + (length q + 7)) = Some 0x02"
    unfolding p(2) [symmetric] i(2) [symmetric] by (subst p(1) i(1), simp add: tlv_short rd_def nth_append)+
  then show "skip_version d (length pre) (length q + 10) (length q + 4) = Parsed (length q + 7)"
    and "read_parameter_id d (length pre) (length q + 10) (length q + 7) = Parsed (parameter_value [v])"
    using tlv_header_at [OF p] tlv_header_at [OF i] tlv_byte_at [OF i]
    by (simp_all add: skip_version_def read_parameter_id_def)
qed

lemma parse_pace_info:
  assumes "standard_info e"
  shows "\<exists>h c. h + c = length (pace_info e) \<and> 2 \<le> h \<and>
    (\<forall>avail \<ge> length (pace_info e). bac_ber_tlv_header (pre @ pace_info e @ rest) (length pre) avail = Parsed (h, c)) \<and>
    parse_security_info (pre @ pace_info e @ rest) (length pre) h (h + c) = Parsed (Some e)"
proof -
  let ?oid = "e_oid e" and ?v = "byte_of (nat (e_parameter_id e))" and ?d = "pre @ pace_info e @ rest"
  let ?in = "tlv 0x06 ?oid @ tlv 0x02 [0x02] @ tlv 0x02 [?v]"
  have prefix: "take 8 ?oid = id_pace_prefix" "length id_pace_prefix = 8"
    using assms by (simp_all add: standard_info_def id_pace_prefix_def)
  from arg_cong [OF prefix(1), of length] prefix(2) have len: "8 \<le> length ?oid" "length ?oid \<le> 16"
    using assms by (simp_all add: standard_info_def min_def split: if_splits)
  have inl: "length ?in = length ?oid + 8" using len by (simp add: tlv_short)
  have short: "pace_info e = 0x30 # byte_of (length ?oid + 8) # ?in"
    unfolding pace_info_def inl [symmetric] by (rule tlv_short) (use len inl in simp)
  have d: "?d = pre @ (0x30 # byte_of (length ?oid + 8) # ?in) @ rest" by (simp only: short)
  have hdr: "bac_ber_tlv_header ?d (length pre) avail = Parsed (2, length ?oid + 8)"
    if "length (pace_info e) \<le> avail" for avail
    using tlv_header [of ?in "0x30" avail pre rest] inl len that
    by (simp add: pace_info_def ber_enc_def)
  have "0 \<le> e_parameter_id e" "nat (e_parameter_id e) < 128"
    using assms by (simp_all add: standard_info_def nat_less_iff)
  then have "parameter_value [?v] = e_parameter_id e"
    using parameter_value_byte [of "nat (e_parameter_id e)"] by simp
  moreover have "?oid \<noteq> []" and four: "Suc (Suc (Suc (Suc (length ?oid)))) = length ?oid + 4" using len by auto
  ultimately have "parse_security_info ?d (length pre) 2 (length ?oid + 10) = Parsed (Some e)"
    using info_objects [OF len d] prefix len by (simp add: parse_security_info_def add.commute four)
  moreover have "2 + (length ?oid + 8) = length (pace_info e)" "2 + (length ?oid + 8) = length ?oid + 10"
    using inl by (simp_all add: short)
  ultimately show ?thesis
    using hdr by (metis order_refl)
qed

lemma security_infos_file:
  assumes "\<forall>e \<in> set es. standard_info e"
  shows "security_infos (pre @ concat (map pace_info es)) (length pre) (length (pre @ concat (map pace_info es))) n =
    Parsed (take n es)"
  using assms
proof (induction es arbitrary: pre n)
  case Nil
  then show ?case by (simp add: security_infos.simps)
next
  case (Cons e es)
  let ?rest = "concat (map pace_info es)"
  let ?d = "pre @ pace_info e @ ?rest"
  have std: "standard_info e" using Cons.prems by simp
  from parse_pace_info [OF std, of pre ?rest] obtain h c where hc: "h + c = length (pace_info e)" "2 \<le> h"
    and hdr: "bac_ber_tlv_header ?d (length pre) (length ?d - length pre) = Parsed (h, c)"
    and info: "parse_security_info ?d (length pre) h (h + c) = Parsed (Some e)"
    by auto
  have tag: "rd ?d (length pre) = Some 0x30"
    by (simp add: pace_info_def tlv_def rd_def nth_append)
  have more: "0 < length (pace_info e)" by (simp add: pace_info_def tlv_def)
  have step: "security_infos ?d (length (pre @ pace_info e)) (length ?d) m = Parsed (take m es)" for m
    using Cons.IH [of "pre @ pace_info e" m] Cons.prems by simp
  have fit: "\<not> length ?d < length pre + (h + c)" using hc by simp
  show ?case
  proof (cases n)
    case 0
    then show ?thesis by (simp add: security_infos.simps)
  next
    case (Suc m)
    with hdr info tag more step [of m] hc fit show ?thesis
      by (subst security_infos.simps) (simp add: Let_def)
  qed
qed



end
