(* ===== verification/Pace_Agreement.thy ===== *)
theory Pace_Agreement
  imports Pace_Facts "HOL-Library.Monad_Syntax"
begin

text \<open>
  PACE against an honest chip: both sides end with the same session keys and accept each
  other's token.  And against a chip that knows nothing: the reader accepts its own
  round-3 key and its own token when they are sent back to it.
\<close>

section \<open>What is assumed of the curve library\<close>

text \<open>
  \<open>G g n\<close>: a group of prime order over a field of \<open>n\<close> bytes; \<open>P g p\<close>: a point of it other
  than infinity; \<open>S a\<close>: a scalar the order does not divide.  The laws are the documented
  ones: multiplication is total and commutes, points other than infinity have an encoding
  of \<open>1 + 2 n\<close> bytes that decodes to them, an x-coordinate, and can be generators.
\<close>

definition ec_laws :: "('g, 'p) ec_lib \<Rightarrow> ('g \<Rightarrow> nat \<Rightarrow> bool) \<Rightarrow> ('g \<Rightarrow> 'p \<Rightarrow> bool) \<Rightarrow> (nat \<Rightarrow> bool) \<Rightarrow> bool" where
  "ec_laws ec G P S \<longleftrightarrow> (\<forall>g n. G g n \<longrightarrow>
     (\<forall>a. \<exists>p. EC_POINT_mul_generator ec g a = Some p \<and> (S a \<longrightarrow> P g p))
   \<and> (\<forall>p a. P g p \<longrightarrow> S a \<longrightarrow> (\<exists>q. EC_POINT_mul ec g p a = Some q \<and> P g q))
   \<and> (\<forall>a b p q. EC_POINT_mul_generator ec g a = Some p \<longrightarrow> EC_POINT_mul_generator ec g b = Some q \<longrightarrow>
        EC_POINT_mul ec g p b = EC_POINT_mul ec g q a)
   \<and> (\<forall>p. P g p \<longrightarrow> (\<exists>bs. EC_POINT_point2oct ec g p = Some bs \<and> length bs = 1 + 2 * n \<and> bs ! 0 = 0x04
        \<and> EC_POINT_oct2point ec g bs = Some p))
   \<and> (\<forall>p. P g p \<longrightarrow> (\<exists>x. EC_POINT_affine_x ec g p = Some x \<and> x < 256 ^ n))
   \<and> (\<forall>p. P g p \<longrightarrow> (\<exists>g2. EC_GROUP_with_generator ec g p = Some g2 \<and> G g2 n)))"

lemma ec_lawsD:
  assumes "ec_laws ec G P S" and "G g n"
  shows "\<exists>p. EC_POINT_mul_generator ec g a = Some p \<and> (S a \<longrightarrow> P g p)"
    and "P g p \<Longrightarrow> S a \<Longrightarrow> \<exists>q. EC_POINT_mul ec g p a = Some q \<and> P g q"
    and "EC_POINT_mul_generator ec g a = Some p \<Longrightarrow> EC_POINT_mul_generator ec g b = Some q \<Longrightarrow>
      EC_POINT_mul ec g p b = EC_POINT_mul ec g q a"
    and "P g p \<Longrightarrow> \<exists>bs. EC_POINT_point2oct ec g p = Some bs \<and> length bs = 1 + 2 * n \<and> bs ! 0 = 0x04
        \<and> EC_POINT_oct2point ec g bs = Some p"
    and "P g p \<Longrightarrow> \<exists>x. EC_POINT_affine_x ec g p = Some x \<and> x < 256 ^ n"
    and "P g p \<Longrightarrow> \<exists>g2. EC_GROUP_with_generator ec g p = Some g2 \<and> G g2 n"
  using assms(1) [unfolded ec_laws_def, rule_format, OF assms(2)] by blast+

section \<open>The chip's side\<close>

definition chip_public :: "('g, 'p) ec_lib \<Rightarrow> 'g \<Rightarrow> nat \<Rightarrow> bytes option" where
  "chip_public ec g c = do { p \<leftarrow> EC_POINT_mul_generator ec g c; EC_POINT_point2oct ec g p }"

definition chip_generator :: "('g, 'p) ec_lib \<Rightarrow> 'g \<Rightarrow> bytes \<Rightarrow> nat \<Rightarrow> bytes \<Rightarrow> 'g option" where
  "chip_generator ec g s c1 pcd_pub1 = do {
     q \<leftarrow> EC_POINT_oct2point ec g pcd_pub1;
     h \<leftarrow> EC_POINT_mul ec g q c1;
     sg \<leftarrow> EC_POINT_mul_generator ec g (be_val s);
     gt \<leftarrow> EC_POINT_add ec g sg h;
     EC_GROUP_with_generator ec g gt }"

definition chip_session :: "openssl \<Rightarrow> ('g, 'p) ec_lib \<Rightarrow> 'g \<Rightarrow> nat \<Rightarrow> nat \<Rightarrow> nat \<Rightarrow> bytes \<Rightarrow> pace_session option" where
  "chip_session ossl ec g2 klen clen c2 pcd_pub2 = do {
     q \<leftarrow> EC_POINT_oct2point ec g2 pcd_pub2;
     shared \<leftarrow> EC_POINT_mul ec g2 q c2;
     x \<leftarrow> EC_POINT_affine_x ec g2 shared;
     k \<leftarrow> BN_bn2binpad x clen;
     Some \<lparr>pks_enc = pace_kdf ossl k 1 klen, pks_mac = pace_kdf ossl k 2 klen, pssc = replicate 16 0, skey_len = klen\<rparr> }"

definition chip_token :: "openssl \<Rightarrow> pace_session \<Rightarrow> bytes \<Rightarrow> bytes \<Rightarrow> bytes option" where
  "chip_token ossl s pid pub =
     map_option (take 8) (aes_cmac ossl (pks_mac s) (skey_len s)
       ([0x7F, 0x49, byte_of (2 + length pid + 2 + length pub)] @ [0x06, byte_of (length pid)] @ pid
        @ [0x86, byte_of (length pub)] @ pub))"

definition parsed :: "'a outcome \<Rightarrow> 'a option" where
  "parsed r = (case r of Parsed x \<Rightarrow> Some x | _ \<Rightarrow> None)"

lemma parsed_Parsed [simp]: "parsed (Parsed x) = Some x"
  by (simp add: parsed_def)

text \<open>
  A complete run: reader with scalars \<open>r1\<close>, \<open>r2\<close>, chip with nonce \<open>s\<close> and scalars
  \<open>c1\<close>, \<open>c2\<close>, both with the password \<open>k\<close>.  The chip takes the reader's values out of
  the commands it receives.  Result: both sessions, whether the chip accepts the reader's
  token, whether the reader accepts the chip's.
\<close>

definition pace_run :: "openssl \<Rightarrow> ('g, 'p) ec_lib \<Rightarrow> bytes \<Rightarrow> curve_nid \<Rightarrow> bytes \<Rightarrow> bytes \<Rightarrow> nat \<Rightarrow> nat \<Rightarrow> nat \<Rightarrow> nat
    \<Rightarrow> (pace_session \<times> pace_session \<times> bool \<times> bool) option" where
  "pace_run ossl ec k curve pid s r1 r2 c1 c2 = do {
     pace0 \<leftarrow> pace_exchange_new ossl ec k curve pid;
     let klen = pace_key_len_for_oid pid;
     z \<leftarrow> aes_cbc ossl True (pace_kdf ossl k 3 klen) klen (replicate 16 0) s;
     pace1 \<leftarrow> parsed (pace_process_nonce_response ossl pace0 (wrap_7c 0x80 z));
     (pace2, m2) \<leftarrow> pace_build_map_nonce ec pace1 (Some r1);
     pcd1 \<leftarrow> parsed (find_in_7c (drop 5 m2) 0x81);
     chip1 \<leftarrow> chip_public ec (group pace0) c1;
     g2 \<leftarrow> chip_generator ec (group pace0) s c1 pcd1;
     pace3 \<leftarrow> parsed (pace_process_map_nonce_response ec pace2 (wrap_7c 0x82 chip1));
     (pace4, m3) \<leftarrow> parsed (pace_build_key_agreement ec pace3 (Some r2));
     pcd2 \<leftarrow> parsed (find_in_7c (drop 5 m3) 0x83);
     chip2 \<leftarrow> chip_public ec g2 c2;
     chip_s \<leftarrow> chip_session ossl ec g2 klen (coord_len pace0) c2 pcd2;
     (pace5, reader_s) \<leftarrow> parsed (pace_process_key_agreement_response ossl ec pace4 (wrap_7c 0x84 chip2));
     m4 \<leftarrow> pace_build_mutual_auth ossl pace5;
     t_pcd \<leftarrow> parsed (find_in_7c (drop 5 m4) 0x85);
     t_expected \<leftarrow> chip_token ossl chip_s pid chip2;
     t_icc \<leftarrow> chip_token ossl chip_s pid pcd2;
     ok \<leftarrow> parsed (pace_verify_mutual_auth_response ossl pace5 (wrap_7c 0x86 t_icc));
     Some (reader_s, chip_s, t_pcd = t_expected, ok) }"

section \<open>Agreement\<close>

lemma length_token: "chip_token ossl s pid pub = Some t \<Longrightarrow> length t = 8"
  by (auto simp: chip_token_def dest!: aes_cmac_length)

text \<open>Encoding and decoding of a public key that a law guarantees.\<close>

lemma point_bytes:
  assumes laws: "ec_laws ec G P S" and g: "G g n" and n: "n \<le> 40" and a: "S a"
  shows "\<exists>p bs. EC_POINT_mul_generator ec g a = Some p \<and> P g p
    \<and> point_to_bytes ec g p (1 + 2 * n) = Some bs \<and> EC_POINT_point2oct ec g p = Some bs
    \<and> length bs = 1 + 2 * n \<and> length bs < 126
    \<and> point_from_bytes ec g bs (1 + 2 * n) = Some p \<and> EC_POINT_oct2point ec g bs = Some p"
proof -
  obtain p where p: "EC_POINT_mul_generator ec g a = Some p" "P g p"
    using ec_lawsD(1) [OF laws g, of a] a by blast
  obtain bs where "EC_POINT_point2oct ec g p = Some bs" "length bs = 1 + 2 * n" "bs ! 0 = 0x04"
      "EC_POINT_oct2point ec g bs = Some p"
    using ec_lawsD(4) [OF laws g p(2)] by blast
  with p n show ?thesis by (auto simp: point_to_bytes_def point_from_bytes_def)
qed

lemma build_ga_data: "drop 5 (build_ga t data) = wrap_7c t data @ [0x00]"
  by (simp add: build_ga_def Let_def)

lemma exchange_new_fields:
  assumes "pace_exchange_new ossl ec k curve pid = Some pace0"
  shows "oid pace0 = pid" and "key_len pace0 = pace_key_len_for_oid pid"
    and "kpi pace0 = pace_kdf ossl k 3 (pace_key_len_for_oid pid)" and "pub_len pace0 = 1 + 2 * coord_len pace0"
    and "coord_len pace0 \<le> 40" and "pace_key_len_for_oid pid \<in> {16, 32}"
  using assms by (auto simp: pace_exchange_new_def Let_def pace_key_len_for_oid_def split: if_splits option.splits)

text \<open>The four rounds, each with what it leaves to the next.\<close>

lemma nonce_round:
  assumes works: "digest_sizes ossl" "cipher_works ossl"
    and new: "pace_exchange_new ossl ec k curve pid = Some pace0"
    and nonce: "s \<noteq> []" "length s mod 16 = 0" "length s \<le> 64"
  shows "\<exists>z. aes_cbc ossl True (pace_kdf ossl k 3 (pace_key_len_for_oid pid)) (pace_key_len_for_oid pid) (replicate 16 0) s = Some z
    \<and> pace_process_nonce_response ossl pace0 (wrap_7c 0x80 z) = Parsed (pace0\<lparr>nonce_s := s\<rparr>)"
proof -
  let ?klen = "pace_key_len_for_oid pid"
  note f = exchange_new_fields [OF new]
  have kpi: "length (pace_kdf ossl k 3 ?klen) = ?klen" by (rule length_pace_kdf [OF works(1) f(6)])
  obtain z where z: "aes_cbc ossl True (pace_kdf ossl k 3 ?klen) ?klen (replicate 16 0) s = Some z"
      "length z = length s" "aes_cbc ossl False (pace_kdf ossl k 3 ?klen) ?klen (replicate 16 0) z = Some s"
    using aes_roundtrip [OF works(2) f(6) kpi nonce(2)] by blast
  then show ?thesis
    using find_in_wrap_7c [of z "0x80" "[]"] nonce f(2,3)
    by (simp add: pace_process_nonce_response_def PACE_NONCE_LEN_MAX_def)
qed

lemma map_round:
  assumes laws: "ec_laws ec G P S" and grp: "G (group pace) n" "n \<le> 40" "pub_len pace = 1 + 2 * n"
    and scalars: "S r1" "S c1"
    and mapped: "\<forall>p h sg. EC_POINT_mul_generator ec (group pace) c1 = Some p \<longrightarrow> EC_POINT_mul ec (group pace) p r1 = Some h
      \<longrightarrow> EC_POINT_mul_generator ec (group pace) (be_val (nonce_s pace)) = Some sg
      \<longrightarrow> (\<exists>gt. EC_POINT_add ec (group pace) sg h = Some gt \<and> P (group pace) gt)"
  obtains b1 d1 g2 where "pace_build_map_nonce ec pace (Some r1) = Some (pace\<lparr>priv1 := Some r1\<rparr>, build_ga 0x81 b1)"
    "length b1 < 126" "chip_public ec (group pace) c1 = Some d1"
    "chip_generator ec (group pace) (nonce_s pace) c1 b1 = Some g2" "G g2 n"
    "pace_process_map_nonce_response ec (pace\<lparr>priv1 := Some r1\<rparr>) (wrap_7c 0x82 d1)
      = Parsed (pace\<lparr>priv1 := Some r1, group2 := Some g2\<rparr>)"
proof -
  let ?g = "group pace"
  obtain p1 b1 where p1: "EC_POINT_mul_generator ec ?g r1 = Some p1" "P ?g p1"
      "point_to_bytes ec ?g p1 (1 + 2 * n) = Some b1" "length b1 < 126" "EC_POINT_oct2point ec ?g b1 = Some p1"
    using point_bytes [OF laws grp(1,2) scalars(1)] by blast
  obtain q1 d1 where q1: "EC_POINT_mul_generator ec ?g c1 = Some q1" "P ?g q1"
      "EC_POINT_point2oct ec ?g q1 = Some d1" "length d1 < 126" "point_from_bytes ec ?g d1 (1 + 2 * n) = Some q1"
    using point_bytes [OF laws grp(1,2) scalars(2)] by blast
  obtain h where h: "EC_POINT_mul ec ?g q1 r1 = Some h" "EC_POINT_mul ec ?g p1 c1 = Some h"
    using ec_lawsD(2) [OF laws grp(1) q1(2) scalars(1)] ec_lawsD(3) [OF laws grp(1) p1(1) q1(1)] by auto
  obtain sg where sg: "EC_POINT_mul_generator ec ?g (be_val (nonce_s pace)) = Some sg"
    using ec_lawsD(1) [OF laws grp(1)] by blast
  obtain gt where gt: "EC_POINT_add ec ?g sg h = Some gt" "P ?g gt"
    using mapped q1(1) h(1) sg by blast
  obtain g2 where g2: "EC_GROUP_with_generator ec ?g gt = Some g2" "G g2 n"
    using ec_lawsD(6) [OF laws grp(1) gt(2)] by blast
  show thesis
  proof (rule that [of b1 d1 g2])
    show "pace_build_map_nonce ec pace (Some r1) = Some (pace\<lparr>priv1 := Some r1\<rparr>, build_ga 0x81 b1)"
      using p1 grp(3) by (simp add: pace_build_map_nonce_def)
    show "pace_process_map_nonce_response ec (pace\<lparr>priv1 := Some r1\<rparr>) (wrap_7c 0x82 d1)
      = Parsed (pace\<lparr>priv1 := Some r1, group2 := Some g2\<rparr>)"
      using find_in_wrap_7c [of d1 "0x82" "[]"] q1 h sg gt g2 grp(3) by (simp add: pace_process_map_nonce_response_def)
  qed (use p1 q1 h sg gt g2 in \<open>simp_all add: chip_generator_def chip_public_def\<close>)
qed

lemma key_round:
  assumes works: "digest_sizes ossl" and laws: "ec_laws ec G P S"
    and pace: "group2 pace = Some g2" "G g2 (coord_len pace)" "coord_len pace \<le> 40"
      "pub_len pace = 1 + 2 * coord_len pace" "key_len pace \<in> {16, 32}"
    and scalars: "S r2" "S c2"
  obtains b2 d2 ses where
    "pace_build_key_agreement ec pace (Some r2) = Parsed (pace\<lparr>priv2 := Some r2, my_pub2 := b2\<rparr>, build_ga 0x83 b2)"
    "length b2 = 1 + 2 * coord_len pace" "length b2 < 126" "chip_public ec g2 c2 = Some d2" "length d2 = 1 + 2 * coord_len pace"
    "chip_session ossl ec g2 (key_len pace) (coord_len pace) c2 b2 = Some ses"
    "pace_process_key_agreement_response ossl ec (pace\<lparr>priv2 := Some r2, my_pub2 := b2\<rparr>) (wrap_7c 0x84 d2)
      = Parsed (pace\<lparr>priv2 := Some r2, my_pub2 := b2, chip_pub2 := d2, session := ses\<rparr>, ses)"
    "pace_session_ok ses" "pssc ses = replicate 16 0" "skey_len ses = key_len pace" "length (pks_mac ses) = key_len pace"
proof -
  let ?n = "coord_len pace" and ?klen = "key_len pace"
  obtain p2 b2 where p2: "EC_POINT_mul_generator ec g2 r2 = Some p2" "P g2 p2"
      "point_to_bytes ec g2 p2 (1 + 2 * ?n) = Some b2" "length b2 = 1 + 2 * ?n" "length b2 < 126"
      "EC_POINT_oct2point ec g2 b2 = Some p2"
    using point_bytes [OF laws pace(2,3) scalars(1)] by blast
  obtain q2 d2 where q2: "EC_POINT_mul_generator ec g2 c2 = Some q2" "P g2 q2"
      "EC_POINT_point2oct ec g2 q2 = Some d2" "length d2 = 1 + 2 * ?n" "length d2 < 126"
      "point_from_bytes ec g2 d2 (1 + 2 * ?n) = Some q2"
    using point_bytes [OF laws pace(2,3) scalars(2)] by blast
  obtain sh where sh: "EC_POINT_mul ec g2 q2 r2 = Some sh" "EC_POINT_mul ec g2 p2 c2 = Some sh" "P g2 sh"
    using ec_lawsD(2) [OF laws pace(2) q2(2) scalars(1)] ec_lawsD(3) [OF laws pace(2) p2(1) q2(1)] by auto
  obtain x kb where x: "EC_POINT_affine_x ec g2 sh = Some x" "BN_bn2binpad x ?n = Some kb"
    using ec_lawsD(5) [OF laws pace(2) sh(3)] by (auto simp: BN_bn2binpad_def)
  let ?ses = "\<lparr>pks_enc = pace_kdf ossl kb 1 ?klen, pks_mac = pace_kdf ossl kb 2 ?klen,
      pssc = replicate 16 0, skey_len = ?klen\<rparr>"
  show thesis
  proof (rule that [of b2 d2 ?ses])
    show "pace_build_key_agreement ec pace (Some r2) = Parsed (pace\<lparr>priv2 := Some r2, my_pub2 := b2\<rparr>, build_ga 0x83 b2)"
      using p2 pace by (simp add: pace_build_key_agreement_def)
    show "pace_process_key_agreement_response ossl ec (pace\<lparr>priv2 := Some r2, my_pub2 := b2\<rparr>) (wrap_7c 0x84 d2)
      = Parsed (pace\<lparr>priv2 := Some r2, my_pub2 := b2, chip_pub2 := d2, session := ?ses\<rparr>, ?ses)"
      using find_in_wrap_7c [of d2 "0x84" "[]"] q2 sh x pace
      by (simp add: pace_process_key_agreement_response_def Let_def)
  qed (use p2 q2 sh x length_pace_kdf [OF works pace(5)] pace(5) in
      \<open>auto simp: chip_public_def chip_session_def pace_session_ok_def\<close>)
qed

lemma token_round:
  assumes works: "cmac_works ossl"
    and pace: "oid pace = pid" "pub_len pace = length (chip_pub2 pace)" "pub_len pace = length (my_pub2 pace)"
      "key_len pace \<in> {16, 32}"
    and ses: "session pace = ses" "skey_len ses = key_len pace" "length (pks_mac ses) = key_len pace"
  obtains t1 t2 where "chip_token ossl ses pid (chip_pub2 pace) = Some t1" "chip_token ossl ses pid (my_pub2 pace) = Some t2"
    "pace_build_mutual_auth ossl pace =
      Some ([0x00, 0x86, 0x00, 0x00] @ [byte_of (length (wrap_7c 0x85 t1))] @ wrap_7c 0x85 t1 @ [0x00])"
    "find_in_7c (drop 5 ([0x00, 0x86, 0x00, 0x00] @ [byte_of (length (wrap_7c 0x85 t1))] @ wrap_7c 0x85 t1 @ [0x00])) 0x85
      = Parsed t1"
    "pace_verify_mutual_auth_response ossl pace (wrap_7c 0x86 t2) = Parsed True"
proof -
  have mac: "\<exists>t. chip_token ossl ses pid pub = Some t" for pub
    using aes_cmac_total [OF works pace(4), of "pks_mac ses"] ses(2,3) by (force simp: chip_token_def)
  obtain t1 t2 where t: "chip_token ossl ses pid (chip_pub2 pace) = Some t1" "chip_token ossl ses pid (my_pub2 pace) = Some t2"
    using mac by metis
  have token: "compute_token ossl pace pub = chip_token ossl ses pid pub" if "length pub = pub_len pace" for pub
    using that pace(1) ses(1,2) by (simp add: compute_token_def chip_token_def encode_token_input_def)
  show thesis
  proof (rule that [OF t])
    show "pace_build_mutual_auth ossl pace =
      Some ([0x00, 0x86, 0x00, 0x00] @ [byte_of (length (wrap_7c 0x85 t1))] @ wrap_7c 0x85 t1 @ [0x00])"
      using token [of "chip_pub2 pace"] pace(2) t(1) by (simp add: pace_build_mutual_auth_def Let_def)
    show "pace_verify_mutual_auth_response ossl pace (wrap_7c 0x86 t2) = Parsed True"
      using find_in_wrap_7c [of t2 "0x86" "[]"] token [of "my_pub2 pace"] pace(3) t(2) length_token [OF t(2)]
      by (simp add: pace_verify_mutual_auth_response_def bytes_equal_iff)
    show "find_in_7c (drop 5 ([0x00, 0x86, 0x00, 0x00] @ [byte_of (length (wrap_7c 0x85 t1))] @ wrap_7c 0x85 t1 @ [0x00])) 0x85
      = Parsed t1"
      using find_in_wrap_7c [of t1 "0x85" "[0x00]"] length_token [OF t(1)] by simp
  qed
qed

text \<open>
  C17.  With a library that keeps its laws, valid scalars and a nonce whose mapping does
  not hit infinity, the run completes: reader and chip have the same session keys and a
  zero counter, and each accepts the other's token.
\<close>

theorem pace_agreement:
  assumes works: "digest_sizes ossl" "cipher_works ossl" "cmac_works ossl" and laws: "ec_laws ec G P S"
    and new: "pace_exchange_new ossl ec k curve pid = Some pace0" and grp: "G (group pace0) (coord_len pace0)"
    and scalars: "S r1" "S r2" "S c1" "S c2"
    and nonce: "s \<noteq> []" "length s mod 16 = 0" "length s \<le> 64"
    and mapped: "\<forall>p h sg. EC_POINT_mul_generator ec (group pace0) c1 = Some p \<longrightarrow> EC_POINT_mul ec (group pace0) p r1 = Some h
      \<longrightarrow> EC_POINT_mul_generator ec (group pace0) (be_val s) = Some sg
      \<longrightarrow> (\<exists>gt. EC_POINT_add ec (group pace0) sg h = Some gt \<and> P (group pace0) gt)"
  shows "\<exists>session. pace_run ossl ec k curve pid s r1 r2 c1 c2 = Some (session, session, True, True)
    \<and> pace_session_ok session \<and> pssc session = replicate 16 0"
proof -
  note f = exchange_new_fields [OF new]
  obtain z where z: "aes_cbc ossl True (pace_kdf ossl k 3 (pace_key_len_for_oid pid)) (pace_key_len_for_oid pid)
      (replicate 16 0) s = Some z"
    and r1: "pace_process_nonce_response ossl pace0 (wrap_7c 0x80 z) = Parsed (pace0\<lparr>nonce_s := s\<rparr>)"
    using nonce_round [OF works(1,2) new nonce] by blast
  let ?pace1 = "pace0\<lparr>nonce_s := s\<rparr>"
  have pace1: "G (group ?pace1) (coord_len pace0)" "pub_len ?pace1 = 1 + 2 * coord_len pace0" using grp f(4) by simp_all
  have mapped1: "\<forall>p h sg. EC_POINT_mul_generator ec (group ?pace1) c1 = Some p \<longrightarrow> EC_POINT_mul ec (group ?pace1) p r1 = Some h
      \<longrightarrow> EC_POINT_mul_generator ec (group ?pace1) (be_val (nonce_s ?pace1)) = Some sg
      \<longrightarrow> (\<exists>gt. EC_POINT_add ec (group ?pace1) sg h = Some gt \<and> P (group ?pace1) gt)"
    using mapped by simp
  obtain b1 d1 g2 where r2: "pace_build_map_nonce ec ?pace1 (Some r1) = Some (?pace1\<lparr>priv1 := Some r1\<rparr>, build_ga 0x81 b1)"
      "length b1 < 126" "chip_public ec (group pace0) c1 = Some d1" "chip_generator ec (group pace0) s c1 b1 = Some g2"
      "pace_process_map_nonce_response ec (?pace1\<lparr>priv1 := Some r1\<rparr>) (wrap_7c 0x82 d1)
        = Parsed (?pace1\<lparr>priv1 := Some r1, group2 := Some g2\<rparr>)"
    and g2: "G g2 (coord_len pace0)"
    by (rule map_round [OF laws pace1(1) f(5) pace1(2) scalars(1,3) mapped1]) (rule that, simp_all)
  let ?pace3 = "?pace1\<lparr>priv1 := Some r1, group2 := Some g2\<rparr>"
  have pace3: "group2 ?pace3 = Some g2" "G g2 (coord_len ?pace3)" "coord_len ?pace3 \<le> 40"
      "pub_len ?pace3 = 1 + 2 * coord_len ?pace3" "key_len ?pace3 \<in> {16, 32}" using g2 f by simp_all
  obtain b2 d2 ses where key: "pace_build_key_agreement ec ?pace3 (Some r2) =
        Parsed (?pace3\<lparr>priv2 := Some r2, my_pub2 := b2\<rparr>, build_ga 0x83 b2)"
      "length b2 = 1 + 2 * coord_len ?pace3" "length b2 < 126" "chip_public ec g2 c2 = Some d2" "length d2 = 1 + 2 * coord_len ?pace3"
      "chip_session ossl ec g2 (key_len ?pace3) (coord_len ?pace3) c2 b2 = Some ses"
      "pace_process_key_agreement_response ossl ec (?pace3\<lparr>priv2 := Some r2, my_pub2 := b2\<rparr>) (wrap_7c 0x84 d2)
        = Parsed (?pace3\<lparr>priv2 := Some r2, my_pub2 := b2, chip_pub2 := d2, session := ses\<rparr>, ses)"
      "pace_session_ok ses" "pssc ses = replicate 16 0" "skey_len ses = key_len ?pace3" "length (pks_mac ses) = key_len ?pace3"
    by (rule key_round [OF works(1) laws pace3 scalars(2,4)])
  have r3: "chip_session ossl ec g2 (pace_key_len_for_oid pid) (coord_len pace0) c2 b2 = Some ses"
    and len: "length b2 = 1 + 2 * coord_len pace0" "length d2 = 1 + 2 * coord_len pace0"
    and ses: "skey_len ses = key_len pace0" "length (pks_mac ses) = key_len pace0"
    using key f(2) by simp_all
  let ?pace5 = "?pace3\<lparr>priv2 := Some r2, my_pub2 := b2, chip_pub2 := d2, session := ses\<rparr>"
  have pace5: "oid ?pace5 = pid" "pub_len ?pace5 = length (chip_pub2 ?pace5)" "pub_len ?pace5 = length (my_pub2 ?pace5)"
      "key_len ?pace5 \<in> {16, 32}" "session ?pace5 = ses" "skey_len ses = key_len ?pace5" "length (pks_mac ses) = key_len ?pace5"
    using f len ses by simp_all
  from token_round [OF works(3) pace5]
  obtain t1 t2 where r4: "chip_token ossl ses pid d2 = Some t1" "chip_token ossl ses pid b2 = Some t2"
      "pace_build_mutual_auth ossl ?pace5 =
        Some ([0x00, 0x86, 0x00, 0x00] @ [byte_of (length (wrap_7c 0x85 t1))] @ wrap_7c 0x85 t1 @ [0x00])"
      "find_in_7c (drop 5 ([0x00, 0x86, 0x00, 0x00] @ [byte_of (length (wrap_7c 0x85 t1))] @ wrap_7c 0x85 t1 @ [0x00])) 0x85
        = Parsed t1"
      "pace_verify_mutual_auth_response ossl ?pace5 (wrap_7c 0x86 t2) = Parsed True"
    by auto
  have sent: "find_in_7c (drop 5 (build_ga t d)) t = Parsed d" if "length d < 126" for t d
    unfolding build_ga_data by (rule find_in_wrap_7c [OF that])
  have "pace_run ossl ec k curve pid s r1 r2 c1 c2 = Some (ses, ses, True, True)"
    unfolding pace_run_def Let_def
    by (simp only: new z r1 r2 key(1,4,7) r3 r4 sent [OF r2(2)] sent [OF key(3)] parsed_Parsed bind.bind_lunit prod.case refl)
  with key(8,9) show ?thesis by blast
qed

section \<open>A concrete curve library\<close>

text \<open>
  The additive group of the integers modulo seven with a chosen generator stands in for a
  curve: groups are generators, points are residues, zero is infinity.  It keeps the laws.
\<close>

definition demo_ec :: "(nat, nat) ec_lib" where
  "demo_ec = \<lparr>EC_GROUP_new_by_curve_name = (\<lambda>c. Some 3), EC_GROUP_get_degree = (\<lambda>g. 8),
     EC_POINT_mul_generator = (\<lambda>g a. Some (a * g mod 7)), EC_POINT_mul = (\<lambda>g p a. Some (a * p mod 7)),
     EC_POINT_add = (\<lambda>g p q. Some ((p + q) mod 7)), EC_GROUP_with_generator = (\<lambda>g p. Some p),
     EC_POINT_point2oct = (\<lambda>g p. Some (if p = 0 then [0] else [4, byte_of p, 0])),
     EC_POINT_oct2point = (\<lambda>g b. if length b = 3 \<and> 0 < unat (b ! 1) \<and> unat (b ! 1) < 7 then Some (unat (b ! 1)) else None),
     EC_POINT_affine_x = (\<lambda>g p. if p = 0 then None else Some p)\<rparr>"

definition demo_group :: "nat \<Rightarrow> nat \<Rightarrow> bool" where
  "demo_group g n \<longleftrightarrow> 0 < g \<and> g < 7 \<and> n = 1"

definition demo_point :: "nat \<Rightarrow> nat \<Rightarrow> bool" where
  "demo_point g p \<longleftrightarrow> 0 < p \<and> p < 7"

definition demo_scalar :: "nat \<Rightarrow> bool" where
  "demo_scalar a \<longleftrightarrow> a mod 7 \<noteq> 0"

lemma times_mod_7: "a mod 7 \<noteq> 0 \<Longrightarrow> 0 < p \<Longrightarrow> p < 7 \<Longrightarrow> a * p mod 7 \<noteq> (0 :: nat)"
proof -
  assume "a mod 7 \<noteq> 0" and p: "0 < p" "p < 7"
  moreover from p have "p = 1 \<or> p = 2 \<or> p = 3 \<or> p = 4 \<or> p = 5 \<or> p = 6" by linarith
  ultimately show ?thesis by (elim disjE) (simp_all, presburger+)
qed

lemma demo_ec_laws: "ec_laws demo_ec demo_group demo_point demo_scalar"
proof -
  have "(b * (a * g mod 7)) mod 7 = (a * (b * g mod 7)) mod (7 :: nat)" for a b g
    by (simp add: mod_mult_right_eq mult.left_commute)
  moreover have "0 < a mod 7 \<Longrightarrow> 0 < p \<Longrightarrow> p < 7 \<Longrightarrow> 0 < a * p mod 7" for a p :: nat
    using times_mod_7 [of a p] by simp
  ultimately show ?thesis
    by (simp add: ec_laws_def demo_ec_def demo_group_def demo_point_def demo_scalar_def)
qed

theorem pace_agreement_witness:
  "\<exists>session. pace_run demo_openssl demo_ec (str ''123456'') NID_brainpoolP256r1 pace_oid_aes256
      (replicate 32 1) 2 3 4 5 = Some (session, session, True, True) \<and> pace_session_ok session
    \<and> pssc session = replicate 16 0"
proof -
  obtain pace0 where new: "pace_exchange_new demo_openssl demo_ec (str ''123456'') NID_brainpoolP256r1 pace_oid_aes256 = Some pace0"
    and grp: "group pace0 = 3" "coord_len pace0 = 1"
    by (simp add: pace_exchange_new_def pace_key_len_for_oid_def pace_oid_aes256_def pace_oid_aes128_def demo_ec_def)
  have sum: "(be_val (replicate 32 1) * 3 mod 7 + (2 * (4 * 3 mod 7)) mod 7) mod 7 \<noteq> 0"
    by code_simp
  show ?thesis
    by (rule pace_agreement [OF demo_digest_sizes demo_cipher_works demo_cmac_works demo_ec_laws new])
      (use sum in \<open>simp_all add: grp demo_group_def demo_scalar_def demo_point_def demo_ec_def\<close>)
qed

section \<open>Reflection\<close>

text \<open>
  C38.  Nothing in round 3 compares the chip's public key with the reader's own.  Whatever
  has gone before, a peer that sends the reader's round-3 key back and then the reader's
  own token passes mutual authentication: it needs neither the password nor any secret.
\<close>

theorem pace_reflection_accepted:
  assumes works: "digest_sizes ossl" "cmac_works ossl" and laws: "ec_laws ec G P S"
    and pace: "group2 pace = Some g2" "G g2 (coord_len pace)" "coord_len pace \<le> 40"
      "pub_len pace = 1 + 2 * coord_len pace" "key_len pace \<in> {16, 32}"
    and r: "S r"
  shows "\<exists>pace4 m3 pub pace5 session m4 token.
    pace_build_key_agreement ec pace (Some r) = Parsed (pace4, m3)
    \<and> find_in_7c (drop 5 m3) 0x83 = Parsed pub
    \<and> pace_process_key_agreement_response ossl ec pace4 (wrap_7c 0x84 pub) = Parsed (pace5, session)
    \<and> pace_build_mutual_auth ossl pace5 = Some m4
    \<and> find_in_7c (drop 5 m4) 0x85 = Parsed token
    \<and> pace_verify_mutual_auth_response ossl pace5 (wrap_7c 0x86 token) = Parsed True"
proof -
  obtain b d ses where key: "pace_build_key_agreement ec pace (Some r) = Parsed (pace\<lparr>priv2 := Some r, my_pub2 := b\<rparr>, build_ga 0x83 b)"
      "length b = 1 + 2 * coord_len pace" "length b < 126" "chip_public ec g2 r = Some d" "length d = 1 + 2 * coord_len pace"
      "chip_session ossl ec g2 (key_len pace) (coord_len pace) r b = Some ses"
      "pace_process_key_agreement_response ossl ec (pace\<lparr>priv2 := Some r, my_pub2 := b\<rparr>) (wrap_7c 0x84 d)
        = Parsed (pace\<lparr>priv2 := Some r, my_pub2 := b, chip_pub2 := d, session := ses\<rparr>, ses)"
      "pace_session_ok ses" "pssc ses = replicate 16 0" "skey_len ses = key_len pace" "length (pks_mac ses) = key_len pace"
    by (rule key_round [OF works(1) laws pace r r])
  have same: "d = b"
    using key(1,4) pace(1)
    by (auto simp: pace_build_key_agreement_def chip_public_def point_to_bytes_def build_ga_def wrap_7c_def
        split: option.splits if_splits)
  let ?pace5 = "pace\<lparr>priv2 := Some r, my_pub2 := b, chip_pub2 := b, session := ses\<rparr>"
  have pace5: "oid ?pace5 = oid pace" "pub_len ?pace5 = length (chip_pub2 ?pace5)" "pub_len ?pace5 = length (my_pub2 ?pace5)"
      "key_len ?pace5 \<in> {16, 32}" "session ?pace5 = ses" "skey_len ses = key_len ?pace5" "length (pks_mac ses) = key_len ?pace5"
    using pace key by simp_all
  have sent: "find_in_7c (drop 5 (build_ga 0x83 b)) 0x83 = Parsed b"
    unfolding build_ga_data by (rule find_in_wrap_7c [OF key(3)])
  obtain t1 t2 where tokens: "chip_token ossl ses (oid pace) (chip_pub2 ?pace5) = Some t1" "chip_token ossl ses (oid pace) (my_pub2 ?pace5) = Some t2"
      "pace_build_mutual_auth ossl ?pace5 =
        Some ([0x00, 0x86, 0x00, 0x00] @ [byte_of (length (wrap_7c 0x85 t1))] @ wrap_7c 0x85 t1 @ [0x00])"
      "find_in_7c (drop 5 ([0x00, 0x86, 0x00, 0x00] @ [byte_of (length (wrap_7c 0x85 t1))] @ wrap_7c 0x85 t1 @ [0x00])) 0x85
        = Parsed t1"
      "pace_verify_mutual_auth_response ossl ?pace5 (wrap_7c 0x86 t2) = Parsed True"
    by (rule token_round [OF works(2) pace5])
  have "t2 = t1" using tokens(1,2) by simp
  with key(1,7) sent tokens(3-5) show ?thesis unfolding same by blast
qed

definition demo_exchange :: "nat pace_exchange" where
  "demo_exchange = \<lparr>oid = pace_oid_aes128, key_len = 16, kpi = [], nonce_s = [], coord_len = 1, pub_len = 3,
     group = 3, priv1 = None, group2 = Some 5, priv2 = None, my_pub2 = [], chip_pub2 = [], session = zero_session\<rparr>"

theorem pace_reflection_accepted_witness:
  "\<exists>pace4 m3 pub pace5 session m4 token.
    pace_build_key_agreement demo_ec demo_exchange (Some 2) = Parsed (pace4, m3)
    \<and> find_in_7c (drop 5 m3) 0x83 = Parsed pub
    \<and> pace_process_key_agreement_response demo_openssl demo_ec pace4 (wrap_7c 0x84 pub) = Parsed (pace5, session)
    \<and> pace_build_mutual_auth demo_openssl pace5 = Some m4
    \<and> find_in_7c (drop 5 m4) 0x85 = Parsed token
    \<and> pace_verify_mutual_auth_response demo_openssl pace5 (wrap_7c 0x86 token) = Parsed True"
proof -
  have ex: "group2 demo_exchange = Some 5" "demo_group 5 (coord_len demo_exchange)" "coord_len demo_exchange \<le> 40"
      "pub_len demo_exchange = 1 + 2 * coord_len demo_exchange" "key_len demo_exchange \<in> {16, 32}" "demo_scalar 2"
    by (simp_all add: demo_exchange_def demo_group_def demo_scalar_def)
  show ?thesis
    by (rule pace_reflection_accepted [OF demo_digest_sizes demo_cmac_works demo_ec_laws ex])
qed

end
