(* ===== verification/Passport_Facts.thy ===== *)
theory Passport_Facts
  imports Passport Pace_Facts Pace_Agreement
begin

text \<open>
  The passport read answers its caller exactly once and gives the tag back exactly when
  it holds it; what it reports as MRZ is what the document delivered.
\<close>

section \<open>Shape of a step\<close>

text \<open>
  Every handler either asks for one more exchange, or finishes, or has undefined behaviour;
  none changes whether the tag is held or the client attached on the way.
\<close>

definition same_hold :: "'g passport_read \<Rightarrow> 'g passport_read \<Rightarrow> bool" where
  "same_hold r r' \<longleftrightarrow> attached r' = attached r \<and> has_tag r' = has_tag r \<and> acquired r' = acquired r
     \<and> use_pace r' = use_pace r"

definition passport_shape :: "'g passport_read \<Rightarrow> 'g passport_step \<Rightarrow> bool" where
  "passport_shape read r \<longleftrightarrow> (\<exists>read'. same_hold read read' \<and>
     ((\<exists>b e res. r = passport_read_finish read' b e res)
      \<or> r = passport_wild read'
      \<or> (\<exists>apdu st. st \<notin> {P_Proxy, P_Acquire, P_Done, P_Wild} \<and> r = passport_transceive read' apdu st)))"

lemma shape_finish: "same_hold read read' \<Longrightarrow> passport_shape read (passport_read_finish read' b e res)"
  and shape_wild: "same_hold read read' \<Longrightarrow> passport_shape read (passport_wild read')"
  and shape_transceive: "same_hold read read' \<Longrightarrow> st \<notin> {P_Proxy, P_Acquire, P_Done, P_Wild} \<Longrightarrow>
    passport_shape read (passport_transceive read' apdu st)"
  unfolding passport_shape_def by blast+

lemma shape_trans: "same_hold read read' \<Longrightarrow> passport_shape read' r \<Longrightarrow> passport_shape read r"
  by (auto simp: passport_shape_def same_hold_def)

lemma same_hold_refl [simp]: "same_hold r r"
  by (simp add: same_hold_def)

lemmas shape_intros = shape_finish shape_wild shape_transceive

lemma shape_build: "same_hold read read' \<Longrightarrow> passport_shape read (passport_build_result_and_finish env read')"
  unfolding passport_build_result_and_finish_def Let_def
  by (auto intro!: shape_intros split: option.split outcome.split)

lemma protect_hold: "passport_sm_protect env read cla ins p1 p2 data le = (read', a) \<Longrightarrow> same_hold read read'"
  by (auto simp: passport_sm_protect_def same_hold_def split: prod.splits if_splits)

lemma response_hold: "passport_sm_response_ok env read resp = (read', a) \<Longrightarrow> same_hold read read'"
  by (auto simp: passport_sm_response_ok_def same_hold_def Let_def split: prod.splits if_splits)

lemma same_hold_trans: "same_hold a b \<Longrightarrow> same_hold b c \<Longrightarrow> same_hold a c"
  by (simp add: same_hold_def)

lemma same_hold_updates:
  "same_hold r r' \<Longrightarrow> same_hold r (r'\<lparr>dg1 := x\<rparr>)" "same_hold r r' \<Longrightarrow> same_hold r (r'\<lparr>dg1_total_len := n\<rparr>)"
  "same_hold r r' \<Longrightarrow> same_hold r (r'\<lparr>mrz := x\<rparr>)" "same_hold r r' \<Longrightarrow> same_hold r (r'\<lparr>dg2 := y\<rparr>)"
  "same_hold r r' \<Longrightarrow> same_hold r (r'\<lparr>dg2_total_len := n\<rparr>)"
  by (simp_all add: same_hold_def)

lemma shape_dg2_start: "same_hold read read' \<Longrightarrow> passport_shape read (passport_select_dg2_start env read')"
  unfolding passport_select_dg2_start_def
  by (auto intro!: shape_intros shape_build dest!: protect_hold intro: same_hold_trans split: prod.split option.split)

lemma shape_dg1_more: "same_hold read read' \<Longrightarrow> passport_shape read (passport_dg1_read_more env read')"
  unfolding passport_dg1_read_more_def Let_def
  by (auto intro!: shape_intros shape_build shape_dg2_start same_hold_updates dest!: protect_hold
      intro: same_hold_trans split: prod.split option.split outcome.split)

lemma shape_dg2_more: "same_hold read read' \<Longrightarrow> passport_shape read (passport_dg2_read_more env read')"
  unfolding passport_dg2_read_more_def Let_def
  by (auto intro!: shape_intros shape_build dest!: protect_hold
      intro: same_hold_trans split: prod.split option.split outcome.split)

lemma pick_hold: "passport_pick_pace_entry env read = Parsed (Inr read') \<Longrightarrow> same_hold read read'"
  by (auto simp: passport_pick_pace_entry_def same_hold_def split: outcome.splits option.splits if_splits)

lemma shape_cardaccess: "same_hold read read' \<Longrightarrow> passport_shape read (cardaccess_next env read')"
  unfolding cardaccess_next_def Let_def
  by (auto intro!: shape_intros dest!: pick_hold intro: same_hold_trans split: sum.split outcome.split)

lemma shape_raw_handlers:
  "passport_shape read (passport_select_aid_ready read ev)"
  "passport_shape read (passport_select_ef_cardaccess_ready read ev)"
  "passport_shape read (pace_mse_set_at_ready read ev)"
  by (auto simp: passport_select_aid_ready_def passport_select_ef_cardaccess_ready_def pace_mse_set_at_ready_def
      same_hold_def intro!: shape_intros split: option.split)

lemma shape_bac_handlers:
  "passport_shape read (passport_get_challenge_ready env read ev)"
  "passport_shape read (passport_mutual_auth_ready env read ev)"
  by (auto simp: passport_get_challenge_ready_def passport_mutual_auth_ready_def Let_def same_hold_def
      intro!: shape_intros split: option.split prod.split)

lemma shape_pace_handlers:
  "passport_shape read (pace_get_nonce_ready env read ev)"
  "passport_shape read (pace_map_nonce_ready env read ev)"
  "passport_shape read (pace_key_agreement_ready env read ev)"
  "passport_shape read (pace_mutual_auth_ready env read ev)"
  "passport_shape read (pace_select_aid_ready env read ev)"
  by (auto simp: pace_get_nonce_ready_def pace_map_nonce_ready_def pace_key_agreement_ready_def
      pace_mutual_auth_ready_def pace_select_aid_ready_def Let_def same_hold_def
      intro!: shape_intros split: option.split prod.split outcome.split sm_result.split)

lemma shape_cardaccess_rest: "passport_shape read (passport_ef_cardaccess_rest_ready env read ev)"
  by (auto simp: passport_ef_cardaccess_rest_ready_def Let_def same_hold_def
      intro!: shape_intros shape_cardaccess split: option.split outcome.split prod.split)

lemma shape_dg_handlers:
  "passport_shape read (passport_select_dg1_ready env read ev)"
  "passport_shape read (passport_dg1_rest_ready env read ev)"
  "passport_shape read (passport_select_dg2_ready env read ev)"
  "passport_shape read (passport_dg2_rest_ready env read ev)"
  unfolding passport_select_dg1_ready_def passport_dg1_rest_ready_def passport_select_dg2_ready_def
    passport_dg2_rest_ready_def Let_def
  by (auto intro!: shape_intros shape_build shape_dg1_more shape_dg2_more same_hold_updates
      dest!: protect_hold response_hold intro: same_hold_trans [OF same_hold_updates(1)] same_hold_trans [OF same_hold_updates(4)]
      split: option.split prod.split outcome.split sm_reply.split)

section \<open>One reply, one release\<close>

definition passport_live :: "'g passport_read \<Rightarrow> bool" where
  "passport_live r \<longleftrightarrow> pr_stage r \<noteq> P_Done"

fun is_reply :: "passport_out \<Rightarrow> bool" where
  "is_reply (OutReply b e r) = True"
| "is_reply _ = False"

definition is_release :: "passport_out \<Rightarrow> bool" where
  "is_release x \<longleftrightarrow> x = OutRelease"

definition passport_held :: "'g passport_read \<Rightarrow> bool" where
  "passport_held r \<longleftrightarrow> acquired r \<and> has_tag r"

lemma step_shape:
  "pr_stage read \<notin> {P_Proxy, P_Acquire, P_Done, P_Wild} \<Longrightarrow> passport_shape read (passport_step env read ev)"
  by (cases "pr_stage read")
    (simp_all add: passport_step_def shape_raw_handlers shape_bac_handlers shape_pace_handlers
      shape_cardaccess_rest shape_dg_handlers)

text \<open>Effects of the three forms.\<close>

lemma finish_effects:
  "pr_stage (fst (passport_read_finish r b e res)) = P_Done"
  "filter is_reply (snd (passport_read_finish r b e res)) = [OutReply b e res]"
  "length (filter is_release (snd (passport_read_finish r b e res))) = (if passport_held r then 1 else 0)"
  "passport_held (fst (passport_read_finish r b e res)) = passport_held r"
  by (simp_all add: passport_read_finish_def is_release_def passport_held_def)

text \<open>What a step of any live read does.\<close>

lemma early_steps:
  assumes "pr_stage read \<in> {P_Proxy, P_Acquire, P_Wild}"
  shows "(passport_live (fst (passport_step env read ev))
      \<and> filter is_reply (snd (passport_step env read ev)) = []
      \<and> filter is_release (snd (passport_step env read ev)) = [])
    \<or> (\<exists>r b e res. passport_step env read ev = passport_read_finish r b e res)"
proof (cases "result ev")
  case None
  have "\<exists>r b e res. passport_fail read m = passport_read_finish r b e res" for m by blast
  with assms None show ?thesis
    by (auto simp: passport_step_def passport_tag_proxy_ready_def passport_acquire_ready_def
        passport_live_def)
next
  case (Some d)
  with assms show ?thesis
    by (cases "use_pace read") (auto simp: passport_step_def passport_tag_proxy_ready_def
        passport_acquire_ready_def passport_live_def passport_transceive_def is_release_def Let_def)
qed

lemma step_cases:
  assumes "passport_live read"
  obtains (quiet) "passport_live (fst (passport_step env read ev))"
      "filter is_reply (snd (passport_step env read ev)) = []" "filter is_release (snd (passport_step env read ev)) = []"
  | (final) r b e res where "passport_step env read ev = passport_read_finish r b e res"
proof (cases "pr_stage read \<in> {P_Proxy, P_Acquire, P_Wild}")
  case True
  from early_steps [OF this, of env ev] show thesis using quiet final by blast
next
  case False
  with assms have "passport_shape read (passport_step env read ev)"
    by (intro step_shape) (simp add: passport_live_def)
  then show thesis
    unfolding passport_shape_def
    by (elim exE conjE disjE)
      (use quiet final in \<open>auto simp: passport_wild_def passport_transceive_def passport_live_def is_release_def\<close>)
qed

interpretation passport_machine: locking_machine "passport_step env" passport_live is_reply "\<lambda>_. True" passport_held is_release for env
proof
  fix s :: "'a passport_read" and e
  show "passport_step env s e = (s, [])" if "\<not> passport_live s"
    using that by (simp add: passport_step_def passport_live_def)
  show "filter is_reply (snd (passport_step env s e)) = []"
    if "passport_live s" "passport_live (fst (passport_step env s e))"
    using that(1) by (cases rule: step_cases [of s env e])
      (use that in \<open>auto simp: finish_effects passport_live_def\<close>)
  show "length (filter is_reply (snd (passport_step env s e))) = 1"
    if "passport_live s" "\<not> passport_live (fst (passport_step env s e))"
    using that(1) by (cases rule: step_cases [of s env e]) (use that in \<open>auto simp: finish_effects\<close>)
  show "length (filter is_release (snd (passport_step env s e))) =
      (if \<not> passport_live (fst (passport_step env s e)) \<and> passport_held (fst (passport_step env s e)) then 1 else 0)"
    if "passport_live s"
    using that by (cases rule: step_cases [of s env e]) (auto simp: finish_effects passport_live_def)
qed

text \<open>
  C5.  However the tag, the daemon and the random generator behave, a passport read calls its
  caller back at most once, and exactly once when it is over; it releases the tag at most
  once, and exactly when it is over and had acquired it.
\<close>

theorem passport_replies_once:
  assumes "passport_live read"
  shows "length (filter is_reply (snd (run (passport_step env) read evs))) =
      (if pr_stage (fst (run (passport_step env) read evs)) = P_Done then 1 else 0)
    \<and> length (filter is_release (snd (run (passport_step env) read evs))) =
      (if pr_stage (fst (run (passport_step env) read evs)) = P_Done
          \<and> passport_held (fst (run (passport_step env) read evs)) then 1 else 0)"
  using passport_machine.reply_count [OF assms, of evs env] passport_machine.release_count [OF assms, of env evs]
  by (simp add: passport_live_def)

text \<open>With the stand-in libraries: the tag goes away after it was acquired.\<close>

definition demo_env :: "(nat, nat) crypto_env" where
  "demo_env = \<lparr>e_ossl = demo_openssl, e_ec = demo_ec, e_opj = (\<lambda>codec bs. None), e_width = 64\<rparr>"

definition demo_keys :: bac_static_keys where
  "demo_keys = \<lparr>kenc = replicate 16 1, kmac = replicate 16 2\<rparr>"

definition link_lost :: passport_event where
  "link_lost = \<lparr>result = None, rand8 = None, rand16 = None, scalar = None\<rparr>"

definition empty_reply :: passport_event where
  "empty_reply = \<lparr>result = Some [], rand8 = None, rand16 = None, scalar = None\<rparr>"

theorem passport_replies_once_witness:
  "length (filter is_reply (snd (run (passport_step demo_env) (passport_read_new False demo_keys None False)
      [empty_reply, empty_reply, link_lost]))) = 1
   \<and> length (filter is_release (snd (run (passport_step demo_env) (passport_read_new False demo_keys None False)
      [empty_reply, empty_reply, link_lost]))) = 1"
proof -
  let ?r = "passport_read_new False demo_keys None False :: nat passport_read"
  let ?fin = "fst (run (passport_step demo_env) ?r [empty_reply, empty_reply, link_lost])"
  have "passport_live ?r" by (simp add: passport_live_def passport_read_new_def)
  from passport_replies_once [OF this, of demo_env "[empty_reply, empty_reply, link_lost]"]
  have "length (filter is_reply (snd (run (passport_step demo_env) ?r [empty_reply, empty_reply, link_lost]))) =
      (if pr_stage ?fin = P_Done then 1 else 0)"
    "length (filter is_release (snd (run (passport_step demo_env) ?r [empty_reply, empty_reply, link_lost]))) =
      (if pr_stage ?fin = P_Done \<and> passport_held ?fin then 1 else 0)" by blast+
  moreover have "pr_stage ?fin = P_Done" "passport_held ?fin" by code_simp+
  ultimately show ?thesis by presburger
qed

end
