(* ===== verification/Client_Facts.thy ===== *)
theory Client_Facts
  imports Client Tag_Read_Run Hce_Facts Passport_Facts
begin

text \<open>
  Invariants of the client over every interleaving of signals, completions and calls: its
  pointers to reads in flight are never stale, at most one read of each kind is attached, and
  the published tag is the one in the field.
\<close>

section \<open>What a tag read does to the client\<close>

definition obj_ok :: "tag_read \<Rightarrow> bool" where
  "obj_ok r \<longleftrightarrow> is_jobj (tag_obj r) \<and> jget (tag_obj r) ''path'' = Some (JStr (tr_path r))"

definition late :: "tag_stage \<Rightarrow> bool" where
  "late st \<longleftrightarrow> st \<notin> {T_Proxy, T_GetAll, T_Done, T_Wild}"

definition names_path :: "bytes \<Rightarrow> jvalue option \<Rightarrow> bool" where
  "names_path p j \<longleftrightarrow> (\<exists>v. j = Some v \<and> jget v ''path'' = Some (JStr p))"

text \<open>A step of an attached read of the tag \<open>p\<close>.\<close>

definition effect_ok :: "bytes \<Rightarrow> nfcd_client \<Rightarrow> tag_step \<Rightarrow> bool" where
  "effect_ok p c s \<longleftrightarrow> tr_path (fst (snd s)) = p \<and> tr_attached (fst (snd s))
     \<and> (late (tr_stage (fst (snd s))) \<longrightarrow> obj_ok (fst (snd s)))
     \<and> tag_path (fst s) = tag_path c \<and> passport_reading (fst s) = passport_reading c
     \<and> reading (fst s) = (if tr_stage (fst (snd s)) = T_Done then None else reading c)
     \<and> (tag_json (fst s) = tag_json c \<or> names_path p (tag_json (fst s)))"

lemma effect_finish: "tr_attached r \<Longrightarrow> obj_ok r \<Longrightarrow> effect_ok (tr_path r) c (tag_read_finish c r)"
  by (simp add: effect_ok_def tag_read_finish_def Let_def late_def obj_ok_def names_path_def)

lemma effect_wait:
  "tr_attached r \<Longrightarrow> (late st \<Longrightarrow> obj_ok r) \<Longrightarrow> st \<noteq> T_Done \<Longrightarrow> effect_ok (tr_path r) c (tag_wait c r call st)"
  by (simp add: effect_ok_def tag_wait_def obj_ok_def)

lemma effect_free: "tr_attached r \<Longrightarrow> effect_ok (tr_path r) c (tag_read_free (c\<lparr>reading := None\<rparr>) r)"
  by (simp add: effect_ok_def tag_read_free_def late_def)

lemma obj_ok_put: "obj_ok r \<Longrightarrow> k \<noteq> ''path'' \<Longrightarrow> obj_ok (r\<lparr>tag_obj := jobject_put k v (tag_obj r)\<rparr>)"
  by (simp add: obj_ok_def)

lemma effect_next_sector:
  assumes "tr_attached r" "obj_ok r"
  shows "effect_ok (tr_path r) c (tag_read_mifare_next_sector c r)"
proof (cases "mifare_sector r < MIFARE_NUM_SECTORS")
  case False
  then show ?thesis
    using assms effect_finish [of "r\<lparr>tag_obj := jobject_put ''scanning'' (JBool False)
      (jobject_put ''sectors'' (JArr (mifare_sectors_arr r)) (tag_obj r)), mifare_sectors_arr := []\<rparr>" c]
    by (simp add: tag_read_mifare_next_sector_def obj_ok_def)
next
  case True
  with assms show ?thesis
    by (auto simp: tag_read_mifare_next_sector_def mifare_publish_progress_def Let_def mifare_try_cached_key_def
        mifare_send_auth_def tag_wait_def effect_ok_def obj_ok_def names_path_def late_def Let_def split: option.split)
qed

lemma effect_mifare:
  assumes "tr_attached r" "obj_ok r"
  shows "effect_ok (tr_path r) c (mifare_next_attempt c r)"
    and "effect_ok (tr_path r) c (mifare_read_block c r b)"
    and "effect_ok (tr_path r) c (mifare_sector_done c r)"
    and "effect_ok (tr_path r) c (tag_read_mifare_start c r)"
proof -
  have "effect_ok (tr_path r') c (tag_read_mifare_try_key c r')"
    if "tr_attached r'" "obj_ok r'" for r'
    using that effect_next_sector [of "r'\<lparr>mifare_sector := mifare_sector r' + 1\<rparr>" c]
      effect_wait [of "r'\<lparr>mifare_key := k\<rparr>" T_MfAuth c for k]
    by (simp add: tag_read_mifare_try_key_def mifare_send_auth_def obj_ok_def)
  from this [of "r\<lparr>mifare_cached_attempt := False\<rparr>"] this [of "r\<lparr>mifare_key_index := mifare_key_index r + 1\<rparr>"]
  show "effect_ok (tr_path r) c (mifare_next_attempt c r)"
    using assms by (simp add: mifare_next_attempt_def obj_ok_def)
  show "effect_ok (tr_path r) c (mifare_read_block c r b)"
    using assms by (simp add: mifare_read_block_def effect_wait)
  have store: "effect_ok p (mifare_cache_store c u s k) x \<Longrightarrow> effect_ok p c x" for p u s k x
    by (simp add: effect_ok_def mifare_cache_store_def Let_def split: option.splits)
  show "effect_ok (tr_path r) c (mifare_sector_done c r)"
    unfolding mifare_sector_done_def Let_def
    by (rule store [of _ "mifare_uid r" "mifare_sector r" "mifare_key r"]) (use assms effect_next_sector [of "r\<lparr>mifare_sectors_arr := x, mifare_blocks_arr := [],
      mifare_sector := mifare_sector r + 1\<rparr>" for x] in \<open>simp add: obj_ok_def\<close>)
  show "effect_ok (tr_path r) c (tag_read_mifare_start c r)"
    using assms effect_next_sector [of "r\<lparr>is_mifare := True, mifare_sector := 0, mifare_sectors_arr := []\<rparr>" c]
    by (simp add: tag_read_mifare_start_def obj_ok_def)
qed

lemma effect_records: "tr_attached r \<Longrightarrow> obj_ok r \<Longrightarrow> effect_ok (tr_path r) c (tag_read_next_record c r)"
  by (simp add: tag_read_next_record_def tag_read_raw_data_def effect_finish effect_wait)

text \<open>One step of an attached read, and of a detached one.\<close>

lemma tag_info_path: "is_jobj (tag_info_json p ti)" "jget (tag_info_json p ti) ''path'' = Some (JStr p)"
  by (simp_all add: tag_info_json_def)

lemma effect_get_all:
  assumes "tr_attached r"
  shows "effect_ok (tr_path r) c (tag_get_all_ready c r ev)"
proof -
  have proto: "effect_ok p (c\<lparr>tag_protocol := x\<rparr>) s \<Longrightarrow> effect_ok p c s" for p x s
    by (simp add: effect_ok_def)
  have "effect_ok (tr_path r') c (tag_read_mifare_start (c\<lparr>tag_protocol := x\<rparr>) r')"
    "effect_ok (tr_path r') c (tag_read_next_record (c\<lparr>tag_protocol := x\<rparr>) r')"
    if "tr_attached r'" "obj_ok r'" for r' x
    using that proto effect_mifare(4) effect_records by blast+
  note cont = this
  show ?thesis
    using assms cont [of "r\<lparr>tag_obj := tag_info_json (tr_path r) (t_info ev), is_type2 := b, records_arr := [],
        record_paths := ti_records (t_info ev), record_index := 0, mifare_uid := u\<rparr>" for b u]
      cont(2) [of "r\<lparr>tag_obj := tag_info_json (tr_path r) (t_info ev), is_type2 := b, records_arr := [],
        record_paths := ti_records (t_info ev), record_index := 0\<rparr>" for b]
    by (simp add: tag_get_all_ready_def obj_ok_def tag_info_path effect_free Let_def)
qed

lemma effect_early:
  assumes "\<not> late (tr_stage r)" "tr_attached r" "tr_stage r \<noteq> T_Done"
  shows "effect_ok (tr_path r) c (tag_read_step g w c r ev)"
proof -
  have "effect_ok (tr_path r) c (tag_wait c r TagGetAll3 T_GetAll)"
    by (rule effect_wait) (use assms(2) in \<open>simp_all add: late_def\<close>)
  moreover have "effect_ok (tr_path r) c (c, r, [])" if "tr_stage r = T_Wild"
    using that assms(2) by (simp add: effect_ok_def late_def)
  ultimately show ?thesis
    using assms
    by (cases "tr_stage r") (simp_all add: late_def tag_read_step_def effect_get_all tag_proxy_ready_def effect_free)
qed

lemma effect_late:
  assumes "late (tr_stage r)" and att: "tr_attached r" and ok: "obj_ok r" and "\<not> t_cancelled ev"
  shows "effect_ok (tr_path r) c (tag_read_step g w c r ev)"
proof (cases "tr_stage r")
  case T_NdefProxy
  then show ?thesis
    using effect_records [of "r\<lparr>record_index := record_index r + 1\<rparr>" c] att ok
    by (simp add: tag_read_step_def ndef_proxy_ready_def effect_wait obj_ok_def)
next
  case T_NdefGetAll
  then show ?thesis
    using effect_records [of "r\<lparr>record_index := record_index r + 1\<rparr>" c] att ok
      effect_records [of "r\<lparr>records_arr := x, record_index := record_index r + 1\<rparr>" c for x]
    by (simp add: tag_read_step_def ndef_get_all_ready_def obj_ok_def split: option.split)
      (simp add: effect_ok_def late_def)
next
  case T_RawProxy
  then show ?thesis
    using effect_finish [OF att ok, of c] att ok
    by (simp add: tag_read_step_def raw_data_proxy_ready_def effect_wait)
next
  case T_RawData
  then show ?thesis
    using effect_finish [OF att ok, of c] att
      effect_finish [of "r\<lparr>tag_obj := jobject_put ''rawDataHex'' v (tag_obj r)\<rparr>" c for v] obj_ok_put [OF ok]
    by (simp add: tag_read_step_def raw_data_ready_def)
next
  case T_MfAuth
  then show ?thesis
    using effect_mifare(1) [OF att ok, of c] att ok assms(4)
      effect_mifare(2) [of "r\<lparr>mifare_block_offset := 0, mifare_blocks_arr := []\<rparr>" c]
    by (simp add: tag_read_step_def mifare_auth_ready_def obj_ok_def)
next
  case T_MfRead
  let ?r = "\<lambda>x n. r\<lparr>mifare_blocks_arr := x, mifare_block_offset := n\<rparr>"
  show ?thesis
    using T_MfRead effect_mifare(3) [OF att ok, of c] att ok
      effect_mifare(1) [of "r\<lparr>mifare_blocks_arr := []\<rparr>" c]
      effect_mifare(2) [of "?r x n" c for x n] effect_mifare(3) [of "?r x n" c for x n]
    by (simp add: tag_read_step_def mifare_block_read_ready_def obj_ok_def Let_def)
qed (use assms(1) in \<open>simp_all add: late_def\<close>)

lemma effect_step:
  assumes "tr_attached r" "late (tr_stage r) \<longrightarrow> obj_ok r" "tr_stage r \<noteq> T_Done" "\<not> t_cancelled ev"
  shows "effect_ok (tr_path r) c (tag_read_step g w c r ev)"
  using assms effect_early effect_late by blast

lemma detached_step:
  assumes "\<not> tr_attached r" "(c', r', outs) = tag_read_step g w c r ev"
  shows "c' = c \<and> \<not> tr_attached r' \<and> OutCall call \<notin> set outs"
  using assms
  by (cases "tr_stage r")
    (auto simp: tag_read_step_def tag_proxy_ready_def tag_get_all_ready_def ndef_proxy_ready_def ndef_get_all_ready_def
      raw_data_proxy_ready_def raw_data_ready_def mifare_auth_ready_def mifare_block_read_ready_def tag_read_free_def
      split: if_splits)

lemma detached_obj:
  assumes "\<not> tr_attached r" "late (tr_stage r) \<longrightarrow> obj_ok r" "tag_read_step g w c r ev = (c', r', outs)"
  shows "late (tr_stage r') \<longrightarrow> obj_ok r'"
  using assms
  by (cases "tr_stage r")
    (auto simp: tag_read_step_def tag_proxy_ready_def tag_get_all_ready_def ndef_proxy_ready_def ndef_get_all_ready_def
      raw_data_proxy_ready_def raw_data_ready_def mifare_auth_ready_def mifare_block_read_ready_def tag_read_free_def
      late_def split: if_splits)

text \<open>The profiles of the card emulation, the adapter and the tag in the field are none of its business.\<close>

definition same_field :: "nfcd_client \<Rightarrow> nfcd_client \<Rightarrow> bool" where
  "same_field c c' \<longleftrightarrow> adapter_path c' = adapter_path c \<and> tag_path c' = tag_path c \<and> available c' = available c"

definition hce_same :: "nfcd_client \<Rightarrow> tag_step \<Rightarrow> bool" where
  "hce_same c s \<longleftrightarrow> hce_profiles (fst s) = hce_profiles c \<and> same_field c (fst s)"

lemma hce_same_plain:
  "hce_same c (tag_read_free c r)" "hce_same c (tag_read_finish c r)" "hce_same c (tag_wait c r call st)"
  "hce_same c (mifare_send_auth c r k)" "hce_same c (mifare_read_block c r b)"
  "hce_same c (tag_read_free (c\<lparr>reading := x\<rparr>) r)"
  by (simp_all add: hce_same_def same_field_def tag_read_free_def tag_read_finish_def Let_def tag_wait_def mifare_send_auth_def
      mifare_read_block_def)

lemma hce_same_next_sector: "hce_same c (tag_read_mifare_next_sector c r)"
  by (auto simp: tag_read_mifare_next_sector_def hce_same_plain mifare_publish_progress_def Let_def
      mifare_try_cached_key_def Let_def split: option.split)
    (simp_all add: hce_same_def same_field_def mifare_send_auth_def tag_wait_def)

lemma hce_same_mifare:
  "hce_same c (mifare_next_attempt c r)" "hce_same c (mifare_sector_done c r)" "hce_same c (tag_read_mifare_start c r)"
proof -
  show "hce_same c (mifare_next_attempt c r)" "hce_same c (tag_read_mifare_start c r)"
    by (simp_all add: mifare_next_attempt_def tag_read_mifare_try_key_def tag_read_mifare_start_def
        hce_same_plain hce_same_next_sector)
  have "hce_profiles (mifare_cache_store c u s k) = hce_profiles c" "same_field c (mifare_cache_store c u s k)" for u s k
    by (simp_all add: mifare_cache_store_def same_field_def Let_def split: option.split)
  then show "hce_same c (mifare_sector_done c r)"
    using hce_same_next_sector by (simp add: mifare_sector_done_def hce_same_def same_field_def Let_def)
qed

lemma hce_same_records: "hce_same c (tag_read_next_record c r)"
  by (simp add: tag_read_next_record_def tag_read_raw_data_def hce_same_plain)

lemma hce_same_get_all: "hce_same c (tag_get_all_ready c r ev)"
  using hce_same_mifare(3) [of "c\<lparr>tag_protocol := x\<rparr>" for x] hce_same_records [of "c\<lparr>tag_protocol := x\<rparr>" for x]
  by (simp add: tag_get_all_ready_def Let_def hce_same_plain) (simp add: hce_same_def same_field_def)

lemma tag_read_step_hce: "hce_profiles (fst (tag_read_step g w c r ev)) = hce_profiles c"
  "same_field c (fst (tag_read_step g w c r ev))"
proof -
  have "hce_same c (tag_read_step g w c r ev)"
    by (cases "tr_stage r")
      (auto simp: tag_read_step_def tag_proxy_ready_def ndef_proxy_ready_def ndef_get_all_ready_def
        raw_data_proxy_ready_def raw_data_ready_def mifare_auth_ready_def mifare_block_read_ready_def hce_same_plain
        hce_same_records hce_same_get_all hce_same_mifare Let_def split: option.split, simp_all add: hce_same_def same_field_def)
  then show "hce_profiles (fst (tag_read_step g w c r ev)) = hce_profiles c" "same_field c (fst (tag_read_step g w c r ev))"
    by (simp_all add: hce_same_def)
qed

section \<open>What a passport read does to the client\<close>

lemma finish_slot:
  "attached (fst (passport_read_finish r b e res)) = attached r"
  "OutClearSlot \<in> set (snd (passport_read_finish r b e res)) \<longleftrightarrow> attached r"
  "pr_stage (fst (passport_read_finish r b e res)) = P_Done"
  by (simp_all add: passport_read_finish_def)

lemma passport_slot:
  assumes "pr_stage r \<noteq> P_Done"
  shows "attached (fst (passport_step env r ev)) = attached r
    \<and> (OutClearSlot \<in> set (snd (passport_step env r ev)) \<longleftrightarrow>
        attached r \<and> pr_stage (fst (passport_step env r ev)) = P_Done)"
proof (cases "pr_stage r \<in> {P_Proxy, P_Acquire, P_Wild}")
  case True
  then show ?thesis
    by (cases "result ev") (auto simp: passport_step_def passport_tag_proxy_ready_def passport_acquire_ready_def
        finish_slot passport_transceive_def Let_def split: if_splits)
next
  case False
  with assms have "passport_shape r (passport_step env r ev)" by (intro step_shape) simp
  then show ?thesis
    unfolding passport_shape_def
    by (elim exE conjE disjE) (simp_all add: finish_slot same_hold_def passport_wild_def passport_transceive_def)
qed

section \<open>The invariant\<close>

definition live_read :: "tag_read \<Rightarrow> bool" where
  "live_read r \<longleftrightarrow> tr_attached r \<and> tr_stage r \<noteq> T_Done"

definition live_passport :: "'g passport_read \<Rightarrow> bool" where
  "live_passport r \<longleftrightarrow> attached r \<and> pr_stage r \<noteq> P_Done"

definition read_ok :: "nfcd_client \<Rightarrow> tag_read \<Rightarrow> bool" where
  "read_ok c r \<longleftrightarrow> mifare_ok r \<and> (late (tr_stage r) \<longrightarrow> obj_ok r) \<and> (live_read r \<longrightarrow> tag_path c = Some (tr_path r))"

text \<open>
  The client points at the read that still serves it, and at no other: neither at one that
  is over and freed, nor past one.
\<close>

definition pointers_ok :: "'g world \<Rightarrow> bool" where
  "pointers_ok w \<longleftrightarrow>
     (\<forall>a. reading (client w) = Some a \<longleftrightarrow> (\<exists>r. tag_reads w a = Some r \<and> live_read r))
     \<and> (\<forall>a. passport_reading (client w) = Some a \<longleftrightarrow> (\<exists>r. passport_reads w a = Some r \<and> live_passport r))"

definition tag_ok :: "nfcd_client \<Rightarrow> bool" where
  "tag_ok c \<longleftrightarrow>
     (tag_path c = None \<longrightarrow> tag_json c = None \<and> \<not> tag_is_type2 c \<and> tag_protocol c = 0 \<and> reading c = None
        \<and> passport_reading c = None)
     \<and> (\<forall>p. tag_path c = Some p \<longrightarrow> tag_json c = None \<or> names_path p (tag_json c))"

definition world_ok :: "'g world \<Rightarrow> bool" where
  "world_ok w \<longleftrightarrow> pointers_ok w \<and> tag_ok (client w) \<and> keys_of_six (client w)
     \<and> (\<forall>a r. tag_reads w a = Some r \<longrightarrow> a < next_address w \<and> read_ok (client w) r)
     \<and> (\<forall>a \<in> dom (passport_reads w). a < next_address w)
     \<and> table_ok (next_address w) (hce_profiles (client w))"

lemma world_ok_init: "world_ok world_init"
  by (simp add: world_ok_def world_init_def pointers_ok_def tag_ok_def keys_of_six_def mifare_cache_lookup_def
      nfcd_client_create_def table_ok_def)

text \<open>The part of the client the invariant speaks about.\<close>

definition same_core :: "nfcd_client \<Rightarrow> nfcd_client \<Rightarrow> bool" where
  "same_core c c' \<longleftrightarrow> tag_path c' = tag_path c \<and> tag_json c' = tag_json c \<and> tag_is_type2 c' = tag_is_type2 c
     \<and> tag_protocol c' = tag_protocol c \<and> reading c' = reading c \<and> passport_reading c' = passport_reading c
     \<and> mifare_key_cache c' = mifare_key_cache c"

lemma world_ok_core:
  assumes "world_ok w" "same_core (client w) c'" "hce_profiles c' = hce_profiles (client w)"
  shows "world_ok (w\<lparr>client := c'\<rparr>)"
  using assms
  unfolding world_ok_def same_core_def pointers_ok_def tag_ok_def read_ok_def keys_of_six_def mifare_cache_lookup_def
  by simp

lemma aborted_reads:
  "tag_reads (abort_passport_read (abort_tag_read w)) a =
     (if reading (client w) = Some a then map_option tag_read_abort (tag_reads w a) else tag_reads w a)"
  "passport_reads (abort_passport_read (abort_tag_read w)) a =
     (if passport_reading (client w) = Some a then map_option passport_read_abort (passport_reads w a) else passport_reads w a)"
  "client (abort_passport_read (abort_tag_read w)) = (client w)\<lparr>reading := None, passport_reading := None\<rparr>"
  "next_address (abort_passport_read (abort_tag_read w)) = next_address w"
  by (auto simp: abort_tag_read_def abort_passport_read_def split: option.split)

lemma abort_not_live: "\<not> live_read (tag_read_abort r)" "\<not> live_passport (passport_read_abort p)"
  by (simp_all add: live_read_def live_passport_def tag_read_abort_def passport_read_abort_def)

lemma read_ok_abort: "read_ok c r \<Longrightarrow> read_ok c' (tag_read_abort r)"
  by (auto simp: read_ok_def live_read_def tag_read_abort_def mifare_ok_def obj_ok_def late_def)

lemma read_ok_idle: "read_ok c r \<Longrightarrow> \<not> live_read r \<Longrightarrow> read_ok c' r"
  by (simp add: read_ok_def)

lemma nothing_live:
  assumes "world_ok w"
  shows "tag_reads (abort_passport_read (abort_tag_read w)) a = Some r \<Longrightarrow> \<not> live_read r"
    and "passport_reads (abort_passport_read (abort_tag_read w)) a = Some p \<Longrightarrow> \<not> live_passport p"
  using assms abort_not_live
  by (auto simp: aborted_reads world_ok_def pointers_ok_def split: if_splits)

lemma set_current_tag_ok:
  assumes "world_ok w"
  shows "world_ok (fst (set_current_tag w path))"
proof (cases "tag_path (client w) = path")
  case False
  define v where "v = abort_passport_read (abort_tag_read w)"
  note idle = nothing_live [OF assms, folded v_def] and frame = aborted_reads [of w, folded v_def]
  have reads: "a < next_address w \<and> read_ok c' r" if "tag_reads v a = Some r" for a r c'
  proof -
    have "\<exists>s. tag_reads w a = Some s \<and> (r = s \<or> r = tag_read_abort s)"
      using that by (auto simp: frame split: if_splits)
    then show ?thesis
      using assms read_ok_abort [of "client w"] read_ok_idle [of "client w" r c'] idle(1) [OF that]
      by (auto simp: world_ok_def)
  qed
  have passports: "a < next_address w" if "passport_reads v a = Some p" for a p
    using that assms by (auto simp: frame world_ok_def split: if_splits)
  have rest: "keys_of_six (client w)" "table_ok (next_address w) (hce_profiles (client w))"
    using assms by (simp_all add: world_ok_def)
  show ?thesis
  proof (cases path)
    case None
    with False idle reads passports rest show ?thesis
      by (auto simp: set_current_tag_def Let_def v_def [symmetric] frame world_ok_def pointers_ok_def tag_ok_def
          keys_of_six_def mifare_cache_lookup_def)
  next
    case (Some p)
    have new: "live_read (tag_read_new p)" "mifare_ok (tag_read_new p)" "\<not> late (tr_stage (tag_read_new p))"
      "tr_path (tag_read_new p) = p"
      by (simp_all add: live_read_def tag_read_new_def mifare_ok_def late_def)
    have fresh: "tag_reads v (next_address w) = None"
      using reads [of "next_address w"] by (cases "tag_reads v (next_address w)") auto
    from Some False idle reads passports rest new fresh show ?thesis
      by (auto simp: set_current_tag_def tag_read_start_def Let_def v_def [symmetric] frame world_ok_def pointers_ok_def
          tag_ok_def keys_of_six_def mifare_cache_lookup_def table_ok_mono read_ok_def less_Suc_eq)
  qed
qed (use assms in \<open>simp add: set_current_tag_def\<close>)

lemma set_current_tag_core:
  "hce_profiles (client (fst (set_current_tag w path))) = hce_profiles (client w)"
  "available (client (fst (set_current_tag w path))) = available (client w)"
  "tag_path (client (fst (set_current_tag w path))) = path"
  by (simp_all add: set_current_tag_def tag_read_start_def aborted_reads Let_def split: option.split)

lemma attach_adapter_ok:
  assumes "world_ok w"
  shows "world_ok (fst (attach_adapter w path))"
proof (cases path)
  case None
  have "world_ok (w\<lparr>client := (client w)\<lparr>adapter := False, adapter_path := None, available := False\<rparr>\<rparr>)"
    by (rule world_ok_core [OF assms]) (simp_all add: same_core_def)
  from set_current_tag_ok [OF this, of None] None show ?thesis
    by (simp add: attach_adapter_def case_prod_unfold Let_def)
next
  case (Some p)
  have "world_ok (w\<lparr>client := (client w)\<lparr>adapter_path := path\<rparr>\<rparr>)"
    by (rule world_ok_core [OF assms]) (simp_all add: same_core_def)
  with Some assms show ?thesis by (simp add: attach_adapter_def)
qed

lemma tag_read_event_ok:
  assumes "world_ok w"
  shows "world_ok (fst (tag_read_event g width w a ev))"
proof (cases "tag_reads w a")
  case (Some r)
  obtain c' r' outs where step: "tag_read_step g width (client w) r ev = (c', r', outs)" by (metis prod_cases3)
  have r: "a < next_address w" "read_ok (client w) r" and keys: "keys_of_six (client w)"
    using assms Some by (auto simp: world_ok_def)
  have mif: "mifare_ok r'" "keys_of_six c'"
    using mifare_good_step [of r "client w" g width ev] keys_of_six_step [of r "client w" g width ev] step r keys
    by (simp_all add: read_ok_def mifare_good_def)
  have hce: "hce_profiles c' = hce_profiles (client w)" using tag_read_step_hce(1) [of g width "client w" r ev] step by simp
  show ?thesis
  proof (cases "live_read r \<and> \<not> t_cancelled ev")
    case True
    then have live: "tr_attached r" "tr_stage r \<noteq> T_Done" by (auto simp: live_read_def)
    have eff: "effect_ok (tr_path r) (client w) (c', r', outs)"
      using effect_step [of r ev "client w" g width] live r True step by (simp add: read_ok_def)
    have path: "tag_path (client w) = Some (tr_path r)" using r True by (simp add: read_ok_def)
    have ptr: "reading (client w) = Some a" using assms Some True by (auto simp: world_ok_def pointers_ok_def)
    then have only: "tag_reads w b = Some s \<Longrightarrow> live_read s \<Longrightarrow> b = a" for b s
      using assms by (auto simp: world_ok_def pointers_ok_def)
    have live': "live_read r' \<longleftrightarrow> tr_stage r' \<noteq> T_Done" using eff by (simp add: live_read_def effect_ok_def)
    have "world_ok (w\<lparr>client := c', tag_reads := (tag_reads w)(a \<mapsto> r')\<rparr>)"
      using assms eff path ptr only live' mif hce r
      by (auto simp: world_ok_def pointers_ok_def effect_ok_def tag_ok_def read_ok_def names_path_def)
    with Some True step show ?thesis by (simp add: tag_read_event_def)
  next
    case False
    show ?thesis
    proof (cases "tr_attached r")
      case True
      with False have "t_cancelled ev \<or> tr_stage r = T_Done" by (auto simp: live_read_def)
      with Some True assms show ?thesis
        by (auto simp: tag_read_event_def tag_read_step_def map_upd_triv)
    next
      case det: False
      from detached_step [OF this step [symmetric]] have "c' = client w" "\<not> tr_attached r'" by simp_all
      with det have "world_ok (w\<lparr>client := c', tag_reads := (tag_reads w)(a \<mapsto> r')\<rparr>)"
        using assms mif r Some detached_obj [OF det _ step]
        by (auto simp: world_ok_def pointers_ok_def read_ok_def live_read_def)
      with Some det step show ?thesis by (simp add: tag_read_event_def)
    qed
  qed
qed (use assms in \<open>simp add: tag_read_event_def\<close>)

lemma passport_read_event_ok:
  assumes "world_ok w"
  shows "world_ok (fst (passport_read_event env w a ev))"
proof (cases "passport_reads w a")
  case (Some r)
  obtain r' outs where step: "passport_step env r ev = (r', outs)" by fastforce
  show ?thesis
  proof (cases "pr_stage r = P_Done")
    case True
    with step have "r' = r" "outs = []" by (simp_all add: passport_step_def)
    with Some step assms show ?thesis by (simp add: passport_read_event_def map_upd_triv)
  next
    case False
    have slot: "attached r' = attached r" "OutClearSlot \<in> set outs \<longleftrightarrow> attached r \<and> pr_stage r' = P_Done"
      using passport_slot [OF False, of env ev] step by simp_all
    have ptr: "passport_reading (client w) = Some a \<longleftrightarrow> attached r"
      using assms Some False by (auto simp: world_ok_def pointers_ok_def live_passport_def)
    have only: "passport_reads w b = Some s \<Longrightarrow> live_passport s \<Longrightarrow> passport_reading (client w) = Some b" for b s
      using assms by (auto simp: world_ok_def pointers_ok_def)
    have alone: "attached r \<Longrightarrow> passport_reads w b = Some s \<Longrightarrow> live_passport s \<Longrightarrow> b = a" for b s
      using only [of b s] ptr by simp
    define c' where "c' = (if OutClearSlot \<in> set outs \<and> passport_reading (client w) = Some a
      then (client w)\<lparr>passport_reading := None\<rparr> else client w)"
    have c': "same_core ((client w)\<lparr>passport_reading := passport_reading c'\<rparr>) c'" "hce_profiles c' = hce_profiles (client w)"
      "passport_reading c' = (if attached r \<and> pr_stage r' = P_Done then None else passport_reading (client w))"
      using slot ptr by (auto simp: c'_def same_core_def)
    have "world_ok (w\<lparr>passport_reads := (passport_reads w)(a \<mapsto> r'), client := c'\<rparr>)"
      unfolding world_ok_def pointers_ok_def
    proof (intro conjI allI ballI impI)
      fix b
      show "passport_reading (client (w\<lparr>passport_reads := (passport_reads w)(a \<mapsto> r'), client := c'\<rparr>)) = Some b \<longleftrightarrow>
          (\<exists>s. passport_reads (w\<lparr>passport_reads := (passport_reads w)(a \<mapsto> r'), client := c'\<rparr>) b = Some s \<and> live_passport s)"
        using c'(3) slot(1) ptr only alone assms by (auto simp: live_passport_def world_ok_def pointers_ok_def)
    qed (use assms c' Some in \<open>auto simp: world_ok_def pointers_ok_def same_core_def tag_ok_def read_ok_def keys_of_six_def
        mifare_cache_lookup_def\<close>)
    with Some step show ?thesis by (simp add: passport_read_event_def c'_def Let_def)
  qed
qed (use assms in \<open>simp add: passport_read_event_def\<close>)

lemma dispatch_ok:
  assumes "world_ok w" "passport_read_precheck (client w) = None" "live_passport r"
  shows "world_ok (fst (passport_read_dispatch w r))"
proof -
  have pre: "passport_reading (client w) = None" "tag_path (client w) \<noteq> None"
    using assms(2) by (auto simp: passport_read_precheck_def split: if_splits)
  then have "passport_reads w b = Some s \<Longrightarrow> \<not> live_passport s" for b s
    using assms(1) by (auto simp: world_ok_def pointers_ok_def)
  then show ?thesis
    using assms(1,3) pre
    by (auto simp: passport_read_dispatch_def world_ok_def pointers_ok_def tag_ok_def read_ok_def keys_of_six_def
        mifare_cache_lookup_def table_ok_mono less_Suc_eq Let_def)
qed

lemma new_passport_live: "live_passport (passport_read_new pc k x ph)"
  by (simp add: live_passport_def passport_read_new_def)

lemma read_passport_ok:
  "world_ok w \<Longrightarrow> world_ok (fst (nfcd_client_read_passport ossl w doc dob expiry ph))"
  "world_ok w \<Longrightarrow> world_ok (fst (nfcd_client_read_passport_pace w can ph))"
  by (auto simp: nfcd_client_read_passport_def nfcd_client_read_passport_pace_def dispatch_ok new_passport_live
      split: option.split)

text \<open>Card emulation leaves the tag and the reads alone.\<close>

lemma hce_core: "(\<forall>b. e \<noteq> H_Daemon b) \<Longrightarrow> same_core (hs_client s) (hs_client (fst (hce_step s e)))
    \<and> same_field (hs_client s) (hs_client (fst (hce_step s e))) \<and> hs_next s \<le> hs_next (fst (hce_step s e))"
proof (cases e)
  case (H_Add bus exported aid data impl)
  have "same_core c (fst (nfcd_client_add_card_emulation_profile c n bus exported aid data impl))"
    "same_field c (fst (nfcd_client_add_card_emulation_profile c n bus exported aid data impl))" for c n
    by (simp_all add: nfcd_client_add_card_emulation_profile_def same_core_def same_field_def hce_export_skeleton_def Let_def split: option.split)
  with H_Add show ?thesis by (simp add: case_prod_unfold Let_def)
next
  case (H_Remove aid)
  have "same_core c (fst (nfcd_client_remove_card_emulation_profile c aid))"
    "same_field c (fst (nfcd_client_remove_card_emulation_profile c aid))" for c
    by (simp_all add: nfcd_client_remove_card_emulation_profile_def same_core_def same_field_def Let_def split: option.split)
  with H_Remove show ?thesis by (simp add: case_prod_unfold Let_def)
next
  case (H_Registered addr err)
  then show ?thesis
    by (auto simp: hce_register_ready_def update_profile_def same_core_def same_field_def split: option.split)
qed (auto simp: nfcd_client_clear_card_emulation_def hce_mode_ready_def hce_handle_process_def
    hce_handle_response_status_def Let_def same_core_def same_field_def case_prod_unfold Let_def split: option.split)

lemma hce_event_ok:
  assumes "world_ok w" "\<forall>b. e \<noteq> H_Daemon b"
  shows "world_ok (fst (hce_world_event w e))"
proof -
  let ?s = "\<lparr>hs_client = client w, hs_next = next_address w, hs_pending = hce_pending w, hs_wild = hce_wild w\<rparr>"
  obtain s outs where step: "hce_step ?s e = (s, outs)" by fastforce
  have core: "same_core (client w) (hs_client s)" "next_address w \<le> hs_next s"
    using hce_core [OF assms(2), of ?s] step by simp_all
  have table: "table_ok (hs_next s) (hce_profiles (hs_client s))"
    using hce_table.inv_step [of ?s e] assms(1) step by (simp add: hce_ok_def world_ok_def)
  let ?w = "w\<lparr>client := hs_client s, next_address := hs_next s, hce_pending := hs_pending s, hce_wild := hs_wild s\<rparr>"
  have "world_ok ?w"
    unfolding world_ok_def
  proof (intro conjI allI impI ballI)
    show "pointers_ok ?w" "tag_ok (client ?w)" "keys_of_six (client ?w)"
      using assms(1) core(1)
      unfolding world_ok_def same_core_def pointers_ok_def tag_ok_def keys_of_six_def mifare_cache_lookup_def by simp_all
    show "b < next_address ?w" if "b \<in> dom (passport_reads ?w)" for b
      using that assms(1) core(2) by (auto simp: world_ok_def intro: less_le_trans)
    show "b < next_address ?w" "read_ok (client ?w) r" if "tag_reads ?w b = Some r" for b r
      using that assms(1) core by (auto simp: world_ok_def read_ok_def same_core_def intro: less_le_trans)
  qed (use table in simp)
  then show ?thesis by (simp add: hce_world_event_def step)
qed

lemma core_ok [simp]:
  assumes "world_ok w"
  shows "same_core (client w) c' \<Longrightarrow> hce_profiles c' = hce_profiles (client w) \<Longrightarrow> world_ok (w\<lparr>client := c'\<rparr>)"
  using world_ok_core [OF assms] .

lemma adapter_get_all_ok:
  assumes "world_ok w"
  shows "world_ok (fst (adapter_get_all_ready w res))"
proof (cases res)
  case (Some ai)
  have "world_ok (w\<lparr>client := (client w)\<lparr>adapter_enabled := ai_enabled ai, powered := ai_powered ai,
      supported_modes := ai_supported_modes ai, mode := ai_mode ai, present := ai_present ai,
      techs := ai_techs ai, available := True\<rparr>\<rparr>)"
    by (rule world_ok_core [OF assms]) (simp_all add: same_core_def)
  from set_current_tag_ok [OF this] Some show ?thesis
    by (simp add: adapter_get_all_ready_def update_tags_def case_prod_unfold Let_def)
qed (use assms in \<open>simp add: adapter_get_all_ready_def\<close>)

lemma daemon_ok:
  assumes "world_ok w"
  shows "world_ok (fst (daemon_get_all_ready w res))" "world_ok (fst (daemon_vanished w))"
proof -
  have "world_ok (w\<lparr>client := (client w)\<lparr>daemon_version := v\<rparr>\<rparr>)" for v
    by (rule world_ok_core [OF assms]) (simp_all add: same_core_def)
  then show "world_ok (fst (daemon_get_all_ready w res))"
    using assms attach_adapter_ok by (auto simp: daemon_get_all_ready_def split: option.split)
  have "world_ok (w\<lparr>client := (client w)\<lparr>daemon := False, daemon_version := 0, mode_request_id := 0\<rparr>\<rparr>)"
    by (rule world_ok_core [OF assms]) (simp_all add: same_core_def)
  then show "world_ok (fst (daemon_vanished w))" using attach_adapter_ok by (simp add: daemon_vanished_def)
qed

lemmas plain_handlers = adapter_enabled_changed_def adapter_powered_changed_def adapter_mode_changed_def
  adapter_present_changed_def adapter_proxy_ready_def request_reader_writer_mode_ready_def daemon_proxy_ready_def
  daemon_appeared_def settings_enabled_changed_def settings_get_all_ready_def settings_proxy_ready_def
  settings_appeared_def settings_vanished_def

lemma world_ok_step: "world_ok w \<Longrightarrow> world_ok (fst (client_step g width env w e))"
  by (cases e)
    (auto simp: plain_handlers adapter_tags_changed_def update_tags_def set_current_tag_ok adapter_get_all_ok
      daemon_adapters_changed_def attach_adapter_ok daemon_ok tag_read_event_ok passport_read_event_ok
      read_passport_ok hce_event_ok same_core_def split: option.split)

interpretation client_states: invariant_machine "client_step g width env" world_ok for g width env
  by unfold_locales (rule world_ok_step)

lemma reachable_ok: "reachable g width env w \<Longrightarrow> world_ok w"
  by (induction rule: reachable.induct) (simp_all add: world_ok_init world_ok_step)

lemma reachable_run: "reachable g width env w \<Longrightarrow> reachable g width env (fst (run (client_step g width env) w es))"
  by (induction es arbitrary: w) (simp_all add: reach_step run_fst_Cons del: run.simps(2))

section \<open>What follows for the daemon\<close>

text \<open>
  In every state of the daemon, the tag it publishes carries the path of the tag in the
  field: no interleaving of tags coming and going, reads finishing late and calls can make it
  show the contents of a tag that is no longer there.
\<close>

theorem published_tag_is_current:
  assumes "reachable g width env w" and "tag_json (client w) = Some j"
  shows "\<exists>p. tag_path (client w) = Some p \<and> jget j ''path'' = Some (JStr p)"
  using reachable_ok [OF assms(1)] assms(2)
  by (cases "tag_path (client w)") (auto simp: world_ok_def tag_ok_def names_path_def)

text \<open>A Type 4 tag arrives and is read.\<close>

definition demo_adapter :: adapter_info where
  "demo_adapter = \<lparr>ai_enabled = True, ai_powered = True, ai_supported_modes = 15, ai_mode = 2, ai_present = True,
     ai_tags = [str ''/nfc0/tag0''], ai_techs = 7\<rparr>"

definition demo_world :: "nat world" where
  "demo_world = fst (run (client_step demo_glib 64 demo_env) world_init
     [E_AdapterGetAll (Some demo_adapter), E_Tag 0 call_ok, E_Tag 0 (call_ok\<lparr>t_info := blank_info\<lparr>ti_protocol := 8\<rparr>\<rparr>)])"

lemma demo_world_reachable: "reachable demo_glib 64 demo_env demo_world"
  unfolding demo_world_def by (rule reachable_run) (rule reach_init)

lemma demo_world_tag:
  "tag_path (client demo_world) = Some (str ''/nfc0/tag0'')" "tag_protocol (client demo_world) = 8"
  "tag_json (client demo_world) \<noteq> None" "passport_reading (client demo_world) = None"
  by (simp_all add: demo_world_def world_init_def nfcd_client_create_def adapter_get_all_ready_def demo_adapter_def
      update_tags_def first_of_def set_current_tag_def abort_tag_read_def abort_passport_read_def tag_read_start_def
      tag_read_event_def tag_read_step_def tag_read_new_def tag_proxy_ready_def tag_wait_def call_ok_def
      tag_get_all_ready_def blank_info_def tag_read_next_record_def tag_read_raw_data_def tag_read_finish_def Let_def
      NFC_TAG_TYPE_MIFARE_CLASSIC_def Let_def)

theorem published_tag_is_current_witness:
  "jget (the (tag_json (client demo_world))) ''path'' = Some (JStr (str ''/nfc0/tag0''))"
  using published_tag_is_current [OF demo_world_reachable] demo_world_tag by auto

text \<open>
  C7.  In every state of the daemon, the client's pointer to a tag read is exactly the address
  of the one read that is neither over nor detached, and likewise for passport reads: the
  pointers are never dangling, and at most one read of each kind is served at a time.
\<close>

theorem client_pointers_valid:
  assumes "reachable g width env w"
  shows "(reading (client w) = Some a \<longleftrightarrow> (\<exists>r. tag_reads w a = Some r \<and> tr_attached r \<and> tr_stage r \<noteq> T_Done))
    \<and> (passport_reading (client w) = Some a \<longleftrightarrow>
        (\<exists>r. passport_reads w a = Some r \<and> attached r \<and> pr_stage r \<noteq> P_Done))"
  using reachable_ok [OF assms] by (simp add: world_ok_def pointers_ok_def live_read_def live_passport_def)

theorem client_pointers_valid_witness:
  "\<not> (\<exists>r. passport_reads demo_world 0 = Some r \<and> attached r \<and> pr_stage r \<noteq> P_Done)"
  using client_pointers_valid [OF demo_world_reachable, of 0] demo_world_tag by simp


definition mifare_world :: "nat world" where
  "mifare_world = fst (run (client_step demo_glib 64 demo_env) world_init
     [E_AdapterGetAll (Some demo_adapter), E_Tag 0 call_ok])"


text \<open>
  C29.  When nfcd disappears, in whatever state, no tag is published any more, every read in
  flight is detached, and the adapter counts as unavailable; but whether it is powered, whether
  a target is present, and the mode stay what they were.
\<close>

theorem daemon_vanished_effect:
  assumes "reachable g width env w" and "w' = fst (client_step g width env w E_DaemonVanished)"
  shows "tag_path (client w') = None \<and> tag_json (client w') = None
    \<and> \<not> daemon (client w') \<and> \<not> adapter (client w') \<and> \<not> available (client w')
    \<and> (\<forall>a r. tag_reads w' a = Some r \<longrightarrow> \<not> live_read r)
    \<and> (\<forall>a r. passport_reads w' a = Some r \<longrightarrow> \<not> live_passport r)
    \<and> powered (client w') = powered (client w) \<and> present (client w') = present (client w)
    \<and> mode (client w') = mode (client w)"
proof -
  have "reachable g width env w'" unfolding assms(2) by (rule reach_step) (rule assms(1))
  then have ok: "world_ok w'" by (rule reachable_ok)
  let ?c = "(client w)\<lparr>daemon := False, daemon_version := 0, mode_request_id := 0, adapter := False,
    adapter_path := None, available := False\<rparr>"
  have w': "w' = fst (set_current_tag (w\<lparr>client := ?c\<rparr>) None)"
    by (simp add: assms(2) daemon_vanished_def attach_adapter_def case_prod_unfold Let_def)
  have gone: "tag_path (client w') = None" "\<not> available (client w')"
    unfolding w' set_current_tag_core by simp_all
  have flags: "\<not> daemon (client w') \<and> \<not> adapter (client w') \<and> powered (client w') = powered (client w)
      \<and> present (client w') = present (client w) \<and> mode (client w') = mode (client w)"
    unfolding w' by (simp add: set_current_tag_def aborted_reads Let_def)
  from ok gone(1) have "reading (client w') = None" "passport_reading (client w') = None" "tag_json (client w') = None"
    by (auto simp: world_ok_def tag_ok_def)
  with ok gone flags show ?thesis by (fastforce simp: world_ok_def pointers_ok_def)
qed

theorem daemon_vanished_effect_witness:
  "tag_json (client (fst (client_step demo_glib 64 demo_env demo_world E_DaemonVanished))) = None"
  using daemon_vanished_effect [OF demo_world_reachable refl] by simp

text \<open>
  When the client is freed, in whatever state, no tag read and no passport read that is still
  waiting for a result points back at it.
\<close>

theorem client_free_detaches:
  assumes "reachable g width env w"
  shows "(\<forall>a r. tag_reads (nfcd_client_free w) a = Some r \<and> tr_stage r \<noteq> T_Done \<longrightarrow> \<not> tr_attached r)
    \<and> (\<forall>a p. passport_reads (nfcd_client_free w) a = Some p \<and> pr_stage p \<noteq> P_Done \<longrightarrow> \<not> attached p)"
  using nothing_live [OF reachable_ok [OF assms]]
  by (auto simp: nfcd_client_free_def live_read_def live_passport_def)

theorem client_free_detaches_witness:
  "\<not> tr_attached (the (tag_reads (nfcd_client_free mifare_world) 0))"
proof -
  have reach: "reachable demo_glib 64 demo_env mifare_world"
    unfolding mifare_world_def by (rule reachable_run) (rule reach_init)
  have state: "map_option tr_stage (tag_reads (nfcd_client_free mifare_world) 0) = Some T_GetAll"
    by (simp add: nfcd_client_free_def aborted_reads mifare_world_def world_init_def nfcd_client_create_def
      adapter_get_all_ready_def demo_adapter_def update_tags_def first_of_def set_current_tag_def abort_tag_read_def
      abort_passport_read_def tag_read_start_def tag_read_event_def tag_read_step_def tag_read_new_def
      tag_proxy_ready_def tag_wait_def call_ok_def tag_read_abort_def Let_def)
  then obtain r where r: "tag_reads (nfcd_client_free mifare_world) 0 = Some r" "tr_stage r = T_GetAll" by auto
  with client_free_detaches [OF reach] show ?thesis by simp
qed

end
