(* ===== verification/Client_Refinement.thy ===== *)
theory Client_Refinement
  imports Client_Facts
begin

text \<open>
  The client implements a three-field specification of what nfcd reports: reads, requests,
  settings and card emulation have no influence on which adapter and which tag it is at.
\<close>

section \<open>Refinement of what nfcd reports\<close>

text \<open>
  The specification sees of the client only the adapter it is attached to, the tag in the
  field, and whether there is an adapter at all; and of all events only what nfcd reports
  about adapters and tags.
\<close>

record field_view =
  fv_adapter :: "bytes option"
  fv_tag :: "bytes option"
  fv_available :: bool

definition field_of :: "'g world \<Rightarrow> field_view" where
  "field_of w = \<lparr>fv_adapter = adapter_path (client w), fv_tag = tag_path (client w), fv_available = available (client w)\<rparr>"

definition spec_adapters :: "field_view \<Rightarrow> bytes list \<Rightarrow> field_view" where
  "spec_adapters v adapters =
     (if adapters = [] then \<lparr>fv_adapter = None, fv_tag = None, fv_available = False\<rparr>
      else v\<lparr>fv_adapter := Some (hd adapters)\<rparr>)"

fun field_spec :: "field_view \<Rightarrow> client_event \<Rightarrow> field_view" where
  "field_spec v (E_AdapterTags tags) = v\<lparr>fv_tag := first_of tags\<rparr>"
| "field_spec v (E_AdapterGetAll (Some ai)) = v\<lparr>fv_tag := first_of (ai_tags ai), fv_available := True\<rparr>"
| "field_spec v (E_Adapters adapters) = spec_adapters v adapters"
| "field_spec v (E_DaemonGetAll (Some r)) = spec_adapters v (snd r)"
| "field_spec v E_DaemonVanished = spec_adapters v []"
| "field_spec v _ = v"

lemma field_same: "same_field (client w) (client w') \<Longrightarrow> field_of w' = field_of w"
  by (simp add: field_of_def same_field_def)

lemma field_set_tag: "field_of (fst (set_current_tag w path)) = (field_of w)\<lparr>fv_tag := path\<rparr>"
  by (simp add: field_of_def set_current_tag_def tag_read_start_def aborted_reads Let_def split: option.split)

lemma field_attach: "field_of (fst (attach_adapter w (first_of adapters))) = spec_adapters (field_of w) adapters"
  using field_set_tag [of "w\<lparr>client := (client w)\<lparr>adapter := False, adapter_path := None, available := False\<rparr>\<rparr>" None]
  by (cases adapters)
    (auto simp: attach_adapter_def first_of_def spec_adapters_def field_of_def case_prod_unfold Let_def)

lemma field_tag_event: "field_of (fst (tag_read_event g width w a ev)) = field_of w"
proof (cases "tag_reads w a")
  case (Some r)
  have "field_of (w\<lparr>client := fst (tag_read_step g width (client w) r ev), tag_reads := m\<rparr>) = field_of w" for m
    using tag_read_step_hce(2) [of "client w" g width r ev] by (simp add: field_same)
  with Some show ?thesis by (simp add: tag_read_event_def case_prod_unfold Let_def)
qed (simp add: tag_read_event_def)

lemma field_passport_event: "field_of (fst (passport_read_event env w a ev)) = field_of w"
  by (auto simp: passport_read_event_def field_of_def case_prod_unfold Let_def split: option.split)

lemma field_hce_event:
  assumes "\<forall>b. e \<noteq> H_Daemon b"
  shows "field_of (fst (hce_world_event w e)) = field_of w"
  using hce_core [OF assms, of "\<lparr>hs_client = client w, hs_next = next_address w, hs_pending = hce_pending w,
    hs_wild = hce_wild w\<rparr>"]
  by (auto simp: hce_world_event_def field_of_def same_field_def case_prod_unfold Let_def)

lemma field_passport_start:
  "field_of (fst (nfcd_client_read_passport ossl w doc dob expiry ph)) = field_of w"
  "field_of (fst (nfcd_client_read_passport_pace w can ph)) = field_of w"
  by (auto simp: nfcd_client_read_passport_def nfcd_client_read_passport_pace_def passport_read_dispatch_def
      field_of_def Let_def split: option.split)

lemma field_get_all: "field_of (fst (adapter_get_all_ready w res)) = field_spec (field_of w) (E_AdapterGetAll res)"
  by (cases res)
    (auto simp: adapter_get_all_ready_def update_tags_def case_prod_unfold Let_def field_set_tag, simp add: field_of_def)

lemma field_daemon:
  "field_of (fst (daemon_get_all_ready w res)) = field_spec (field_of w) (E_DaemonGetAll res)"
  "field_of (fst (daemon_vanished w)) = spec_adapters (field_of w) []"
proof -
  have same: "field_of (w\<lparr>client := (client w)\<lparr>daemon_version := v\<rparr>\<rparr>) = field_of w"
    "field_of (w\<lparr>client := (client w)\<lparr>daemon := False, daemon_version := 0, mode_request_id := 0\<rparr>\<rparr>) = field_of w" for v
    by (simp_all add: field_of_def)
  show "field_of (fst (daemon_get_all_ready w res)) = field_spec (field_of w) (E_DaemonGetAll res)"
    by (cases res) (auto simp: daemon_get_all_ready_def field_attach same)
  show "field_of (fst (daemon_vanished w)) = spec_adapters (field_of w) []"
    using field_attach [of "w\<lparr>client := (client w)\<lparr>daemon := False, daemon_version := 0, mode_request_id := 0\<rparr>\<rparr>" "[]"]
    by (simp add: daemon_vanished_def first_of_def same)
qed

lemma field_step: "field_of (fst (client_step g width env w e)) = field_spec (field_of w) e"
  by (cases e)
    (simp_all add: adapter_tags_changed_def update_tags_def field_set_tag field_get_all daemon_adapters_changed_def
      field_attach field_daemon field_tag_event field_passport_event field_hce_event field_passport_start,
      auto simp: plain_handlers field_of_def split: option.split)

interpretation client_field: refining_machine "client_step g width env" field_of field_spec for g width env
  by unfold_locales (rule field_step)

text \<open>
  C12.  After any sequence of events from the fresh client, the adapter, the tag in the field and
  the availability are what the specification computes from nfcd's reports alone; reads and
  their results, calls of the service, settings and card emulation never change them.
\<close>

theorem client_refines_reports:
  "field_of (fst (run (client_step g width env) world_init es)) =
     foldl field_spec \<lparr>fv_adapter = None, fv_tag = None, fv_available = False\<rparr> es"
  using client_field.refines_run [of g width env world_init es]
  by (simp add: field_of_def world_init_def nfcd_client_create_def)

end
