(* ===== verification/Write_Lock.thy ===== *)
theory Write_Lock
  imports Client_State
begin

text \<open>
  Writing and locking a Type 2 tag (\<open>struct write_req\<close> and \<open>struct lock_req\<close> of
  \<open>nfcd_client.c\<close>), one definition per callback.  A D-Bus proxy is its object path, so a
  call names the tag it goes to.  The client is an argument of every callback: it may have
  changed since the request was started.
\<close>

section \<open>Events and effects\<close>

text \<open>The decimal rendering of \<open>%u\<close> and \<open>%zu\<close>.\<close>

fun dec_text :: "nat \<Rightarrow> bytes" where
  "dec_text n = (if n < 10 then [byte_of (48 + n)] else dec_text (n div 10) @ [byte_of (48 + n mod 10)])"

declare dec_text.simps [simp del]

text \<open>The result of the pending call: its error message, or what it returns.\<close>

record req_event =
  q_ok :: bool
  q_message :: bytes
  q_written :: nat
  q_data :: bytes

datatype req_out =
    ReqCall "bytes option" dbus_call
  | ReqReply bool "bytes option"

section \<open>Writing\<close>

datatype write_stage = W_Proxy | W_Acquire | W_Type2 | W_Write | W_Release | W_Done

record write_req =
  wr_stage :: write_stage
  tlv :: bytes
  wr_path :: "bytes option"
  wr_tag :: "bytes option"
  wr_type2_path :: "bytes option"
  wr_type2 :: "bytes option"
  written :: bool
  wr_error_text :: "bytes option"

type_synonym write_step = "write_req \<times> req_out list"

definition write_req_finish :: "write_req \<Rightarrow> bool \<Rightarrow> bytes option \<Rightarrow> write_step" where
  "write_req_finish req success error_text = (req\<lparr>wr_stage := W_Done\<rparr>, [ReqReply success error_text])"

definition write_release_ready :: "write_req \<Rightarrow> req_event \<Rightarrow> write_step" where
  "write_release_ready req ev = write_req_finish req (written req) (wr_error_text req)"

definition write_release :: "write_req \<Rightarrow> write_step" where
  "write_release req = (req\<lparr>wr_stage := W_Release\<rparr>, [ReqCall (wr_tag req) TagRelease])"

definition write_data_ready :: "write_req \<Rightarrow> req_event \<Rightarrow> write_step" where
  "write_data_ready req ev =
     (if q_ok ev then
        (if q_written ev = length (tlv req) then write_release (req\<lparr>written := True\<rparr>)
         else write_release (req\<lparr>written := False,
           wr_error_text := Some (str ''Only '' @ dec_text (q_written ev) @ str '' of ''
             @ dec_text (length (tlv req)) @ str '' bytes reached the tag'')\<rparr>))
      else write_release (req\<lparr>wr_error_text := Some (str ''Failed to write the tag: '' @ q_message ev),
             written := False\<rparr>))"

definition write_type2_proxy_ready :: "write_req \<Rightarrow> req_event \<Rightarrow> write_step" where
  "write_type2_proxy_ready req ev =
     (if \<not> q_ok ev then
        write_release (req\<lparr>wr_error_text := Some (str ''Failed to reach the tag: '' @ q_message ev), written := False\<rparr>)
      else (req\<lparr>wr_type2 := wr_type2_path req, wr_stage := W_Write\<rparr>,
            [ReqCall (wr_type2_path req) (Type2WriteData 0 (tlv req))]))"

definition write_acquire_ready :: "nfcd_client \<Rightarrow> write_req \<Rightarrow> req_event \<Rightarrow> write_step" where
  "write_acquire_ready client req ev =
     (if \<not> q_ok ev then write_req_finish req False (Some (str ''Failed to acquire the tag: '' @ q_message ev))
      else (req\<lparr>wr_type2_path := tag_path client, wr_stage := W_Type2\<rparr>,
            [ReqCall None (NewType2Proxy (tag_path client))]))"

definition write_tag_proxy_ready :: "write_req \<Rightarrow> req_event \<Rightarrow> write_step" where
  "write_tag_proxy_ready req ev =
     (if \<not> q_ok ev then write_req_finish req False (Some (str ''Failed to reach the tag: '' @ q_message ev))
      else (req\<lparr>wr_tag := wr_path req, wr_stage := W_Acquire\<rparr>, [ReqCall (wr_path req) (TagAcquire False)]))"

definition start_type2_write :: "nfcd_client \<Rightarrow> bytes \<Rightarrow> write_step" where
  "start_type2_write client data =
     (\<lparr>wr_stage = W_Proxy, tlv = data, wr_path = tag_path client, wr_tag = None, wr_type2_path = None,
       wr_type2 = None, written = False, wr_error_text = None\<rparr>,
      [ReqCall None (NewTagProxy (tag_path client))])"

text \<open>An operation that fails a check only calls back; otherwise a request is started.\<close>

type_synonym 'r start = "'r option \<times> req_out list"

definition refuse :: "string \<Rightarrow> 'r start" where
  "refuse msg = (None, [ReqReply False (Some (str msg))])"

definition begin_request :: "'r \<times> req_out list \<Rightarrow> 'r start" where
  "begin_request s = (Some (fst s), snd s)"

definition nfcd_client_write_tag :: "nfcd_client \<Rightarrow> bytes option \<Rightarrow> write_req start" where
  "nfcd_client_write_tag client message =
     (if tag_path client = None then refuse ''No tag in the field''
      else if \<not> tag_is_type2 client then refuse ''Only Type 2 tags can be written''
      else (case ndef_wrap_type2_tlv message of
              None \<Rightarrow> refuse ''Failed to encode the NDEF message''
            | Some data \<Rightarrow> begin_request (start_type2_write client data)))"

definition nfcd_client_write_raw :: "nfcd_client \<Rightarrow> bytes option \<Rightarrow> write_req start" where
  "nfcd_client_write_raw client raw_data =
     (if tag_path client = None then refuse ''No tag in the field''
      else if \<not> tag_is_type2 client then refuse ''Only Type 2 tags can be written''
      else (case raw_data of
              None \<Rightarrow> refuse ''Nothing to write''
            | Some data \<Rightarrow> if data = [] then refuse ''Nothing to write''
                else begin_request (start_type2_write client data)))"

definition write_step :: "write_req \<Rightarrow> nfcd_client \<times> req_event \<Rightarrow> write_step" where
  "write_step req e =
     (case wr_stage req of
        W_Proxy \<Rightarrow> write_tag_proxy_ready req (snd e)
      | W_Acquire \<Rightarrow> write_acquire_ready (fst e) req (snd e)
      | W_Type2 \<Rightarrow> write_type2_proxy_ready req (snd e)
      | W_Write \<Rightarrow> write_data_ready req (snd e)
      | W_Release \<Rightarrow> write_release_ready req (snd e)
      | W_Done \<Rightarrow> (req, []))"

section \<open>Locking\<close>

datatype lock_stage = L_Proxy | L_Acquire | L_Type2 | L_Read | L_Write | L_Release | L_Done

record lock_req =
  lk_stage :: lock_stage
  lk_path :: "bytes option"
  lk_tag :: "bytes option"
  lk_type2_path :: "bytes option"
  lk_type2 :: "bytes option"
  lk_error_text :: "bytes option"

type_synonym lock_step = "lock_req \<times> req_out list"

definition lock_req_finish :: "lock_req \<Rightarrow> bool \<Rightarrow> bytes option \<Rightarrow> lock_step" where
  "lock_req_finish req success error_text = (req\<lparr>lk_stage := L_Done\<rparr>, [ReqReply success error_text])"

definition lock_release_ready :: "lock_req \<Rightarrow> req_event \<Rightarrow> lock_step" where
  "lock_release_ready req ev = lock_req_finish req (lk_error_text req = None) (lk_error_text req)"

definition lock_release :: "lock_req \<Rightarrow> lock_step" where
  "lock_release req = (req\<lparr>lk_stage := L_Release\<rparr>, [ReqCall (lk_tag req) TagRelease])"

definition lock_write_ready :: "lock_req \<Rightarrow> req_event \<Rightarrow> lock_step" where
  "lock_write_ready req ev =
     (if \<not> q_ok ev then
        lock_release (req\<lparr>lk_error_text := Some (str ''Failed to write the lock bytes: '' @ q_message ev)\<rparr>)
      else if q_written ev \<noteq> 4 then
        lock_release (req\<lparr>lk_error_text :=
          Some (str ''Short write of the lock block: '' @ dec_text (q_written ev) @ str '' of 4 bytes'')\<rparr>)
      else lock_release req)"

text \<open>Bytes 0 and 1 are kept, all lock bits are set.\<close>

definition lock_block :: "bytes \<Rightarrow> bytes" where
  "lock_block block = [block ! 0, block ! 1, 0xff, 0xff]"

definition lock_read_ready :: "lock_req \<Rightarrow> req_event \<Rightarrow> lock_step" where
  "lock_read_ready req ev =
     (if \<not> q_ok ev then
        lock_release (req\<lparr>lk_error_text := Some (str ''Failed to read the lock block: '' @ q_message ev)\<rparr>)
      else if length (q_data ev) \<noteq> 4 then
        lock_release (req\<lparr>lk_error_text :=
          Some (str ''Unexpected lock block size: '' @ dec_text (length (q_data ev)) @ str '' bytes'')\<rparr>)
      else (req\<lparr>lk_stage := L_Write\<rparr>, [ReqCall (lk_type2 req) (Type2Write 0 2 (lock_block (q_data ev)))]))"

definition lock_type2_proxy_ready :: "lock_req \<Rightarrow> req_event \<Rightarrow> lock_step" where
  "lock_type2_proxy_ready req ev =
     (if \<not> q_ok ev then
        lock_release (req\<lparr>lk_error_text := Some (str ''Failed to reach the tag: '' @ q_message ev)\<rparr>)
      else (req\<lparr>lk_type2 := lk_type2_path req, lk_stage := L_Read\<rparr>, [ReqCall (lk_type2_path req) (Type2Read 0 2)]))"

definition lock_acquire_ready :: "nfcd_client \<Rightarrow> lock_req \<Rightarrow> req_event \<Rightarrow> lock_step" where
  "lock_acquire_ready client req ev =
     (if \<not> q_ok ev then lock_req_finish req False (Some (str ''Failed to acquire the tag: '' @ q_message ev))
      else (req\<lparr>lk_type2_path := tag_path client, lk_stage := L_Type2\<rparr>,
            [ReqCall None (NewType2Proxy (tag_path client))]))"

definition lock_tag_proxy_ready :: "lock_req \<Rightarrow> req_event \<Rightarrow> lock_step" where
  "lock_tag_proxy_ready req ev =
     (if \<not> q_ok ev then lock_req_finish req False (Some (str ''Failed to reach the tag: '' @ q_message ev))
      else (req\<lparr>lk_tag := lk_path req, lk_stage := L_Acquire\<rparr>, [ReqCall (lk_path req) (TagAcquire False)]))"

definition nfcd_client_lock_tag :: "nfcd_client \<Rightarrow> lock_req start" where
  "nfcd_client_lock_tag client =
     (if tag_path client = None then refuse ''No tag in the field''
      else if \<not> tag_is_type2 client then refuse ''Only Type 2 tags can be locked''
      else begin_request
        (\<lparr>lk_stage = L_Proxy, lk_path = tag_path client, lk_tag = None, lk_type2_path = None, lk_type2 = None,
          lk_error_text = None\<rparr>, [ReqCall None (NewTagProxy (tag_path client))]))"

definition lock_step :: "lock_req \<Rightarrow> nfcd_client \<times> req_event \<Rightarrow> lock_step" where
  "lock_step req e =
     (case lk_stage req of
        L_Proxy \<Rightarrow> lock_tag_proxy_ready req (snd e)
      | L_Acquire \<Rightarrow> lock_acquire_ready (fst e) req (snd e)
      | L_Type2 \<Rightarrow> lock_type2_proxy_ready req (snd e)
      | L_Read \<Rightarrow> lock_read_ready req (snd e)
      | L_Write \<Rightarrow> lock_write_ready req (snd e)
      | L_Release \<Rightarrow> lock_release_ready req (snd e)
      | L_Done \<Rightarrow> (req, []))"

end
