(* ===== verification/Service.thy ===== *)
theory Service
  imports Client Write_Lock
begin

text \<open>
  The Luna service (\<open>nfc_service.c\<close>, \<open>luna_service_utils.c\<close>): one definition per method
  and per result callback.  The message bus and pbnjson are a record of what they answer;
  the effects are the replies and subscription posts, and the calls to nfcd made on the way.
\<close>

section \<open>The message bus\<close>

text \<open>
  \<open>ls_schema\<close>: the empty schema parses.  \<open>ls_parse\<close>: \<open>jdom_parse\<close>, \<open>JNull\<close> when it fails.
  \<open>ls_base64\<close>: \<open>g_base64_encode\<close>.
\<close>

record luna =
  ls_schema :: bool
  ls_parse :: "bytes \<Rightarrow> jvalue"
  ls_base64 :: "bytes \<Rightarrow> bytes"

text \<open>
  A message: its payload, whether it subscribes, and the result of \<open>LSSubscriptionProcess\<close>
  (\<open>None\<close> when that fails).
\<close>

record message =
  m_payload :: bytes
  m_is_subscription :: bool
  m_process :: "bool option"

datatype service_out =
    Reply jvalue
  | ReplyText bytes
  | MessageRef
  | MessageUnref
  | Post string jvalue
  | ToTag "bytes option" dbus_call
  | FromClient client_out

definition luna_service_message_reply_custom_error :: "luna \<Rightarrow> bytes \<Rightarrow> service_out list" where
  "luna_service_message_reply_custom_error ls error_text =
     (if ls_schema ls then
        [Reply (jobject_put ''errorText'' (JStr error_text) (jobject_put ''returnValue'' (JBool False) jobject_create))]
      else [])"

definition luna_service_message_reply_error_bad_json :: "luna \<Rightarrow> service_out list" where
  "luna_service_message_reply_error_bad_json ls = luna_service_message_reply_custom_error ls (str ''Malformed json.'')"

definition luna_service_message_reply_error_invalid_params :: "luna \<Rightarrow> service_out list" where
  "luna_service_message_reply_error_invalid_params ls =
     luna_service_message_reply_custom_error ls (str ''Invalid parameters.'')"

definition luna_service_message_reply_error_internal :: "luna \<Rightarrow> service_out list" where
  "luna_service_message_reply_error_internal ls = luna_service_message_reply_custom_error ls (str ''Internal error.'')"

definition luna_service_message_reply_success :: "service_out list" where
  "luna_service_message_reply_success = [ReplyText (str ''{\"returnValue\":true}'')]"

definition luna_service_message_parse_and_validate :: "luna \<Rightarrow> bytes \<Rightarrow> jvalue option" where
  "luna_service_message_parse_and_validate ls data =
     (if \<not> ls_schema ls then None else if ls_parse ls data = JNull then None else Some (ls_parse ls data))"

definition luna_service_message_validate_and_send :: "luna \<Rightarrow> jvalue \<Rightarrow> service_out list" where
  "luna_service_message_validate_and_send ls reply_obj =
     (if \<not> ls_schema ls then luna_service_message_reply_error_internal ls else [Reply reply_obj])"

definition luna_service_check_for_subscription_and_process :: "message \<Rightarrow> bool" where
  "luna_service_check_for_subscription_and_process m =
     (if m_is_subscription m then (case m_process m of None \<Rightarrow> False | Some b \<Rightarrow> b) else False)"

definition luna_service_post_subscription :: "luna \<Rightarrow> string \<Rightarrow> jvalue \<Rightarrow> service_out list" where
  "luna_service_post_subscription ls method_name reply_obj = (if ls_schema ls then [Post method_name reply_obj] else [])"

text \<open>
  A request keeps the message alive until its result callback has answered.  The message a
  method works on is implicit in its effects.
\<close>

definition nfc_request_new :: "service_out list" where
  [simp]: "nfc_request_new = [MessageRef]"

definition nfc_request_free :: "service_out list" where
  [simp]: "nfc_request_free = [MessageUnref]"

section \<open>Reply bodies\<close>

definition build_status :: "nfcd_client \<Rightarrow> jvalue" where
  "build_status c =
     (let obj =
        jobject_put ''daemonVersion'' (JNum (nfcd_client_get_daemon_version c))
         (jobject_put ''techs'' (JNum (i32_of_nat (nfcd_client_get_techs c)))
          (jobject_put ''supportedModes'' (JNum (i32_of_nat (nfcd_client_get_supported_modes c)))
           (jobject_put ''mode'' (JNum (i32_of_nat (nfcd_client_get_mode c)))
            (jobject_put ''present'' (JBool (nfcd_client_is_present c))
             (jobject_put ''powered'' (JBool (nfcd_client_is_powered c))
              (jobject_put ''enabled'' (JBool (nfcd_client_is_enabled c))
               (jobject_put ''available'' (JBool (nfcd_client_is_available c))
                (jobject_put ''returnValue'' (JBool True) jobject_create)))))))) in
      case nfcd_client_get_adapter_path c of None \<Rightarrow> obj | Some p \<Rightarrow> jobject_put ''adapterPath'' (JStr p) obj)"

definition build_tag_info :: "nfcd_client \<Rightarrow> jvalue" where
  "build_tag_info c =
     (let obj = jobject_put ''present'' (JBool (nfcd_client_is_present c))
            (jobject_put ''returnValue'' (JBool True) jobject_create) in
      case nfcd_client_get_tag_json c of None \<Rightarrow> obj | Some tag \<Rightarrow> jobject_put ''tag'' tag obj)"

definition build_hce_event :: "nfcd_client \<Rightarrow> jvalue" where
  "build_hce_event c =
     (let obj = jobject_put ''returnValue'' (JBool True) jobject_create in
      case nfcd_client_get_hce_event c of None \<Rightarrow> obj
      | Some (aid, ok) \<Rightarrow> jobject_put ''ok'' (JBool ok) (jobject_put ''aidHex'' (JStr aid) obj))"

definition state_changed_cb :: "luna \<Rightarrow> nfcd_client \<Rightarrow> service_out list" where
  "state_changed_cb ls c = luna_service_post_subscription ls ''getStatus'' (build_status c)
     @ luna_service_post_subscription ls ''getTagInfo'' (build_tag_info c)"

definition tag_changed_cb :: "luna \<Rightarrow> nfcd_client \<Rightarrow> service_out list" where
  "tag_changed_cb ls c = luna_service_post_subscription ls ''getTagInfo'' (build_tag_info c)"

definition hce_changed_cb :: "luna \<Rightarrow> nfcd_client \<Rightarrow> service_out list" where
  "hce_changed_cb ls c = luna_service_post_subscription ls ''getCardEmulationEvent'' (build_hce_event c)"

section \<open>Result callbacks\<close>

definition result_cb :: "luna \<Rightarrow> string \<Rightarrow> bool \<Rightarrow> bytes option \<Rightarrow> service_out list" where
  "result_cb ls fallback success error_text =
     (if success then luna_service_message_reply_success
      else luna_service_message_reply_custom_error ls (case error_text of None \<Rightarrow> str fallback | Some t \<Rightarrow> t))
     @ nfc_request_free"

definition set_enabled_result_cb :: "luna \<Rightarrow> bool \<Rightarrow> bytes option \<Rightarrow> service_out list" where
  "set_enabled_result_cb ls = result_cb ls ''Failed to set NFC state''"

definition write_tag_result_cb :: "luna \<Rightarrow> bool \<Rightarrow> bytes option \<Rightarrow> service_out list" where
  "write_tag_result_cb ls = result_cb ls ''Failed to write tag''"

definition lock_tag_result_cb :: "luna \<Rightarrow> bool \<Rightarrow> bytes option \<Rightarrow> service_out list" where
  "lock_tag_result_cb ls = result_cb ls ''Failed to lock tag''"

definition clone_tag_result_cb :: "luna \<Rightarrow> bool \<Rightarrow> bytes option \<Rightarrow> service_out list" where
  "clone_tag_result_cb ls = result_cb ls ''Failed to clone tag''"

definition add_card_emulation_result_cb :: "luna \<Rightarrow> bool \<Rightarrow> bytes option \<Rightarrow> service_out list" where
  "add_card_emulation_result_cb ls = result_cb ls ''Failed to add card emulation profile''"

definition remove_card_emulation_result_cb :: "luna \<Rightarrow> bool \<Rightarrow> bytes option \<Rightarrow> service_out list" where
  "remove_card_emulation_result_cb ls = result_cb ls ''Failed to remove card emulation profile''"

definition clear_card_emulation_result_cb :: "luna \<Rightarrow> bool \<Rightarrow> bytes option \<Rightarrow> service_out list" where
  "clear_card_emulation_result_cb ls = result_cb ls ''Failed to clear card emulation profile''"

definition passport_reply :: "luna \<Rightarrow> passport_result \<Rightarrow> jvalue" where
  "passport_reply ls res =
     (let obj = jobject_put ''mrz'' (JStr (mrz_text res)) (jobject_put ''returnValue'' (JBool True) jobject_create);
          with_fields = (case mrz_parsed res of None \<Rightarrow> obj | Some f \<Rightarrow>
            jobject_put ''dateOfExpiry'' (JStr (date_of_expiry f))
             (jobject_put ''sex'' (JStr (sex f))
              (jobject_put ''dateOfBirth'' (JStr (date_of_birth f))
               (jobject_put ''nationality'' (JStr (nationality f))
                (jobject_put ''documentNumber'' (JStr (document_number f))
                 (jobject_put ''givenNames'' (JStr (given_names f))
                  (jobject_put ''surname'' (JStr (surname f))
                   (jobject_put ''issuingState'' (JStr (issuing_state f))
                    (jobject_put ''documentType'' (JStr (document_type f)) obj))))))))) in
      case photo res of None \<Rightarrow> with_fields
      | Some (data, format) \<Rightarrow>
          jobject_put ''photoFormat'' (JStr (str format)) (jobject_put ''photoBase64'' (JStr (ls_base64 ls data)) with_fields))"

definition read_passport_result_cb ::
    "luna \<Rightarrow> bool \<Rightarrow> string option \<Rightarrow> passport_result option \<Rightarrow> service_out list" where
  "read_passport_result_cb ls success error_text res =
     (case (success, res) of
        (True, Some r) \<Rightarrow> luna_service_message_validate_and_send ls (passport_reply ls r)
      | _ \<Rightarrow> luna_service_message_reply_custom_error ls
               (case error_text of None \<Rightarrow> str ''Failed to read the document'' | Some t \<Rightarrow> str t))
     @ nfc_request_free"

section \<open>Parameters\<close>

definition get_string_param :: "jvalue \<Rightarrow> string \<Rightarrow> bytes option" where
  "get_string_param parsed name = (case jget parsed name of Some (JStr s) \<Rightarrow> Some (c_str s) | _ \<Rightarrow> None)"

definition get_bool_param :: "jvalue \<Rightarrow> string \<Rightarrow> bool" where
  "get_bool_param parsed name = (case jget parsed name of Some (JBool b) \<Rightarrow> b | _ \<Rightarrow> False)"

section \<open>Methods\<close>

text \<open>
  What a method leaves behind besides its effects: the request that will answer later, if
  any.  The result callback of the request is run on the replies the client gives at once.
\<close>

datatype started =
    StartedWrite write_req
  | StartedClone write_req
  | StartedLock lock_req
  | StartedEnable
  | StartedPassport nat
  | StartedHce nat

type_synonym 'g method_result = "'g world \<times> service_out list \<times> started option"

definition run_request_cb :: "(bool \<Rightarrow> bytes option \<Rightarrow> service_out list) \<Rightarrow> req_out list \<Rightarrow> service_out list" where
  "run_request_cb cb outs = concat (map (\<lambda>out. case out of ReqReply s e \<Rightarrow> cb s e | ReqCall p call \<Rightarrow> [ToTag p call]) outs)"

definition run_client_cb ::
    "(bool \<Rightarrow> bytes option \<Rightarrow> service_out list) \<Rightarrow> (string \<Rightarrow> service_out list) \<Rightarrow> client_out list \<Rightarrow> service_out list" where
  "run_client_cb cb refused outs = concat (map (\<lambda>out. case out of
     EnabledReply s e \<Rightarrow> cb s e | FromHce (HceReply s e) \<Rightarrow> cb s e | PassportRefused msg \<Rightarrow> refused msg
   | _ \<Rightarrow> [FromClient out]) outs)"

definition service_get_status_cb :: "luna \<Rightarrow> 'g world \<Rightarrow> message \<Rightarrow> 'g method_result" where
  "service_get_status_cb ls w m =
     (w, luna_service_message_validate_and_send ls
        (jobject_put ''subscribed'' (JBool (luna_service_check_for_subscription_and_process m)) (build_status (client w))), None)"

definition service_get_tag_info_cb :: "luna \<Rightarrow> 'g world \<Rightarrow> message \<Rightarrow> 'g method_result" where
  "service_get_tag_info_cb ls w m =
     (w, luna_service_message_validate_and_send ls
        (jobject_put ''subscribed'' (JBool (luna_service_check_for_subscription_and_process m)) (build_tag_info (client w))), None)"

definition service_get_card_emulation_event_cb :: "luna \<Rightarrow> 'g world \<Rightarrow> message \<Rightarrow> 'g method_result" where
  "service_get_card_emulation_event_cb ls w m =
     (w, luna_service_message_validate_and_send ls
        (jobject_put ''subscribed'' (JBool (luna_service_check_for_subscription_and_process m)) (build_hce_event (client w))), None)"

definition service_set_enabled_cb :: "luna \<Rightarrow> 'g world \<Rightarrow> message \<Rightarrow> 'g method_result" where
  "service_set_enabled_cb ls w m =
     (case luna_service_message_parse_and_validate ls (m_payload m) of
        None \<Rightarrow> (w, luna_service_message_reply_error_bad_json ls, None)
      | Some parsed \<Rightarrow>
          (case jget parsed ''enabled'' of
             Some (JBool b) \<Rightarrow>
               (w, nfc_request_new @ run_client_cb (set_enabled_result_cb ls) (\<lambda>_. []) (nfcd_client_set_enabled (client w) b),
                if settings (client w) then Some StartedEnable else None)
           | _ \<Rightarrow> (w, luna_service_message_reply_error_invalid_params ls, None)))"

definition write_tag_message :: "jvalue \<Rightarrow> bytes option" where
  "write_tag_message parsed =
     (let p = get_string_param parsed; type = p ''type'' in
      if type = Some (str ''uri'') \<and> p ''uri'' \<noteq> None then ndef_build_uri_message (p ''uri'')
      else if type = Some (str ''text'') \<and> p ''text'' \<noteq> None then ndef_build_text_message (p ''text'') (p ''language'')
      else if type = Some (str ''vcard'') \<and> p ''name'' \<noteq> None
        then ndef_build_vcard_message (p ''name'') (p ''phone'') (p ''email'')
      else if type = Some (str ''wifi'') \<and> p ''ssid'' \<noteq> None
        then ndef_build_wifi_message (p ''ssid'') (p ''password'') (p ''auth'') (p ''encryption'')
      else if type = Some (str ''bluetooth'') \<and> p ''macAddress'' \<noteq> None
        then ndef_build_bluetooth_message (p ''macAddress'') (p ''deviceName'')
      else None)"

definition WRITE_TAG_USAGE :: bytes where
  "WRITE_TAG_USAGE = str (''Expected type \"uri\" with a uri, type \"text\" with a text, ''
     @ ''type \"vcard\" with a name (phone/email optional), ''
     @ ''type \"wifi\" with a ssid (password/auth/encryption optional), ''
     @ ''or type \"bluetooth\" with a macAddress (deviceName optional)'')"

definition service_write_tag_cb :: "luna \<Rightarrow> 'g world \<Rightarrow> message \<Rightarrow> 'g method_result" where
  "service_write_tag_cb ls w m =
     (case luna_service_message_parse_and_validate ls (m_payload m) of
        None \<Rightarrow> (w, luna_service_message_reply_error_bad_json ls, None)
      | Some parsed \<Rightarrow>
          (case write_tag_message parsed of
             None \<Rightarrow> (w, luna_service_message_reply_custom_error ls WRITE_TAG_USAGE, None)
           | Some msg \<Rightarrow>
               (let (req, outs) = nfcd_client_write_tag (client w) (Some msg) in
                (w, nfc_request_new @ run_request_cb (write_tag_result_cb ls) outs, map_option StartedWrite req))))"

definition service_lock_tag_cb :: "luna \<Rightarrow> 'g world \<Rightarrow> message \<Rightarrow> 'g method_result" where
  "service_lock_tag_cb ls w m =
     (let (req, outs) = nfcd_client_lock_tag (client w) in
      (w, nfc_request_new @ run_request_cb (lock_tag_result_cb ls) outs, map_option StartedLock req))"

definition service_clone_tag_cb :: "luna \<Rightarrow> 'g world \<Rightarrow> message \<Rightarrow> 'g method_result" where
  "service_clone_tag_cb ls w m =
     (case luna_service_message_parse_and_validate ls (m_payload m) of
        None \<Rightarrow> (w, luna_service_message_reply_error_bad_json ls, None)
      | Some parsed \<Rightarrow>
          (case ndef_hex_to_bytes (get_string_param parsed ''rawDataHex'') of
             None \<Rightarrow> (w, luna_service_message_reply_custom_error ls
               (str ''Expected rawDataHex, the raw byte string read from the source tag''), None)
           | Some raw \<Rightarrow>
               (let (req, outs) = nfcd_client_write_raw (client w) (Some raw) in
                (w, nfc_request_new @ run_request_cb (clone_tag_result_cb ls) outs, map_option StartedClone req))))"

text \<open>\<open>bus\<close> and \<open>exported\<close>: whether the object of a new profile could be exported.\<close>

definition service_add_card_emulation_cb :: "luna \<Rightarrow> bool \<Rightarrow> bool \<Rightarrow> 'g world \<Rightarrow> message \<Rightarrow> 'g method_result" where
  "service_add_card_emulation_cb ls bus exported w m =
     (case luna_service_message_parse_and_validate ls (m_payload m) of
        None \<Rightarrow> (w, luna_service_message_reply_error_bad_json ls, None)
      | Some parsed \<Rightarrow>
          (case ndef_hex_to_bytes (get_string_param parsed ''aidHex'') of
             None \<Rightarrow> (w, luna_service_message_reply_custom_error ls
               (str ''Expected aidHex, the Application ID to register''), None)
           | Some aid \<Rightarrow>
               (let (w', outs) = hce_world_event w (H_Add bus exported (Some aid)
                      (ndef_hex_to_bytes (get_string_param parsed ''payloadHex'')) (get_bool_param parsed ''implicit''));
                    pending = drop (length (hce_pending w)) (hce_pending w') in
                (w', nfc_request_new @ run_client_cb (add_card_emulation_result_cb ls) (\<lambda>_. []) outs,
                 if pending = [] then None else Some (StartedHce (hd pending))))))"

definition service_remove_card_emulation_cb :: "luna \<Rightarrow> 'g world \<Rightarrow> message \<Rightarrow> 'g method_result" where
  "service_remove_card_emulation_cb ls w m =
     (case luna_service_message_parse_and_validate ls (m_payload m) of
        None \<Rightarrow> (w, luna_service_message_reply_error_bad_json ls, None)
      | Some parsed \<Rightarrow>
          (case ndef_hex_to_bytes (get_string_param parsed ''aidHex'') of
             None \<Rightarrow> (w, luna_service_message_reply_custom_error ls
               (str ''Expected aidHex, the Application ID to unregister''), None)
           | Some aid \<Rightarrow>
               (let (w', outs) = hce_world_event w (H_Remove (Some aid)) in
                (w', nfc_request_new @ run_client_cb (remove_card_emulation_result_cb ls) (\<lambda>_. []) outs, None))))"

definition service_clear_card_emulation_cb :: "luna \<Rightarrow> 'g world \<Rightarrow> message \<Rightarrow> 'g method_result" where
  "service_clear_card_emulation_cb ls w m =
     (let (w', outs) = hce_world_event w H_Clear in
      (w', nfc_request_new @ run_client_cb (clear_card_emulation_result_cb ls) (\<lambda>_. []) outs, None))"

definition passport_started :: "luna \<Rightarrow> 'g world \<Rightarrow> 'g world_step \<Rightarrow> 'g method_result" where
  "passport_started ls w s =
     (fst s, nfc_request_new @ run_client_cb (\<lambda>_ _. []) (\<lambda>msg. read_passport_result_cb ls False (Some msg) None) (snd s),
      if passport_reading (client w) = None then map_option StartedPassport (passport_reading (client (fst s))) else None)"

definition service_read_passport_cb :: "luna \<Rightarrow> openssl \<Rightarrow> 'g world \<Rightarrow> message \<Rightarrow> 'g method_result" where
  "service_read_passport_cb ls ossl w m =
     (case luna_service_message_parse_and_validate ls (m_payload m) of
        None \<Rightarrow> (w, luna_service_message_reply_error_bad_json ls, None)
      | Some parsed \<Rightarrow>
          (let doc = get_string_param parsed ''documentNumber''; dob = get_string_param parsed ''dateOfBirth'';
               expiry = get_string_param parsed ''dateOfExpiry'' in
           if doc = None \<or> dob = None \<or> expiry = None then
             (w, luna_service_message_reply_custom_error ls
                (str (''Expected documentNumber, dateOfBirth and dateOfExpiry (YYMMDD), ''
                  @ ''as printed in the document'' @ [CHR 0x27] @ ''s MRZ'')), None)
           else passport_started ls w
                  (nfcd_client_read_passport ossl w doc dob expiry (get_bool_param parsed ''readPhoto''))))"

definition service_read_passport_pace_cb :: "luna \<Rightarrow> 'g world \<Rightarrow> message \<Rightarrow> 'g method_result" where
  "service_read_passport_pace_cb ls w m =
     (case luna_service_message_parse_and_validate ls (m_payload m) of
        None \<Rightarrow> (w, luna_service_message_reply_error_bad_json ls, None)
      | Some parsed \<Rightarrow>
          (let can = get_string_param parsed ''can'' in
           if can = None then
             (w, luna_service_message_reply_custom_error ls
                (str ''Expected can, the Card Access Number printed on the document''), None)
           else passport_started ls w (nfcd_client_read_passport_pace w can (get_bool_param parsed ''readPhoto''))))"

section \<open>The service\<close>

text \<open>The method table; the last two components say whether the object of a new profile can be exported.\<close>

datatype luna_method =
    GetStatus | SetEnabled | GetTagInfo | WriteTag | LockTag | CloneTag | ReadPassport | ReadPassportPACE
  | AddCardEmulationProfile | RemoveCardEmulationProfile | ClearCardEmulation | GetCardEmulationEvent

fun nfc_service_methods ::
    "luna \<Rightarrow> openssl \<Rightarrow> bool \<Rightarrow> bool \<Rightarrow> luna_method \<Rightarrow> 'g world \<Rightarrow> message \<Rightarrow> 'g method_result" where
  "nfc_service_methods ls ossl bus exported GetStatus = service_get_status_cb ls"
| "nfc_service_methods ls ossl bus exported SetEnabled = service_set_enabled_cb ls"
| "nfc_service_methods ls ossl bus exported GetTagInfo = service_get_tag_info_cb ls"
| "nfc_service_methods ls ossl bus exported WriteTag = service_write_tag_cb ls"
| "nfc_service_methods ls ossl bus exported LockTag = service_lock_tag_cb ls"
| "nfc_service_methods ls ossl bus exported CloneTag = service_clone_tag_cb ls"
| "nfc_service_methods ls ossl bus exported ReadPassport = service_read_passport_cb ls ossl"
| "nfc_service_methods ls ossl bus exported ReadPassportPACE = service_read_passport_pace_cb ls"
| "nfc_service_methods ls ossl bus exported AddCardEmulationProfile = service_add_card_emulation_cb ls bus exported"
| "nfc_service_methods ls ossl bus exported RemoveCardEmulationProfile = service_remove_card_emulation_cb ls"
| "nfc_service_methods ls ossl bus exported ClearCardEmulation = service_clear_card_emulation_cb ls"
| "nfc_service_methods ls ossl bus exported GetCardEmulationEvent = service_get_card_emulation_event_cb ls"

text \<open>
  Starting the service: the four calls to the bus in order; the first that fails ends it,
  and what was registered is unregistered.
\<close>

datatype ls_call = LSRegister | LSGmainAttach | LSRegisterCategory | LSCategorySetData | LSUnregister | ClientCreate | ClientFree

definition nfc_service_create :: "(ls_call \<Rightarrow> bool) \<Rightarrow> bool \<times> ls_call list" where
  "nfc_service_create ok =
     (if \<not> ok LSRegister then (False, [LSRegister])
      else if \<not> ok LSGmainAttach then (False, [LSRegister, LSGmainAttach, LSUnregister])
      else if \<not> ok LSRegisterCategory then (False, [LSRegister, LSGmainAttach, LSRegisterCategory, LSUnregister])
      else if \<not> ok LSCategorySetData
        then (False, [LSRegister, LSGmainAttach, LSRegisterCategory, LSCategorySetData, LSUnregister])
      else (True, [LSRegister, LSGmainAttach, LSRegisterCategory, LSCategorySetData, ClientCreate]))"

definition nfc_service_free :: "bool \<Rightarrow> ls_call list" where
  "nfc_service_free service = (if \<not> service then [] else [ClientFree, LSUnregister])"

end
