(* ===== verification/Daemon.thy ===== *)
theory Daemon
  imports Service
begin

text \<open>
  The adapter as a whole: the service of \<open>nfc_service.c\<close> on top of the client of
  \<open>nfcd_client.c\<close>.  The state is the client's world and the requests (\<open>struct nfc_request\<close>)
  that have not been answered yet, each under the number of the message it is for; an event is
  a call on the Luna bus, a signal of nfcd, or the completion of a call to nfcd.
\<close>

section \<open>State and events\<close>

record 'g daemon_state =
  dm_world :: "'g world"
  dm_requests :: "nat \<rightharpoonup> started"
  dm_calls :: nat

definition daemon_init :: "'g daemon_state" where
  "daemon_init = \<lparr>dm_world = world_init, dm_requests = Map.empty, dm_calls = 0\<rparr>"

text \<open>Completions name the request their \<open>user_data\<close> belongs to.\<close>

datatype daemon_event =
    D_Call luna_method message bool bool
  | D_Signal client_event
  | D_Result nat req_event
  | D_Enabled nat "bytes option"
  | D_Passport nat passport_event
  | D_Registered nat "bytes option"

text \<open>What is done for a message, and what is done on the adapter's own account.\<close>

datatype daemon_out =
    For nat service_out
  | Own service_out

type_synonym 'g daemon_step = "'g daemon_state \<times> daemon_out list"

text \<open>Events of the client that are not the calls and completions of a request.\<close>

fun unsolicited :: "client_event \<Rightarrow> bool" where
  "unsolicited (E_Passport a ev) = False"
| "unsolicited (E_ReadPassport doc dob expiry ph) = False"
| "unsolicited (E_ReadPassportPace can ph) = False"
| "unsolicited (E_SetEnabled b) = False"
| "unsolicited (E_SetEnabledReady err) = False"
| "unsolicited (E_HceAdd bus exported aid data impl) = False"
| "unsolicited (E_HceRemove aid) = False"
| "unsolicited E_HceClear = False"
| "unsolicited (E_HceRegistered a err) = False"
| "unsolicited e = True"

section \<open>Callbacks\<close>

text \<open>The callbacks the service registers with the client, on the client's notifications.\<close>

definition notified :: "luna \<Rightarrow> client_out \<Rightarrow> service_out list" where
  "notified ls out =
     (case out of
        NotifyState c \<Rightarrow> state_changed_cb ls c
      | NotifyTag c \<Rightarrow> tag_changed_cb ls c
      | FromRead a (OutNotifyTag c) \<Rightarrow> tag_changed_cb ls c
      | FromHce (HceNotify c) \<Rightarrow> hce_changed_cb ls c
      | _ \<Rightarrow> [])"

text \<open>
  The effects of the client on behalf of message \<open>i\<close>: \<open>reply\<close> is the result callback, on the
  outcomes the client reports to it.
\<close>

definition client_effects :: "luna \<Rightarrow> (client_out \<Rightarrow> daemon_out list) \<Rightarrow> client_out list \<Rightarrow> daemon_out list" where
  "client_effects ls reply outs =
     concat (map (\<lambda>out. if reply out = [] then Own (FromClient out) # map Own (notified ls out) else reply out) outs)"

text \<open>A request is over when its callback has run.\<close>

definition settle :: "nat \<Rightarrow> bool \<Rightarrow> started \<Rightarrow> (nat \<rightharpoonup> started) \<Rightarrow> (nat \<rightharpoonup> started)" where
  "settle i replied st requests = requests(i := if replied then None else Some st)"

definition replied :: "req_out list \<Rightarrow> bool" where
  "replied outs \<longleftrightarrow> (\<exists>out \<in> set outs. case out of ReqReply s e \<Rightarrow> True | _ \<Rightarrow> False)"

section \<open>Steps\<close>

definition daemon_call ::
    "luna \<Rightarrow> openssl \<Rightarrow> 'g daemon_state \<Rightarrow> luna_method \<Rightarrow> message \<Rightarrow> bool \<Rightarrow> bool \<Rightarrow> 'g daemon_step" where
  "daemon_call ls ossl d call m bus exported =
     (let (w, outs, st) = nfc_service_methods ls ossl bus exported call (dm_world d) m; i = dm_calls d in
      (d\<lparr>dm_world := w, dm_requests := (dm_requests d)(i := st), dm_calls := i + 1\<rparr>, map (For i) outs))"

definition daemon_result :: "luna \<Rightarrow> 'g daemon_state \<Rightarrow> nat \<Rightarrow> req_event \<Rightarrow> 'g daemon_step" where
  "daemon_result ls d i ev =
     (let c = client (dm_world d) in
      case dm_requests d i of
        Some (StartedWrite req) \<Rightarrow>
          (let (req', outs) = write_step req (c, ev) in
           (d\<lparr>dm_requests := settle i (replied outs) (StartedWrite req') (dm_requests d)\<rparr>,
            map (For i) (run_request_cb (write_tag_result_cb ls) outs)))
      | Some (StartedClone req) \<Rightarrow>
          (let (req', outs) = write_step req (c, ev) in
           (d\<lparr>dm_requests := settle i (replied outs) (StartedClone req') (dm_requests d)\<rparr>,
            map (For i) (run_request_cb (clone_tag_result_cb ls) outs)))
      | Some (StartedLock req) \<Rightarrow>
          (let (req', outs) = lock_step req (c, ev) in
           (d\<lparr>dm_requests := settle i (replied outs) (StartedLock req') (dm_requests d)\<rparr>,
            map (For i) (run_request_cb (lock_tag_result_cb ls) outs)))
      | _ \<Rightarrow> (d, []))"

definition daemon_enabled :: "luna \<Rightarrow> 'g daemon_state \<Rightarrow> nat \<Rightarrow> bytes option \<Rightarrow> 'g daemon_step" where
  "daemon_enabled ls d i err =
     (case dm_requests d i of
        Some StartedEnable \<Rightarrow>
          (d\<lparr>dm_requests := (dm_requests d)(i := None)\<rparr>,
           client_effects ls (\<lambda>out. case out of EnabledReply s e \<Rightarrow> map (For i) (set_enabled_result_cb ls s e) | _ \<Rightarrow> [])
             (set_enabled_ready err))
      | _ \<Rightarrow> (d, []))"

definition passport_answer :: "luna \<Rightarrow> nat \<Rightarrow> client_out \<Rightarrow> daemon_out list" where
  "passport_answer ls i out =
     (case out of FromPassport a (OutReply s e r) \<Rightarrow> map (For i) (read_passport_result_cb ls s e r) | _ \<Rightarrow> [])"

definition daemon_passport ::
    "glib_utf \<Rightarrow> nat \<Rightarrow> ('g, 'p) crypto_env \<Rightarrow> luna \<Rightarrow> 'g daemon_state \<Rightarrow> nat \<Rightarrow> passport_event \<Rightarrow> 'g daemon_step" where
  "daemon_passport g width env ls d i ev =
     (case dm_requests d i of
        Some (StartedPassport a) \<Rightarrow>
          (let (w, outs) = client_step g width env (dm_world d) (E_Passport a ev) in
           (d\<lparr>dm_world := w,
              dm_requests := settle i (\<exists>out \<in> set outs. passport_answer ls i out \<noteq> []) (StartedPassport a) (dm_requests d)\<rparr>,
            client_effects ls (passport_answer ls i) outs))
      | _ \<Rightarrow> (d, []))"

definition registered_answer :: "luna \<Rightarrow> nat \<Rightarrow> client_out \<Rightarrow> daemon_out list" where
  "registered_answer ls i out =
     (case out of FromHce (HceReply s e) \<Rightarrow> map (For i) (add_card_emulation_result_cb ls s e) | _ \<Rightarrow> [])"

definition daemon_registered ::
    "glib_utf \<Rightarrow> nat \<Rightarrow> ('g, 'p) crypto_env \<Rightarrow> luna \<Rightarrow> 'g daemon_state \<Rightarrow> nat \<Rightarrow> bytes option \<Rightarrow> 'g daemon_step" where
  "daemon_registered g width env ls d i err =
     (case dm_requests d i of
        Some (StartedHce a) \<Rightarrow>
          (let (w, outs) = client_step g width env (dm_world d) (E_HceRegistered a err) in
           (d\<lparr>dm_world := w,
              dm_requests := settle i (\<exists>out \<in> set outs. registered_answer ls i out \<noteq> []) (StartedHce a) (dm_requests d)\<rparr>,
            client_effects ls (registered_answer ls i) outs))
      | _ \<Rightarrow> (d, []))"

definition daemon_signal ::
    "glib_utf \<Rightarrow> nat \<Rightarrow> ('g, 'p) crypto_env \<Rightarrow> luna \<Rightarrow> 'g daemon_state \<Rightarrow> client_event \<Rightarrow> 'g daemon_step" where
  "daemon_signal g width env ls d e =
     (if \<not> unsolicited e then (d, [])
      else (let (w, outs) = client_step g width env (dm_world d) e in
            (d\<lparr>dm_world := w\<rparr>, client_effects ls (\<lambda>_. []) outs)))"

fun daemon_step ::
    "glib_utf \<Rightarrow> nat \<Rightarrow> ('g, 'p) crypto_env \<Rightarrow> luna \<Rightarrow> 'g daemon_state \<Rightarrow> daemon_event \<Rightarrow> 'g daemon_step" where
  "daemon_step g width env ls d (D_Call call m bus exported) = daemon_call ls (e_ossl env) d call m bus exported"
| "daemon_step g width env ls d (D_Signal e) = daemon_signal g width env ls d e"
| "daemon_step g width env ls d (D_Result i ev) = daemon_result ls d i ev"
| "daemon_step g width env ls d (D_Enabled i err) = daemon_enabled ls d i err"
| "daemon_step g width env ls d (D_Passport i ev) = daemon_passport g width env ls d i ev"
| "daemon_step g width env ls d (D_Registered i err) = daemon_registered g width env ls d i err"

end
