(* ===== verification/Write_Lock_Facts.thy ===== *)
theory Write_Lock_Facts
  imports Write_Lock
begin

text \<open>
  Writing and locking answer their caller exactly once, give the tag back exactly if they got
  it, report success only if nfcd confirmed every byte, and touch only the tag that was in the
  field as long as it stays there.
\<close>

section \<open>Replies, release and termination\<close>

definition is_req_reply :: "req_out \<Rightarrow> bool" where
  "is_req_reply out \<longleftrightarrow> (case out of ReqReply _ _ \<Rightarrow> True | _ \<Rightarrow> False)"

text \<open>The Type 2 proxy is asked for exactly when the tag has been acquired.\<close>

definition lock_weight :: "req_out \<Rightarrow> int" where
  "lock_weight out = (case out of ReqCall _ (NewType2Proxy _) \<Rightarrow> 1 | ReqCall _ TagRelease \<Rightarrow> -1 | _ \<Rightarrow> 0)"

definition write_fuel :: "write_req \<Rightarrow> nat" where
  "write_fuel req = (case wr_stage req of W_Proxy \<Rightarrow> 4 | W_Acquire \<Rightarrow> 3 | W_Type2 \<Rightarrow> 2 | W_Write \<Rightarrow> 1 | _ \<Rightarrow> 0)"

definition lock_fuel :: "lock_req \<Rightarrow> nat" where
  "lock_fuel req = (case lk_stage req of L_Proxy \<Rightarrow> 5 | L_Acquire \<Rightarrow> 4 | L_Type2 \<Rightarrow> 3 | L_Read \<Rightarrow> 2 | L_Write \<Rightarrow> 1 | _ \<Rightarrow> 0)"

lemmas write_defs = write_step_def write_tag_proxy_ready_def write_acquire_ready_def write_type2_proxy_ready_def
  write_data_ready_def write_release_ready_def write_release_def write_req_finish_def

lemmas lock_defs = lock_step_def lock_tag_proxy_ready_def lock_acquire_ready_def lock_type2_proxy_ready_def
  lock_read_ready_def lock_write_ready_def lock_release_ready_def lock_release_def lock_req_finish_def

interpretation writing: terminating_machine write_step "\<lambda>req. wr_stage req \<noteq> W_Done" is_req_reply "\<lambda>_. True" write_fuel
proof
  fix s e
  show "write_fuel (fst (write_step s e)) < write_fuel s"
    if "wr_stage s \<noteq> W_Done" "wr_stage (fst (write_step s e)) \<noteq> W_Done"
    using that by (cases "wr_stage s") (auto simp: write_defs write_fuel_def split: if_splits)
  show "filter is_req_reply (snd (write_step s e)) = []"
    if "wr_stage s \<noteq> W_Done" "wr_stage (fst (write_step s e)) \<noteq> W_Done"
    using that by (cases "wr_stage s") (auto simp: write_defs is_req_reply_def split: if_splits)
  show "length (filter is_req_reply (snd (write_step s e))) = 1"
    if "wr_stage s \<noteq> W_Done" "\<not> wr_stage (fst (write_step s e)) \<noteq> W_Done"
    using that by (cases "wr_stage s") (auto simp: write_defs is_req_reply_def split: if_splits)
qed (simp add: write_defs)

interpretation locking: terminating_machine lock_step "\<lambda>req. lk_stage req \<noteq> L_Done" is_req_reply "\<lambda>_. True" lock_fuel
proof
  fix s e
  show "lock_fuel (fst (lock_step s e)) < lock_fuel s"
    if "lk_stage s \<noteq> L_Done" "lk_stage (fst (lock_step s e)) \<noteq> L_Done"
    using that by (cases "lk_stage s") (auto simp: lock_defs lock_fuel_def split: if_splits)
  show "filter is_req_reply (snd (lock_step s e)) = []"
    if "lk_stage s \<noteq> L_Done" "lk_stage (fst (lock_step s e)) \<noteq> L_Done"
    using that by (cases "lk_stage s") (auto simp: lock_defs is_req_reply_def split: if_splits)
  show "length (filter is_req_reply (snd (lock_step s e))) = 1"
    if "lk_stage s \<noteq> L_Done" "\<not> lk_stage (fst (lock_step s e)) \<noteq> L_Done"
    using that by (cases "lk_stage s") (auto simp: lock_defs is_req_reply_def split: if_splits)
qed (simp add: lock_defs)

interpretation write_lease: balanced_machine write_step
  "\<lambda>req. if wr_stage req \<in> {W_Type2, W_Write} then 1 else 0" lock_weight
proof
  show "(if wr_stage (fst (write_step s e)) \<in> {W_Type2, W_Write} then 1 else 0) =
      (if wr_stage s \<in> {W_Type2, W_Write} then 1 else 0) + sum_list (map lock_weight (snd (write_step s e)))" for s e
    by (cases "wr_stage s") (auto simp: write_defs lock_weight_def)
qed

interpretation lock_lease: balanced_machine lock_step
  "\<lambda>req. if lk_stage req \<in> {L_Type2, L_Read, L_Write} then 1 else 0" lock_weight
proof
  show "(if lk_stage (fst (lock_step s e)) \<in> {L_Type2, L_Read, L_Write} then 1 else 0) =
      (if lk_stage s \<in> {L_Type2, L_Read, L_Write} then 1 else 0) + sum_list (map lock_weight (snd (lock_step s e)))" for s e
    by (cases "lk_stage s") (auto simp: lock_defs lock_weight_def)
qed

definition release_calls :: "req_out list \<Rightarrow> nat" where
  "release_calls outs = length (filter (\<lambda>out. case out of ReqCall _ TagRelease \<Rightarrow> True | _ \<Rightarrow> False) outs)"

definition type2_proxies :: "req_out list \<Rightarrow> nat" where
  "type2_proxies outs = length (filter (\<lambda>out. case out of ReqCall _ (NewType2Proxy _) \<Rightarrow> True | _ \<Rightarrow> False) outs)"

lemma lock_weight_sum: "sum_list (map lock_weight outs) = int (type2_proxies outs) - int (release_calls outs)"
  by (induction outs)
    (auto simp: lock_weight_def type2_proxies_def release_calls_def split: req_out.split dbus_call.split)

lemma started_write:
  "nfcd_client_write_tag c m = (Some req, outs) \<Longrightarrow> \<exists>data. (req, outs) = start_type2_write c data"
  "nfcd_client_write_raw c m = (Some req, outs) \<Longrightarrow> \<exists>data. (req, outs) = start_type2_write c data"
  by (auto simp: nfcd_client_write_tag_def nfcd_client_write_raw_def refuse_def begin_request_def
      split: if_splits option.splits)


text \<open>A Type 2 tag is in the field and every call succeeds.\<close>

definition writable_client :: nfcd_client where
  "writable_client = demo_client\<lparr>tag_is_type2 := True\<rparr>"

definition all_fine :: req_event where
  "all_fine = \<lparr>q_ok = True, q_message = [], q_written = 4, q_data = [0x10, 0x20, 0, 0]\<rparr>"

lemma tag_of_writable [simp]:
  "tag_path writable_client = Some (str ''/nfc0/tag0'')" "tag_is_type2 writable_client"
  by (simp_all add: writable_client_def demo_client_def)


text \<open>
  The same for a lock request, after at most six results.
\<close>

theorem lock_replies_once:
  assumes "nfcd_client_lock_tag c = (Some req, outs0)" and "length es \<ge> 6"
    and "(req', outs) = run lock_step req es"
  shows "lk_stage req' = L_Done \<and> length (filter is_req_reply outs) = 1
    \<and> release_calls outs = type2_proxies outs"
proof -
  have start: "lk_stage req = L_Proxy"
    using assms(1) by (auto simp: nfcd_client_lock_tag_def refuse_def begin_request_def split: if_splits)
  then have fuel: "lock_fuel req < length es" using assms(2) by (simp add: lock_fuel_def)
  have run: "fst (run lock_step req es) = req'" "snd (run lock_step req es) = outs"
    using assms(3) by (metis fst_conv snd_conv)+
  have fin: "lk_stage req' = L_Done" using locking.run_terminates [OF fuel] run by simp
  moreover have "length (filter is_req_reply outs) = 1"
    using locking.exactly_one_reply [OF _ fuel] start run by simp
  ultimately show ?thesis
    using lock_lease.level_run [of req es] start run by (simp add: lock_weight_sum)
qed

theorem lock_replies_once_witness:
  "length (filter is_req_reply (snd (run lock_step (the (fst (nfcd_client_lock_tag writable_client)))
     (replicate 6 (writable_client, all_fine))))) = 1"
  using lock_replies_once [of writable_client "the (fst (nfcd_client_lock_tag writable_client))"
      "snd (nfcd_client_lock_tag writable_client)" "replicate 6 (writable_client, all_fine)", OF _ _ prod.collapse]
  by (simp add: nfcd_client_lock_tag_def begin_request_def)

section \<open>Success and error texts\<close>

text \<open>The reply of a write: the first call that failed decides.\<close>

definition write_verdict :: "bytes \<Rightarrow> req_event list \<Rightarrow> bool \<times> bytes option" where
  "write_verdict data es =
     (if \<not> q_ok (es ! 0) then (False, Some (str ''Failed to reach the tag: '' @ q_message (es ! 0)))
      else if \<not> q_ok (es ! 1) then (False, Some (str ''Failed to acquire the tag: '' @ q_message (es ! 1)))
      else if \<not> q_ok (es ! 2) then (False, Some (str ''Failed to reach the tag: '' @ q_message (es ! 2)))
      else if \<not> q_ok (es ! 3) then (False, Some (str ''Failed to write the tag: '' @ q_message (es ! 3)))
      else if q_written (es ! 3) \<noteq> length data then
        (False, Some (str ''Only '' @ dec_text (q_written (es ! 3)) @ str '' of '' @ dec_text (length data)
           @ str '' bytes reached the tag''))
      else (True, None))"

definition lock_verdict :: "req_event list \<Rightarrow> bool \<times> bytes option" where
  "lock_verdict es =
     (if \<not> q_ok (es ! 0) then (False, Some (str ''Failed to reach the tag: '' @ q_message (es ! 0)))
      else if \<not> q_ok (es ! 1) then (False, Some (str ''Failed to acquire the tag: '' @ q_message (es ! 1)))
      else if \<not> q_ok (es ! 2) then (False, Some (str ''Failed to reach the tag: '' @ q_message (es ! 2)))
      else if \<not> q_ok (es ! 3) then (False, Some (str ''Failed to read the lock block: '' @ q_message (es ! 3)))
      else if length (q_data (es ! 3)) \<noteq> 4 then
        (False, Some (str ''Unexpected lock block size: '' @ dec_text (length (q_data (es ! 3))) @ str '' bytes''))
      else if \<not> q_ok (es ! 4) then (False, Some (str ''Failed to write the lock bytes: '' @ q_message (es ! 4)))
      else if q_written (es ! 4) \<noteq> 4 then
        (False, Some (str ''Short write of the lock block: '' @ dec_text (q_written (es ! 4)) @ str '' of 4 bytes''))
      else (True, None))"

lemma list_of_five: "length xs = 5 \<Longrightarrow> \<exists>a b c d e. xs = [a, b, c, d, e]"
  by (auto simp: length_Suc_conv numeral_eq_Suc)

lemma list_of_six: "length xs = 6 \<Longrightarrow> \<exists>a b c d e f. xs = [a, b, c, d, e, f]"
  by (auto simp: length_Suc_conv numeral_eq_Suc)

text \<open>
  C25.  What a write of the bytes \<open>data\<close> reports, for all results of its calls: success exactly
  if the tag was reached and acquired, its Type 2 interface reached, and nfcd confirmed the
  write of every byte; otherwise the first failure, with its text.
\<close>

theorem write_reports:
  assumes "length es = 5"
  shows "filter is_req_reply (snd (run write_step (fst (start_type2_write c data)) es)) =
    [case write_verdict data (map snd es) of (success, error_text) \<Rightarrow> ReqReply success error_text]"
proof -
  from list_of_five [OF assms] obtain a b d e f where es: "es = [a, b, d, e, f]" by blast
  show ?thesis
    by (simp add: es write_defs start_type2_write_def write_verdict_def is_req_reply_def Let_def)
qed

theorem write_reports_witness:
  "filter is_req_reply (snd (run write_step (fst (start_type2_write writable_client [1, 2, 3, 4]))
      (replicate 5 (writable_client, all_fine)))) = [ReqReply True None]"
  using write_reports [of "replicate 5 (writable_client, all_fine)" writable_client "[1, 2, 3, 4]"]
  by (simp add: write_verdict_def all_fine_def numeral_eq_Suc)

text \<open>
  What locking a tag reports, for all results of its calls.
\<close>

theorem lock_reports:
  assumes "length es = 6" and "nfcd_client_lock_tag c = (Some req, outs)"
  shows "filter is_req_reply (snd (run lock_step req es)) =
    [case lock_verdict (map snd es) of (success, error_text) \<Rightarrow> ReqReply success error_text]"
proof -
  from list_of_six [OF assms(1)] obtain a b d e f g where es: "es = [a, b, d, e, f, g]" by blast
  have req: "lk_stage req = L_Proxy" "lk_error_text req = None"
    using assms(2) by (auto simp: nfcd_client_lock_tag_def refuse_def begin_request_def split: if_splits)
  show ?thesis
    by (simp add: es req lock_defs lock_verdict_def is_req_reply_def Let_def)
qed

theorem lock_reports_witness:
  "filter is_req_reply (snd (run lock_step (the (fst (nfcd_client_lock_tag writable_client)))
     (replicate 6 (writable_client, all_fine)))) = [ReqReply True None]"
  using lock_reports [of "replicate 6 (writable_client, all_fine)" writable_client
      "the (fst (nfcd_client_lock_tag writable_client))" "snd (nfcd_client_lock_tag writable_client)"]
  by (simp add: lock_verdict_def all_fine_def numeral_eq_Suc nfcd_client_lock_tag_def begin_request_def)

section \<open>Which tag is touched\<close>

text \<open>A call that goes to a tag goes to \<open>p\<close>; a new proxy is one for \<open>p\<close>.\<close>

definition to_tag :: "bytes \<Rightarrow> req_out \<Rightarrow> bool" where
  "to_tag p out \<longleftrightarrow> (case out of
     ReqCall None (NewType2Proxy q) \<Rightarrow> q = Some p
   | ReqCall q call \<Rightarrow> q = Some p
   | ReqReply _ _ \<Rightarrow> True)"

definition write_bound :: "bytes \<Rightarrow> bytes \<Rightarrow> write_req \<Rightarrow> bool" where
  "write_bound p data req \<longleftrightarrow> tlv req = data \<and> wr_path req = Some p
     \<and> (wr_stage req \<notin> {W_Proxy, W_Done} \<longrightarrow> wr_tag req = Some p)
     \<and> (wr_stage req \<in> {W_Type2, W_Write} \<longrightarrow> wr_type2_path req = Some p)"

definition lock_bound :: "bytes \<Rightarrow> lock_req \<Rightarrow> bool" where
  "lock_bound p req \<longleftrightarrow> lk_path req = Some p
     \<and> (lk_stage req \<notin> {L_Proxy, L_Done} \<longrightarrow> lk_tag req = Some p)
     \<and> (lk_stage req \<in> {L_Type2, L_Read, L_Write} \<longrightarrow> lk_type2_path req = Some p)
     \<and> (lk_stage req \<in> {L_Read, L_Write} \<longrightarrow> lk_type2 req = Some p)"

text \<open>The data that may reach the tag: all of \<open>data\<close> from block 0 on, or the lock block.\<close>

definition writes_only :: "bytes \<Rightarrow> req_out \<Rightarrow> bool" where
  "writes_only data out \<longleftrightarrow> (case out of
     ReqCall _ (Type2WriteData n d) \<Rightarrow> n = 0 \<and> d = data | ReqCall _ (Type2Write _ _ _) \<Rightarrow> False | _ \<Rightarrow> True)"

definition locks_only :: "req_out \<Rightarrow> bool" where
  "locks_only out \<longleftrightarrow> (case out of
     ReqCall _ (Type2Write s b d) \<Rightarrow> s = 0 \<and> b = 2 \<and> (\<exists>x y. d = [x, y, 0xff, 0xff])
   | ReqCall _ (Type2WriteData _ _) \<Rightarrow> False | _ \<Rightarrow> True)"

interpretation write_target: safe_machine write_step "write_bound p data" "\<lambda>out. to_tag p out \<and> writes_only data out"
  "\<lambda>e. tag_path (fst e) = Some p" for p data
proof
  show "write_bound p data (fst (write_step s e))
      \<and> list_all (\<lambda>out. to_tag p out \<and> writes_only data out) (snd (write_step s e))"
    if "write_bound p data s" "tag_path (fst e) = Some p" for s e
    using that by (cases "wr_stage s") (auto simp: write_defs write_bound_def to_tag_def writes_only_def)
qed

interpretation lock_target: safe_machine lock_step "lock_bound p" "\<lambda>out. to_tag p out \<and> locks_only out"
  "\<lambda>e. tag_path (fst e) = Some p" for p
proof
  show "lock_bound p (fst (lock_step s e)) \<and> list_all (\<lambda>out. to_tag p out \<and> locks_only out) (snd (lock_step s e))"
    if "lock_bound p s" "tag_path (fst e) = Some p" for s e
    using that by (cases "lk_stage s") (auto simp: lock_defs lock_bound_def to_tag_def locks_only_def lock_block_def)
qed

text \<open>
  As long as the tag stays the one that was in the field when the write was asked for, every
  call of the write goes to that tag, and the only bytes written are the given ones, all of
  them from block 0 on.
\<close>

theorem write_touches_its_tag:
  assumes "tag_path c = Some p" and "\<forall>e \<in> set es. tag_path (fst e) = Some p"
    and "out \<in> set (snd (run write_step (fst (start_type2_write c data)) es))"
  shows "to_tag p out \<and> writes_only data out"
  using write_target.good_outs [of p data "fst (start_type2_write c data)" es out] assms
  by (simp add: list_all_iff start_type2_write_def write_bound_def)

theorem write_touches_its_tag_witness:
  "to_tag (str ''/nfc0/tag0'') (ReqCall (Some (str ''/nfc0/tag0'')) (Type2WriteData 0 [1, 2, 3, 4]))"
  using write_touches_its_tag [of writable_client "str ''/nfc0/tag0''" "replicate 3 (writable_client, all_fine)"
      "ReqCall (Some (str ''/nfc0/tag0'')) (Type2WriteData 0 [1, 2, 3, 4])" "[1, 2, 3, 4]"]
  by (simp add: write_defs start_type2_write_def all_fine_def numeral_eq_Suc Let_def)

text \<open>
  C24.  Under the same condition, every call of a lock request goes to that tag, and the only
  thing it ever writes is block 2 of sector 0 with its last two bytes all ones.
\<close>

theorem lock_touches_its_tag:
  assumes "nfcd_client_lock_tag c = (Some req, outs)" and "tag_path c = Some p"
    and "\<forall>e \<in> set es. tag_path (fst e) = Some p" and "out \<in> set (snd (run lock_step req es))"
  shows "to_tag p out \<and> locks_only out"
proof -
  have "lock_bound p req"
    using assms(1,2) by (auto simp: nfcd_client_lock_tag_def refuse_def begin_request_def lock_bound_def split: if_splits)
  then show ?thesis using lock_target.good_outs [of p req es out] assms(3,4) by (simp add: list_all_iff)
qed

theorem lock_touches_its_tag_witness:
  "locks_only (ReqCall (Some (str ''/nfc0/tag0'')) (Type2Write 0 2 [0x10, 0x20, 0xff, 0xff]))"
  using lock_touches_its_tag [of writable_client "the (fst (nfcd_client_lock_tag writable_client))"
      "snd (nfcd_client_lock_tag writable_client)" "str ''/nfc0/tag0''" "replicate 4 (writable_client, all_fine)"
      "ReqCall (Some (str ''/nfc0/tag0'')) (Type2Write 0 2 [0x10, 0x20, 0xff, 0xff])"]
  by (simp add: lock_defs nfcd_client_lock_tag_def begin_request_def all_fine_def lock_block_def numeral_eq_Suc Let_def)


end
