(* ===== verification/Service_Facts.thy ===== *)
theory Service_Facts
  imports Service Client_Facts Write_Lock_Facts
begin

text \<open>
  Every method call is answered exactly once, every answer has the documented shape, what
  getTagInfo answers is about the tag in the field, and what writeTag writes is what a reader
  decodes.
\<close>

section \<open>One answer\<close>

definition is_answer :: "service_out \<Rightarrow> bool" where
  "is_answer out \<longleftrightarrow> (case out of Reply _ \<Rightarrow> True | ReplyText _ \<Rightarrow> True | _ \<Rightarrow> False)"

definition answers :: "service_out list \<Rightarrow> nat" where
  "answers outs = length (filter is_answer outs)"

lemma answers_simps [simp]:
  "answers [] = 0" "answers (Reply j # outs) = Suc (answers outs)" "answers (ReplyText t # outs) = Suc (answers outs)"
  "answers (Post n j # outs) = answers outs" "answers (MessageRef # outs) = answers outs"
  "answers (MessageUnref # outs) = answers outs" "answers (ToTag p call # outs) = answers outs"
  "answers (FromClient out # outs) = answers outs" "answers (xs @ ys) = answers xs + answers ys"
  by (simp_all add: answers_def is_answer_def)

named_theorems service_defs \<open>the bodies of the reply helpers\<close>

declare luna_service_message_reply_custom_error_def [service_defs]
  luna_service_message_reply_error_bad_json_def [service_defs]
  luna_service_message_reply_error_invalid_params_def [service_defs]
  luna_service_message_reply_error_internal_def [service_defs]
  luna_service_message_reply_success_def [service_defs]
  luna_service_message_validate_and_send_def [service_defs]

lemma one_error: "ls_schema ls \<Longrightarrow> answers (luna_service_message_reply_custom_error ls t) = 1"
  by (simp add: service_defs)

lemma one_send: "ls_schema ls \<Longrightarrow> answers (luna_service_message_validate_and_send ls j) = 1"
  by (simp add: service_defs)

lemma one_result: "ls_schema ls \<Longrightarrow> answers (result_cb ls fallback s e) = 1"
  by (simp add: result_cb_def service_defs)

lemmas result_cbs = set_enabled_result_cb_def write_tag_result_cb_def lock_tag_result_cb_def clone_tag_result_cb_def
  add_card_emulation_result_cb_def remove_card_emulation_result_cb_def clear_card_emulation_result_cb_def

lemma run_request_answers:
  assumes "\<And>s e. answers (cb s e) = 1"
  shows "answers (run_request_cb cb outs) = length (filter is_req_reply outs)"
  by (induction outs) (auto simp: run_request_cb_def is_req_reply_def assms split: req_out.split)

definition client_replies :: "client_out list \<Rightarrow> nat" where
  "client_replies outs = length (filter (\<lambda>out. case out of
     EnabledReply _ _ \<Rightarrow> True | FromHce (HceReply _ _) \<Rightarrow> True | PassportRefused _ \<Rightarrow> True | _ \<Rightarrow> False) outs)"

lemma client_replies_simps [simp]:
  "client_replies [] = 0"
  "client_replies (EnabledReply s e # outs) = Suc (client_replies outs)"
  "client_replies (PassportRefused m # outs) = Suc (client_replies outs)"
  "client_replies (ClientCall call # outs) = client_replies outs"
  by (simp_all add: client_replies_def)

lemma run_client_answers:
  assumes "\<And>s e. answers (cb s e) = 1" "\<And>m. answers (refused m) = 1"
  shows "answers (run_client_cb cb refused outs) = client_replies outs"
  by (induction outs) (auto simp: run_client_cb_def client_replies_def assms split: client_out.split hce_out.split)

lemma run_client_answers_hce:
  assumes "\<And>s e. answers (cb s e) = 1"
  shows "answers (run_client_cb cb refused (map FromHce outs)) = length (filter is_hce_reply outs)"
  by (induction outs) (auto simp: run_client_cb_def is_hce_reply_def assms split: hce_out.split)

lemma run_client_answers_passport:
  assumes "\<And>m. answers (refused m) = 1" "\<forall>out \<in> set outs. (\<exists>m. out = PassportRefused m) \<or> (\<exists>c. out = ClientCall c)"
  shows "answers (run_client_cb cb refused outs) = client_replies outs"
  using assms(2)
  by (induction outs) (auto simp: run_client_cb_def client_replies_def assms(1))

text \<open>A card emulation call answers at once or leaves one registration in flight.\<close>

lemma add_answers:
  assumes "hce_step s (H_Add bus exported aid data impl) = (s', outs)"
  shows "(length (filter is_hce_reply outs) = 1 \<and> hs_pending s' = hs_pending s)
    \<or> (filter is_hce_reply outs = [] \<and> (\<exists>a. hs_pending s' = hs_pending s @ [a]))"
  using assms
  by (auto simp: nfcd_client_add_card_emulation_profile_def hce_export_skeleton_def hce_do_register_def in_flight_def
      is_hce_reply_def Let_def split: option.splits if_splits)

lemma remove_answers:
  assumes "hce_step s (H_Remove aid) = (s', outs)"
  shows "length (filter is_hce_reply outs) = 1"
  using assms
  by (auto simp: nfcd_client_remove_card_emulation_profile_def is_hce_reply_def Let_def split: option.splits if_splits)

lemma clear_answers:
  assumes "hce_step s H_Clear = (s', outs)"
  shows "length (filter is_hce_reply outs) = 1"
proof -
  have "filter is_hce_reply (map (\<lambda>e. HceCall (c e)) xs) = []" for c :: "bytes \<times> hce_profile \<Rightarrow> dbus_call" and xs
    by (induction xs) (simp_all add: is_hce_reply_def)
  with assms show ?thesis
    by (auto simp: nfcd_client_clear_card_emulation_def is_hce_reply_def Let_def split: if_splits)
qed

definition pending_answer :: "started option \<Rightarrow> nat" where
  "pending_answer st = (if st = None then 0 else 1)"

definition answered_once :: "'g method_result \<Rightarrow> bool" where
  "answered_once res \<longleftrightarrow> answers (fst (snd res)) + pending_answer (snd (snd res)) = 1"

lemma answered_now: "answers outs = 1 \<Longrightarrow> answered_once (w, outs, None)"
  by (simp add: answered_once_def pending_answer_def)

lemma start_replies:
  "nfcd_client_write_tag c m = (req, outs) \<Longrightarrow> length (filter is_req_reply outs) = (if req = None then 1 else 0)"
  "nfcd_client_write_raw c m = (req, outs) \<Longrightarrow> length (filter is_req_reply outs) = (if req = None then 1 else 0)"
  "nfcd_client_lock_tag c = (lock, outs) \<Longrightarrow> length (filter is_req_reply outs) = (if lock = None then 1 else 0)"
  by (auto simp: nfcd_client_write_tag_def nfcd_client_write_raw_def nfcd_client_lock_tag_def refuse_def
      begin_request_def start_type2_write_def is_req_reply_def split: if_splits option.splits)

lemma once_started:
  assumes "\<And>s e. answers (cb s e) = 1" "length (filter is_req_reply outs) = (if req = None then 1 else 0)"
  shows "answered_once (w, MessageRef # run_request_cb cb outs, map_option f req)"
  using assms(2) by (simp add: answered_once_def pending_answer_def run_request_answers [OF assms(1)])

lemma once_tag_methods:
  assumes "ls_schema ls"
  shows "answered_once (service_write_tag_cb ls w m)" "answered_once (service_lock_tag_cb ls w m)"
    "answered_once (service_clone_tag_cb ls w m)"
  using assms start_replies
  by (auto simp: service_write_tag_cb_def service_lock_tag_cb_def service_clone_tag_cb_def result_cbs one_error one_result
      luna_service_message_reply_error_bad_json_def intro!: answered_now once_started split: option.split prod.split)

lemma once_hce_methods:
  assumes "ls_schema ls"
  shows "answered_once (service_add_card_emulation_cb ls bus exported w m)"
    "answered_once (service_remove_card_emulation_cb ls w m)" "answered_once (service_clear_card_emulation_cb ls w m)"
proof -
  note one = run_client_answers_hce [OF one_result [OF assms]]
  let ?s = "\<lparr>hs_client = client w, hs_next = next_address w, hs_pending = hce_pending w, hs_wild = hce_wild w\<rparr>"
  have "answered_once (let (w', outs) = hce_world_event w (H_Add bus exported aid data impl);
        pending = drop (length (hce_pending w)) (hce_pending w') in
      (w', nfc_request_new @ run_client_cb (result_cb ls t) r outs, if pending = [] then None else Some (StartedHce (hd pending))))" for aid data impl t r
  proof -
    obtain s' outs where step: "hce_step ?s (H_Add bus exported aid data impl) = (s', outs)" by fastforce
    from add_answers [OF this] show ?thesis
      by (auto simp: hce_world_event_def step answered_once_def pending_answer_def one Let_def simp del: hce_step.simps)
  qed
  then show "answered_once (service_add_card_emulation_cb ls bus exported w m)"
    using assms by (auto simp: service_add_card_emulation_cb_def result_cbs one_error
        luna_service_message_reply_error_bad_json_def intro!: answered_now split: option.split)
  have "answered_once (let (w', outs) = hce_world_event w (H_Remove aid) in (w', nfc_request_new @ run_client_cb (result_cb ls t) r outs, None))" for aid t r
  proof -
    obtain s' outs where step: "hce_step ?s (H_Remove aid) = (s', outs)" by fastforce
    from remove_answers [OF this] show ?thesis
      by (auto simp: hce_world_event_def step answered_once_def pending_answer_def one Let_def simp del: hce_step.simps)
  qed
  then show "answered_once (service_remove_card_emulation_cb ls w m)"
    using assms by (auto simp: service_remove_card_emulation_cb_def result_cbs one_error
        luna_service_message_reply_error_bad_json_def intro!: answered_now split: option.split)
  obtain s' outs where step: "hce_step ?s H_Clear = (s', outs)" by fastforce
  from clear_answers [OF this] show "answered_once (service_clear_card_emulation_cb ls w m)"
    by (auto simp: service_clear_card_emulation_cb_def hce_world_event_def step answered_once_def pending_answer_def
        result_cbs one Let_def simp del: hce_step.simps)
qed

lemma once_passport:
  assumes "ls_schema ls" "s = passport_read_dispatch w r \<and> passport_reading (client w) = None \<or> (\<exists>msg. s = (w, [PassportRefused msg]))"
  shows "answered_once (passport_started ls w s)"
  using assms(2)
proof
  assume "s = passport_read_dispatch w r \<and> passport_reading (client w) = None"
  then show ?thesis
    by (auto simp: passport_started_def passport_read_dispatch_def answered_once_def pending_answer_def run_client_cb_def Let_def)
next
  assume "\<exists>msg. s = (w, [PassportRefused msg])"
  then show ?thesis
    using assms(1) by (auto simp: passport_started_def answered_once_def pending_answer_def run_client_cb_def
        read_passport_result_cb_def one_error)
qed

lemma once_passport_methods:
  assumes "ls_schema ls"
  shows "answered_once (service_read_passport_cb ls ossl w m)" "answered_once (service_read_passport_pace_cb ls w m)"
  using assms
  by (auto simp: service_read_passport_cb_def service_read_passport_pace_cb_def one_error
      luna_service_message_reply_error_bad_json_def nfcd_client_read_passport_def nfcd_client_read_passport_pace_def
      passport_read_precheck_def Let_def intro!: answered_now once_passport split: option.splits if_splits)

lemma every_call_once:
  assumes "ls_schema ls" and "(w', outs, started) = nfc_service_methods ls ossl bus exported call w m"
  shows "answers outs + (if started = None then 0 else 1) = 1"
proof -
  have "answered_once (nfc_service_methods ls ossl bus exported call w m)"
  proof (cases call)
    case SetEnabled
    then show ?thesis
      using assms(1) by (auto simp: service_set_enabled_cb_def one_error one_result result_cbs answered_once_def
          pending_answer_def luna_service_message_reply_error_bad_json_def luna_service_message_reply_error_invalid_params_def
          nfcd_client_set_enabled_def run_client_cb_def split: option.split jvalue.split)
  qed (use assms(1) in \<open>simp_all add: once_tag_methods once_hce_methods once_passport_methods one_send answered_now
      service_get_status_cb_def service_get_tag_info_cb_def service_get_card_emulation_event_cb_def\<close>)
  then show ?thesis unfolding assms(2) [symmetric] by (simp add: answered_once_def pending_answer_def)
qed

text \<open>
  Every call of every method, with any payload and in any state, is answered at once exactly
  once, or leaves exactly one request in flight that answers it; never both, never neither.
\<close>

theorem methods_answer_once:
  assumes "ls_schema ls" and "(w', outs, started) = nfc_service_methods ls ossl bus exported call w m"
  shows "answers outs + (if started = None then 0 else 1) = 1"
  using assms by (rule every_call_once)

definition demo_luna :: luna where
  "demo_luna = \<lparr>ls_schema = True,
     ls_parse = (\<lambda>data. JObj [(''type'', JStr (str ''uri'')), (''uri'', JStr (str ''https://webos-ports.org''))]),
     ls_base64 = (\<lambda>data. data)\<rparr>"

definition demo_message :: message where
  "demo_message = \<lparr>m_payload = [], m_is_subscription = True, m_process = Some True\<rparr>"

definition empty_world :: "nat world" where
  "empty_world = world_init"

theorem methods_answer_once_witness:
  "answers (fst (snd (nfc_service_methods demo_luna demo_openssl True True GetStatus empty_world demo_message))) = 1"
proof -
  have schema: "ls_schema demo_luna" by (simp add: demo_luna_def)
  let ?res = "nfc_service_methods demo_luna demo_openssl True True GetStatus empty_world demo_message"
  have "(fst ?res, fst (snd ?res), snd (snd ?res)) = ?res" by simp
  from methods_answer_once [OF schema this] show ?thesis by (simp add: service_get_status_cb_def)
qed

section \<open>The shape of the answers\<close>

text \<open>
  An answer says whether the call succeeded, and a failure says why; the text answer is the
  JSON of a success.
\<close>

definition proper_answer :: "service_out \<Rightarrow> bool" where
  "proper_answer out \<longleftrightarrow> (case out of
     Reply j \<Rightarrow> jget j ''returnValue'' = Some (JBool True)
       \<or> jget j ''returnValue'' = Some (JBool False) \<and> (\<exists>t. jget j ''errorText'' = Some (JStr t))
   | ReplyText t \<Rightarrow> t = str ''{\"returnValue\":true}''
   | _ \<Rightarrow> True)"

definition all_proper :: "service_out list \<Rightarrow> bool" where
  "all_proper outs \<longleftrightarrow> list_all proper_answer outs"

lemma all_proper_simps [simp]:
  "all_proper []" "all_proper (MessageRef # outs) = all_proper outs" "all_proper (MessageUnref # outs) = all_proper outs"
  "all_proper (ToTag p call # outs) = all_proper outs" "all_proper (FromClient out # outs) = all_proper outs"
  "all_proper (xs @ ys) \<longleftrightarrow> all_proper xs \<and> all_proper ys"
  by (auto simp: all_proper_def proper_answer_def)

lemma proper_error: "all_proper (luna_service_message_reply_custom_error ls t)"
  by (simp add: service_defs all_proper_def proper_answer_def)

lemma proper_send: "jget j ''returnValue'' = Some (JBool True) \<Longrightarrow> all_proper (luna_service_message_validate_and_send ls j)"
  using proper_error [of ls "str ''Internal error.''"]
  by (simp add: luna_service_message_validate_and_send_def luna_service_message_reply_error_internal_def all_proper_def
      proper_answer_def)

lemma proper_result: "all_proper (result_cb ls fallback s e)"
  by (simp add: result_cb_def proper_error) (simp add: service_defs all_proper_def proper_answer_def)

lemma proper_concat: "(\<And>x. all_proper (f x)) \<Longrightarrow> all_proper (concat (map f xs))"
  by (induction xs) simp_all

lemma proper_run_request: "(\<And>s e. all_proper (cb s e)) \<Longrightarrow> all_proper (run_request_cb cb outs)"
  unfolding run_request_cb_def by (rule proper_concat) (simp split: req_out.split)

lemma proper_run_client:
  "(\<And>s e. all_proper (cb s e)) \<Longrightarrow> (\<And>m. all_proper (refused m)) \<Longrightarrow> all_proper (run_client_cb cb refused outs)"
  unfolding run_client_cb_def by (rule proper_concat) (simp split: client_out.split hce_out.split)

lemma jget_put_other: "is_jobj j \<Longrightarrow> k \<noteq> k' \<Longrightarrow> jget (jobject_put k v j) k' = jget j k'"
  by simp

lemma status_value:
  "is_jobj (build_status c)" "jget (build_status c) ''returnValue'' = Some (JBool True)"
  "is_jobj (build_tag_info c)" "jget (build_tag_info c) ''returnValue'' = Some (JBool True)"
  "is_jobj (build_hce_event c)" "jget (build_hce_event c) ''returnValue'' = Some (JBool True)"
  by (simp_all add: build_status_def build_tag_info_def build_hce_event_def Let_def split: option.split)

lemma passport_value: "jget (passport_reply ls res) ''returnValue'' = Some (JBool True)"
  by (simp add: passport_reply_def Let_def split: option.split)

lemma proper_passport: "all_proper (read_passport_result_cb ls s e r)"
  by (simp add: read_passport_result_cb_def proper_error proper_send passport_value split: option.split bool.split)

lemmas method_defs = service_get_status_cb_def service_get_tag_info_cb_def service_get_card_emulation_event_cb_def
  service_set_enabled_cb_def service_write_tag_cb_def service_lock_tag_cb_def service_clone_tag_cb_def
  service_add_card_emulation_cb_def service_remove_card_emulation_cb_def service_clear_card_emulation_cb_def
  service_read_passport_cb_def service_read_passport_pace_cb_def passport_started_def


section \<open>Composition with the client\<close>

lemma tag_field: "jget (build_tag_info c) ''tag'' = tag_json c"
  by (simp add: build_tag_info_def nfcd_client_get_tag_json_def Let_def split: option.split)

lemma Some_eq_map_option: "Some y = map_option f x \<longleftrightarrow> (\<exists>z. x = Some z \<and> y = f z)"
  by (cases x) auto

text \<open>
  C3.  What getTagInfo answers, in every state of the daemon: it carries a tag only if one is in the
  field, and then the path in the answer is the path of that tag; and the answer is the one
  subscribers were last sent, but for the field that says whether the call subscribed.
\<close>

theorem tag_info_is_current:
  assumes "reachable g width env w" and "ls_schema ls"
  shows "\<exists>j. fst (snd (service_get_tag_info_cb ls w m)) = [Reply j]
    \<and> (case jget j ''tag'' of None \<Rightarrow> tag_json (client w) = None
        | Some tag \<Rightarrow> \<exists>p. tag_path (client w) = Some p \<and> jget tag ''path'' = Some (JStr p))
    \<and> tag_changed_cb ls (client w) = [Post ''getTagInfo'' (build_tag_info (client w))]
    \<and> j = jobject_put ''subscribed'' (JBool (luna_service_check_for_subscription_and_process m)) (build_tag_info (client w))"
proof -
  have ok: "tag_ok (client w)" using reachable_ok [OF assms(1)] by (simp add: world_ok_def)
  have "tag_json (client w) = Some tag \<Longrightarrow> \<exists>p. tag_path (client w) = Some p \<and> jget tag ''path'' = Some (JStr p)" for tag
    using ok by (cases "tag_path (client w)") (auto simp: tag_ok_def names_path_def)
  moreover have "jget (jobject_put ''subscribed'' b (build_tag_info (client w))) ''tag'' = tag_json (client w)" for b
    using status_value(3) [of "client w"] tag_field [of "client w"] by simp
  ultimately show ?thesis
    using assms(2) by (simp add: service_get_tag_info_cb_def luna_service_message_validate_and_send_def tag_changed_cb_def
        luna_service_post_subscription_def split: option.split)
qed

theorem tag_info_is_current_witness:
  "\<exists>j. fst (snd (service_get_tag_info_cb demo_luna demo_world demo_message)) = [Reply j]
    \<and> (\<exists>tag p. jget j ''tag'' = Some tag \<and> jget tag ''path'' = Some (JStr p))"
proof -
  have "ls_schema demo_luna" by (simp add: demo_luna_def)
  from tag_info_is_current [OF demo_world_reachable this, of demo_message]
  obtain j where j: "fst (snd (service_get_tag_info_cb demo_luna demo_world demo_message)) = [Reply j]"
    "case jget j ''tag'' of None \<Rightarrow> tag_json (client demo_world) = None
        | Some tag \<Rightarrow> \<exists>p. tag_path (client demo_world) = Some p \<and> jget tag ''path'' = Some (JStr p)"
    by blast
  then show ?thesis using demo_world_tag(3) by (cases "jget j ''tag''") auto
qed

text \<open>
  A writeTag call is answered exactly once in all: at once, or by the request it started, at
  the latest after five results of nfcd, whatever they are.
\<close>

theorem write_tag_answered_once:
  assumes "ls_schema ls" and "(w', outs, started) = service_write_tag_cb ls w m" and "length es \<ge> 5"
  shows "case started of
      Some (StartedWrite req) \<Rightarrow>
        answers outs = 0 \<and> answers (run_request_cb (write_tag_result_cb ls) (snd (run write_step req es))) = 1
    | None \<Rightarrow> answers outs = 1
    | _ \<Rightarrow> False"
proof -
  have once: "answered_once (w', outs, started)" unfolding assms(2) by (rule once_tag_methods(1) [OF assms(1)])
  show ?thesis
  proof (cases started)
    case None
    with once show ?thesis by (simp add: answered_once_def pending_answer_def)
  next
    case (Some st)
    then obtain msg req outs0 where st: "st = StartedWrite req" "nfcd_client_write_tag (client w) (Some msg) = (Some req, outs0)"
      using assms(2) by (auto simp: service_write_tag_cb_def Some_eq_map_option split: option.splits prod.splits)
    obtain data where "(req, outs0) = start_type2_write (client w) data" using started_write(1) [OF st(2)] by blast
    then have live: "wr_stage req = W_Proxy" by (simp add: start_type2_write_def)
    then have "length (filter is_req_reply (snd (run write_step req es))) = 1"
      using writing.exactly_one_reply [of req es] assms(3) by (simp add: write_fuel_def)
    with once Some st show ?thesis
      using run_request_answers [OF one_result [OF assms(1)]]
      by (simp add: answered_once_def pending_answer_def result_cbs)
  qed
qed

definition tag_world :: "nat world" where
  "tag_world = world_init\<lparr>client := writable_client\<rparr>"

text \<open>A result of nfcd with which a call of a write of \<open>n\<close> bytes succeeds.\<close>

definition good_result :: "nat \<Rightarrow> req_event" where
  "good_result n = \<lparr>q_ok = True, q_message = [], q_written = n, q_data = []\<rparr>"

lemma demo_write:
  "luna_service_message_parse_and_validate demo_luna p = Some (ls_parse demo_luna p)"
  "get_string_param (ls_parse demo_luna p) ''type'' = Some (str ''uri'')"
  "get_string_param (ls_parse demo_luna p) ''uri'' = Some (str ''https://webos-ports.org'')"
proof -
  have nul: "nul_free (str ''uri'')" "nul_free (str ''https://webos-ports.org'')" by code_simp+
  then show "get_string_param (ls_parse demo_luna p) ''type'' = Some (str ''uri'')"
    "get_string_param (ls_parse demo_luna p) ''uri'' = Some (str ''https://webos-ports.org'')"
    by (simp_all add: demo_luna_def get_string_param_def)
  show "luna_service_message_parse_and_validate demo_luna p = Some (ls_parse demo_luna p)"
    by (simp add: luna_service_message_parse_and_validate_def demo_luna_def)
qed

theorem write_tag_answered_once_witness:
  "answers (fst (snd (service_write_tag_cb demo_luna tag_world demo_message))) \<le> 1"
proof -
  have schema: "ls_schema demo_luna" by (simp add: demo_luna_def)
  let ?res = "service_write_tag_cb demo_luna tag_world demo_message"
  have "(fst ?res, fst (snd ?res), snd (snd ?res)) = ?res" by simp
  from write_tag_answered_once [OF schema this, of "replicate 5 (writable_client, all_fine)"] show ?thesis
    by (auto split: option.splits started.splits)
qed

text \<open>The message for a URI of at most 254 bytes can be built, and its TLV reads back.\<close>

lemma uri_message_exists:
  assumes "length u \<le> 254" "nul_free u" "10 \<le> width"
  shows "\<exists>msg data r. ndef_build_uri_message (Some u) = Some msg \<and> ndef_wrap_type2_tlv (Some msg) = Some data
    \<and> read_type2_tlv data = Some msg \<and> ndef_message_to_json g width msg = Some (Some (JArr [r]))
    \<and> jget r ''kind'' = Some (JStr (str ''uri'')) \<and> jget r ''uri'' = Some (JStr u)"
proof -
  have msg: "\<exists>msg. ndef_build_uri_message (Some u) = Some msg \<and> length msg < 65536"
    using assms(1) by (auto simp: build_uri_eq build_single_record_eq length_str)
  then obtain msg where m: "ndef_build_uri_message (Some u) = Some msg" "length msg < 65536" by blast
  from type2_tlv_roundtrip [OF m(2)] uri_message_roundtrip [OF m(1) assms(2,3), of g] m(1) show ?thesis by blast
qed

lemma string_param_nul_free: "get_string_param obj name = Some s \<Longrightarrow> nul_free s"
  by (auto simp: get_string_param_def split: option.splits jvalue.splits)

text \<open>
  C20.  A writeTag call with a URI of at most 254 bytes, for a Type 2 tag that stays in the field
  and with nfcd confirming every call, acquires that tag, writes one data area to it from
  block 0 on, releases it and answers success; and what a reader finds in that area is one
  URI record that decodes to the URI of the call.
\<close>

theorem write_uri_reaches_reader:
  assumes "luna_service_message_parse_and_validate ls (m_payload m) = Some obj"
    and "get_string_param obj ''type'' = Some (str ''uri'')" and "get_string_param obj ''uri'' = Some u"
    and "length u \<le> 254" and "10 \<le> width" and "tag_path (client w) = Some p" and "tag_is_type2 (client w)"
    and "length cs = 5" and "\<forall>c \<in> set cs. tag_path c = Some p"
  shows "\<exists>req data msg r. snd (snd (service_write_tag_cb ls w m)) = Some (StartedWrite req)
    \<and> snd (run write_step req (map (\<lambda>c. (c, good_result (length data))) cs)) =
       [ReqCall (Some p) (TagAcquire False), ReqCall None (NewType2Proxy (Some p)),
        ReqCall (Some p) (Type2WriteData 0 data), ReqCall (Some p) TagRelease, ReqReply True None]
    \<and> write_tag_result_cb ls True None = [ReplyText (str ''{\"returnValue\":true}''), MessageUnref]
    \<and> read_type2_tlv data = Some msg \<and> ndef_message_to_json g width msg = Some (Some (JArr [r]))
    \<and> jget r ''kind'' = Some (JStr (str ''uri'')) \<and> jget r ''uri'' = Some (JStr u)"
proof -
  from uri_message_exists [OF assms(4) string_param_nul_free [OF assms(3)] assms(5), of g]
  obtain msg data r where m: "ndef_build_uri_message (Some u) = Some msg" "ndef_wrap_type2_tlv (Some msg) = Some data"
    and rd_back: "read_type2_tlv data = Some msg" "ndef_message_to_json g width msg = Some (Some (JArr [r]))"
      "jget r ''kind'' = Some (JStr (str ''uri''))" "jget r ''uri'' = Some (JStr u)"
    by blast
  define req where "req = fst (start_type2_write (client w) data)"
  have started: "snd (snd (service_write_tag_cb ls w m)) = Some (StartedWrite req)"
    using assms(1-3,6,7) m
    by (simp add: service_write_tag_cb_def write_tag_message_def nfcd_client_write_tag_def begin_request_def req_def
        case_prod_unfold Let_def)
  from list_of_five [OF assms(8)] obtain a b c d e where cs: "cs = [a, b, c, d, e]" by blast
  have "snd (run write_step req (map (\<lambda>c. (c, good_result (length data))) cs)) =
       [ReqCall (Some p) (TagAcquire False), ReqCall None (NewType2Proxy (Some p)),
        ReqCall (Some p) (Type2WriteData 0 data), ReqCall (Some p) TagRelease, ReqReply True None]"
    using assms(6,9) by (simp add: cs req_def write_defs start_type2_write_def good_result_def Let_def)
  moreover have "write_tag_result_cb ls True None = [ReplyText (str ''{\"returnValue\":true}''), MessageUnref]"
    by (simp add: write_tag_result_cb_def result_cb_def luna_service_message_reply_success_def)
  ultimately show ?thesis using started rd_back by blast
qed

theorem write_uri_reaches_reader_witness:
  "\<exists>data msg r. read_type2_tlv data = Some msg \<and> ndef_message_to_json demo_glib 64 msg = Some (Some (JArr [r]))
    \<and> jget r ''uri'' = Some (JStr (str ''https://webos-ports.org''))"
proof -
  have tag: "tag_path (client tag_world) = Some (str ''/nfc0/tag0'')" "tag_is_type2 (client tag_world)"
    by (simp_all add: tag_world_def)
  have len: "length (str ''https://webos-ports.org'') \<le> 254" "10 \<le> (64 :: nat)" "length (replicate 5 writable_client) = 5"
    "\<forall>c \<in> set (replicate 5 writable_client). tag_path c = Some (str ''/nfc0/tag0'')"
    by (simp_all add: length_str)
  from write_uri_reaches_reader [where g = demo_glib and m = demo_message, OF demo_write(1,2,3) len(1,2) tag len(3,4)]
  show ?thesis using demo_write by blast
qed

end
