(* ===== verification/Passport_Success.thy ===== *)
theory Passport_Success
  imports Passport_Facts
begin

text \<open>
  What a successful passport read means: the chip has proved knowledge of the access key in
  this very read, the session keys in use are the ones that proof established, and the MRZ
  handed to the caller was parsed from a complete EF.DG1.
\<close>

section \<open>The invariant of the read\<close>

definition bac_authenticated :: "('g, 'p) crypto_env \<Rightarrow> 'g passport_read \<Rightarrow> bool" where
  "bac_authenticated env r \<longleftrightarrow> (\<exists>resp s. bac_process_mutual_authenticate_response (e_ossl env)
       (pr_keys r) (pr_challenge r) (pr_rnd_icc r) resp = Some s
     \<and> ks_enc (pr_session r) = ks_enc s \<and> ks_mac (pr_session r) = ks_mac s)"

definition pace_agreed :: "('g, 'p) crypto_env \<Rightarrow> 'g pace_exchange \<Rightarrow> pace_session \<Rightarrow> bool" where
  "pace_agreed env p1 s \<longleftrightarrow>
     (\<exists>p resp. pace_process_key_agreement_response (e_ossl env) (e_ec env) p resp = Parsed (p1, s))"

definition pace_authenticated :: "('g, 'p) crypto_env \<Rightarrow> 'g passport_read \<Rightarrow> bool" where
  "pace_authenticated env r \<longleftrightarrow> (\<exists>p1 s token. pace_agreed env p1 s
     \<and> pace_verify_mutual_auth_response (e_ossl env) p1 token = Parsed True
     \<and> pks_enc (pr_pace_session r) = pks_enc s \<and> pks_mac (pr_pace_session r) = pks_mac s
     \<and> skey_len (pr_pace_session r) = skey_len s)"

definition passport_authenticated :: "('g, 'p) crypto_env \<Rightarrow> 'g passport_read \<Rightarrow> bool" where
  "passport_authenticated env r \<longleftrightarrow> (if use_pace r then pace_authenticated env r else bac_authenticated env r)"

definition mrz_complete :: "('g, 'p) crypto_env \<Rightarrow> 'g passport_read \<Rightarrow> bool" where
  "mrz_complete env r \<longleftrightarrow> bac_parse_dg1_mrz (dg1 r) = Parsed (mrz r)
     \<and> gsub (e_width env) (dg1_total_len r) (length (dg1 r)) = 0"

fun stage_inv :: "('g, 'p) crypto_env \<Rightarrow> passport_stage \<Rightarrow> 'g passport_read \<Rightarrow> bool" where
  "stage_inv env P_SelectAid r = (\<not> use_pace r)"
| "stage_inv env P_GetChallenge r = (\<not> use_pace r)"
| "stage_inv env P_MutualAuth r = (\<not> use_pace r)"
| "stage_inv env P_SelectCardAccess r = use_pace r"
| "stage_inv env P_CardAccess r = use_pace r"
| "stage_inv env P_MseSetAt r = use_pace r"
| "stage_inv env P_GetNonce r = use_pace r"
| "stage_inv env P_MapNonce r = use_pace r"
| "stage_inv env P_KeyAgreement r = use_pace r"
| "stage_inv env P_PaceMutualAuth r =
     (use_pace r \<and> (\<exists>p. pace r = Some p \<and> pace_agreed env p (pr_pace_session r)))"
| "stage_inv env P_PaceSelectAid r = (use_pace r \<and> pace_authenticated env r)"
| "stage_inv env P_SelectDg1 r = passport_authenticated env r"
| "stage_inv env P_Dg1 r = passport_authenticated env r"
| "stage_inv env P_SelectDg2 r = (passport_authenticated env r \<and> mrz_complete env r)"
| "stage_inv env P_Dg2 r = (passport_authenticated env r \<and> mrz_complete env r)"
| "stage_inv env _ r = True"

definition passport_inv :: "('g, 'p) crypto_env \<Rightarrow> 'g passport_read \<Rightarrow> bool" where
  "passport_inv env r \<longleftrightarrow> stage_inv env (pr_stage r) r"

text \<open>A step is good when it keeps the invariant and a success it reports is justified.\<close>

definition justified :: "('g, 'p) crypto_env \<Rightarrow> 'g passport_read \<Rightarrow> passport_out \<Rightarrow> bool" where
  "justified env r out \<longleftrightarrow> (\<forall>e res. out = OutReply True e res \<longrightarrow>
     passport_authenticated env r \<and> mrz_complete env r \<and> e = None
     \<and> (\<exists>ph. res = Some \<lparr>mrz_text = mrz r, mrz_parsed = bac_parse_mrz_fields (Some (mrz r)), photo = ph\<rparr>))"

definition good_step :: "('g, 'p) crypto_env \<Rightarrow> 'g passport_step \<Rightarrow> bool" where
  "good_step env sr \<longleftrightarrow> passport_inv env (fst sr) \<and> (\<forall>out \<in> set (snd sr). justified env (fst sr) out)"

lemma stage_inv_stage [simp]: "stage_inv env st (r\<lparr>pr_stage := x\<rparr>) = stage_inv env st r"
  by (cases st) (simp_all add: passport_authenticated_def bac_authenticated_def pace_authenticated_def
      mrz_complete_def)

lemma good_fail: "good_step env (passport_fail r m)"
  by (auto simp: good_step_def passport_inv_def justified_def passport_read_finish_def)

lemma good_wild: "good_step env (passport_wild r)"
  by (simp add: good_step_def passport_inv_def passport_wild_def)

lemma good_transceive: "stage_inv env st r \<Longrightarrow> good_step env (passport_transceive r a st)"
  by (simp add: good_step_def passport_inv_def passport_transceive_def justified_def)

lemma good_deliver:
  assumes "passport_authenticated env r" "mrz_complete env r"
  shows "good_step env (passport_read_finish r True None
    (Some \<lparr>mrz_text = mrz r, mrz_parsed = bac_parse_mrz_fields (Some (mrz r)), photo = ph\<rparr>))"
  using assms by (auto simp: good_step_def passport_inv_def justified_def passport_read_finish_def
      passport_authenticated_def bac_authenticated_def pace_authenticated_def mrz_complete_def)

lemmas good_intros = good_fail good_wild good_transceive good_deliver

lemma good_build: "passport_authenticated env r \<Longrightarrow> mrz_complete env r \<Longrightarrow>
    good_step env (passport_build_result_and_finish env r)"
  unfolding passport_build_result_and_finish_def Let_def
  by (auto intro!: good_intros split: option.split outcome.split)

section \<open>Secure messaging keeps the keys\<close>

lemma bac_protect_keys: "bac_sm_protect ossl s cla ins p1 p2 data le = (s', a) \<Longrightarrow>
    ks_enc s' = ks_enc s \<and> ks_mac s' = ks_mac s"
  by (auto simp: bac_sm_protect_def Let_def split: if_splits option.splits)

lemma pace_protect_keys: "pace_sm_protect ossl s cla ins p1 p2 data le = (s', a) \<Longrightarrow>
    pks_enc s' = pks_enc s \<and> pks_mac s' = pks_mac s \<and> skey_len s' = skey_len s"
  by (auto simp: pace_sm_protect_def Let_def split: if_splits option.splits)

lemma bac_unprotect_keys: "bac_sm_unprotect ossl s resp = (s', a) \<Longrightarrow>
    ks_enc s' = ks_enc s \<and> ks_mac s' = ks_mac s"
  using bac_unwrap.unprotect_session [of ossl s resp] by (auto simp: bac_next_def)

lemma pace_unprotect_keys: "pace_sm_unprotect ossl s resp = (s', a) \<Longrightarrow>
    pks_enc s' = pks_enc s \<and> pks_mac s' = pks_mac s \<and> skey_len s' = skey_len s"
  using pace_unwrap.unprotect_session [of ossl s resp] by (auto simp: pace_next_def)

definition same_progress :: "'g passport_read \<Rightarrow> 'g passport_read \<Rightarrow> bool" where
  "same_progress r r' \<longleftrightarrow> use_pace r' = use_pace r \<and> pr_keys r' = pr_keys r \<and> pr_challenge r' = pr_challenge r
     \<and> pr_rnd_icc r' = pr_rnd_icc r \<and> dg1 r' = dg1 r \<and> dg1_total_len r' = dg1_total_len r \<and> mrz r' = mrz r
     \<and> dg2 r' = dg2 r \<and> dg2_total_len r' = dg2_total_len r \<and> read_photo r' = read_photo r
     \<and> ks_enc (pr_session r') = ks_enc (pr_session r) \<and> ks_mac (pr_session r') = ks_mac (pr_session r)
     \<and> pks_enc (pr_pace_session r') = pks_enc (pr_pace_session r)
     \<and> pks_mac (pr_pace_session r') = pks_mac (pr_pace_session r)
     \<and> skey_len (pr_pace_session r') = skey_len (pr_pace_session r)"

lemma protect_progress:
  "passport_sm_protect env r cla ins p1 p2 data le = (r', a) \<Longrightarrow> same_progress r r'"
  by (auto simp: passport_sm_protect_def same_progress_def dest: bac_protect_keys pace_protect_keys
      split: prod.splits if_splits)

lemma response_progress: "passport_sm_response_ok env r resp = (r', a) \<Longrightarrow> same_progress r r'"
  by (auto simp: passport_sm_response_ok_def same_progress_def Let_def
      dest: bac_unprotect_keys pace_unprotect_keys split: prod.splits if_splits)

lemma authenticated_progress [simp]:
  "same_progress r r' \<Longrightarrow> passport_authenticated env r' = passport_authenticated env r"
  by (simp add: same_progress_def passport_authenticated_def bac_authenticated_def pace_authenticated_def)

lemma complete_progress [simp]: "same_progress r r' \<Longrightarrow> mrz_complete env r' = mrz_complete env r"
  by (simp add: same_progress_def mrz_complete_def)

lemma authenticated_updates [simp]:
  "passport_authenticated env (r\<lparr>dg1 := x\<rparr>) = passport_authenticated env r"
  "passport_authenticated env (r\<lparr>dg1_total_len := n\<rparr>) = passport_authenticated env r"
  "passport_authenticated env (r\<lparr>mrz := x\<rparr>) = passport_authenticated env r"
  "passport_authenticated env (r\<lparr>dg2 := d\<rparr>) = passport_authenticated env r"
  "passport_authenticated env (r\<lparr>dg2_total_len := n\<rparr>) = passport_authenticated env r"
  "mrz_complete env (r\<lparr>dg2 := d\<rparr>) = mrz_complete env r"
  "mrz_complete env (r\<lparr>dg2_total_len := n\<rparr>) = mrz_complete env r"
  by (simp_all add: passport_authenticated_def bac_authenticated_def pace_authenticated_def mrz_complete_def)

section \<open>Every handler is good\<close>

lemma good_dg2_start: "passport_authenticated env r \<Longrightarrow> mrz_complete env r \<Longrightarrow>
    good_step env (passport_select_dg2_start env r)"
  unfolding passport_select_dg2_start_def
  by (auto intro!: good_intros good_build dest!: protect_progress split: prod.split option.split)

lemma good_dg1_more: "passport_authenticated env r \<Longrightarrow> good_step env (passport_dg1_read_more env r)"
  unfolding passport_dg1_read_more_def Let_def
  by (auto intro!: good_intros good_build good_dg2_start dest!: protect_progress
      simp: mrz_complete_def split: prod.split option.split outcome.split)

lemma good_dg2_more: "passport_authenticated env r \<Longrightarrow> mrz_complete env r \<Longrightarrow>
    good_step env (passport_dg2_read_more env r)"
  unfolding passport_dg2_read_more_def Let_def
  by (auto intro!: good_intros good_build dest!: protect_progress split: prod.split option.split)

lemma good_dg1_handlers:
  assumes "passport_authenticated env r"
  shows "good_step env (passport_select_dg1_ready env r ev)" "good_step env (passport_dg1_rest_ready env r ev)"
  using assms unfolding passport_select_dg1_ready_def passport_dg1_rest_ready_def Let_def
  by (auto intro!: good_intros good_dg1_more dest!: protect_progress response_progress
      split: option.split prod.split outcome.split sm_reply.split)

lemma good_dg2_handlers:
  assumes "passport_authenticated env r" "mrz_complete env r"
  shows "good_step env (passport_select_dg2_ready env r ev)" "good_step env (passport_dg2_rest_ready env r ev)"
  using assms unfolding passport_select_dg2_ready_def passport_dg2_rest_ready_def Let_def
  by (auto intro!: good_intros good_build good_dg2_more dest!: protect_progress response_progress
      split: option.split prod.split outcome.split sm_reply.split)

lemma good_early_handlers:
  "good_step env (passport_tag_proxy_ready r ev)" "good_step env (passport_acquire_ready r ev)"
  "\<not> use_pace r \<Longrightarrow> good_step env (passport_select_aid_ready r ev)"
  "\<not> use_pace r \<Longrightarrow> good_step env (passport_get_challenge_ready env r ev)"
  "use_pace r \<Longrightarrow> good_step env (passport_select_ef_cardaccess_ready r ev)"
  "use_pace r \<Longrightarrow> good_step env (pace_mse_set_at_ready r ev)"
  by (auto simp: passport_tag_proxy_ready_def passport_acquire_ready_def passport_select_aid_ready_def
      passport_get_challenge_ready_def passport_select_ef_cardaccess_ready_def pace_mse_set_at_ready_def
      Let_def good_step_def passport_inv_def justified_def passport_read_finish_def passport_transceive_def
      split: option.split)

lemma good_mutual_auth:
  assumes "\<not> use_pace r"
  shows "good_step env (passport_mutual_auth_ready env r ev)"
proof -
  have "bac_authenticated env (r\<lparr>pr_session := s'\<rparr>)"
    if "bac_process_mutual_authenticate_response (e_ossl env) (pr_keys r) (pr_challenge r) (pr_rnd_icc r) d = Some s"
      "bac_sm_protect (e_ossl env) s 0x00 0xA4 0x02 0x0C [0x01, 0x01] (- 1) = (s', a)" for d s s' a
    using that(1) bac_protect_keys [OF that(2)] by (auto simp: bac_authenticated_def)
  with assms show ?thesis
    by (auto simp: passport_mutual_auth_ready_def passport_authenticated_def intro!: good_intros
        split: option.split prod.split)
qed

lemma good_cardaccess:
  assumes "use_pace r"
  shows "good_step env (cardaccess_next env r)"
proof -
  have "use_pace r'" if "passport_pick_pace_entry env r = Parsed (Inr r')" for r'
    using pick_hold [OF that] assms by (simp add: same_hold_def)
  with assms show ?thesis
    unfolding cardaccess_next_def Let_def by (auto intro!: good_intros split: outcome.split sum.split)
qed

lemma good_cardaccess_rest: "use_pace r \<Longrightarrow> good_step env (passport_ef_cardaccess_rest_ready env r ev)"
  by (auto simp: passport_ef_cardaccess_rest_ready_def Let_def intro!: good_intros good_cardaccess
      split: option.split outcome.split prod.split)

lemma pace_agreedI:
  "pace_process_key_agreement_response (e_ossl env) (e_ec env) p resp = Parsed (p1, s) \<Longrightarrow> pace_agreed env p1 s"
  by (auto simp: pace_agreed_def)

lemma good_pace_rounds:
  assumes "use_pace r"
  shows "good_step env (pace_get_nonce_ready env r ev)" "good_step env (pace_map_nonce_ready env r ev)"
    "good_step env (pace_key_agreement_ready env r ev)"
  using assms by (auto simp: pace_get_nonce_ready_def pace_map_nonce_ready_def pace_key_agreement_ready_def
      Let_def intro!: good_intros intro: pace_agreedI split: option.split outcome.split prod.split)

lemma good_pace_auth:
  assumes "use_pace r" "pace r = Some p" "pace_agreed env p (pr_pace_session r)"
  shows "good_step env (pace_mutual_auth_ready env r ev)"
proof -
  have "pace_authenticated env (r\<lparr>pace := None, pr_pace_session := s'\<rparr>)"
    if "pace_verify_mutual_auth_response (e_ossl env) p resp = Parsed True"
      "pace_sm_protect (e_ossl env) (pr_pace_session r) 0x00 0xA4 0x04 0x0C emrtd_aid (- 1) = (s', a)" for resp s' a
    using assms(3) that(1) pace_protect_keys [OF that(2)] by (auto simp: pace_authenticated_def)
  with assms show ?thesis
    by (auto simp: pace_mutual_auth_ready_def intro!: good_intros split: option.split outcome.split prod.split)
qed

lemma good_pace_select:
  assumes "use_pace r" "pace_authenticated env r"
  shows "good_step env (pace_select_aid_ready env r ev)"
proof -
  have "passport_authenticated env (r\<lparr>pr_pace_session := s''\<rparr>)"
    if "pace_sm_unprotect (e_ossl env) (pr_pace_session r) resp = (s', x)"
      "pace_sm_protect (e_ossl env) s' 0x00 0xA4 0x02 0x0C [0x01, 0x01] (- 1) = (s'', a)" for resp s' s'' x a
    using assms pace_unprotect_keys [OF that(1)] pace_protect_keys [OF that(2)]
    by (simp add: passport_authenticated_def pace_authenticated_def)
  then show ?thesis
    by (auto simp: pace_select_aid_ready_def intro!: good_intros split: option.split prod.split sm_result.split)
qed

lemma good_passport_step:
  assumes "passport_inv env r"
  shows "good_step env (passport_step env r ev)"
proof (cases "pr_stage r \<in> {P_Done, P_Wild}")
  case True
  then show ?thesis by (auto simp: passport_step_def good_step_def passport_inv_def)
next
  case False
  with assms show ?thesis
    by (cases "pr_stage r") (auto simp: passport_inv_def passport_step_def intro: good_early_handlers
        good_mutual_auth good_cardaccess_rest good_pace_rounds good_pace_auth good_pace_select
        good_dg1_handlers good_dg2_handlers)
qed

section \<open>Runs\<close>

interpretation passport_states: invariant_machine "passport_step env" "passport_inv env" for env
proof
  show "passport_inv env (fst (passport_step env s e))" if "passport_inv env s" for s e
    using good_passport_step [OF that, of e] by (simp add: good_step_def)
qed

lemma inv_new: "passport_inv env (passport_read_new with_pace keys k photo_wanted)"
  by (simp add: passport_inv_def passport_read_new_def)

lemma run_justified:
  assumes "passport_inv env r" "out \<in> set (snd (run (passport_step env) r evs))" "is_reply out"
  shows "justified env (fst (run (passport_step env) r evs)) out"
  using assms
proof (induction evs arbitrary: r)
  case Nil
  then show ?case by simp
next
  case (Cons ev evs)
  let ?r1 = "fst (passport_step env r ev)"
  have good: "good_step env (passport_step env r ev)" by (rule good_passport_step [OF Cons.prems(1)])
  show ?case
  proof (cases "out \<in> set (snd (passport_step env r ev))")
    case True
    with Cons.prems(3) have "filter is_reply (snd (passport_step env r ev)) \<noteq> []"
      by (auto simp: filter_empty_conv)
    moreover from True have "passport_live r"
      by (metis passport_machine.dead_step empty_iff list.set(1) snd_conv)
    ultimately have "\<not> passport_live ?r1" using passport_machine.live_quiet by blast
    with True good show ?thesis
      by (simp add: run_fst_Cons passport_machine.dead_run good_step_def del: run.simps)
  next
    case False
    with Cons.prems(2) have "out \<in> set (snd (run (passport_step env) ?r1 evs))"
      by (simp add: run_snd_Cons del: run.simps)
    with Cons.IH [of ?r1] Cons.prems(3) good show ?thesis
      by (simp add: run_fst_Cons good_step_def del: run.simps)
  qed
qed


end
