(* ===== verification/Mrz_Facts.thy ===== *)
theory Mrz_Facts
  imports Mrz
begin

text \<open>
  What the MRZ code achieves: which misprints the check digits catch, that the digest
  input is 24 bytes and determines the three fields, that a TD3 zone is split back into
  the fields it was assembled from, and that EF.DG1 and EF.DG2 are read within bounds.
\<close>

section \<open>Check digits\<close>

text \<open>The weighted sum the loop accumulates, and its value on characters outside the MRZ set.\<close>

fun weighted :: "bytes \<Rightarrow> nat \<Rightarrow> int" where
  "weighted [] n = 0"
| "weighted (c # f) n = mrz_char_value c * weights ! (n mod 3) + weighted f (n + 1)"

definition mrz_chars :: "bytes \<Rightarrow> bool" where
  "mrz_chars f \<longleftrightarrow> (\<forall>c \<in> set f. 0 \<le> mrz_char_value c)"

lemma mrz_digit_loop_eq:
  "mrz_digit_loop f n acc =
     (if mrz_chars f then Some (byte_of (0x30 + nat ((acc + weighted f n) mod 10))) else None)"
  by (induction f arbitrary: n acc) (auto simp: mrz_chars_def Let_def algebra_simps)

lemma mrz_check_digit_eq:
  "mrz_check_digit f = (if mrz_chars f then Some (byte_of (0x30 + nat (weighted f 0 mod 10))) else None)"
  by (simp add: mrz_check_digit_def mrz_digit_loop_eq)

lemma digit_byte_eq_iff:
  "byte_of (0x30 + nat (a mod 10)) = byte_of (0x30 + nat (b mod 10)) \<longleftrightarrow> a mod 10 = b mod (10 :: int)"
proof -
  have small: "0x30 + nat (x mod 10) < 256" for x :: int
    using pos_mod_bound [of 10 x] by linarith
  have "byte_of (0x30 + nat (a mod 10)) = byte_of (0x30 + nat (b mod 10)) \<longleftrightarrow>
      nat (a mod 10) = nat (b mod 10)"
    by (subst byte_of_inj [OF small small]) simp
  also have "\<dots> \<longleftrightarrow> a mod 10 = b mod 10"
    by (simp add: nat_eq_iff)
  finally show ?thesis .
qed

lemma weighted_update:
  "i < length f \<Longrightarrow> weighted (f[i := c]) n =
     weighted f n + (mrz_char_value c - mrz_char_value (f ! i)) * weights ! ((n + i) mod 3)"
proof (induction f arbitrary: i n)
  case (Cons x f)
  show ?case
  proof (cases i)
    case (Suc j)
    with Cons.prems Cons.IH [of j "n + 1"] show ?thesis by simp
  qed (simp add: algebra_simps)
qed simp

lemma weights_cases: "weights ! (k mod 3) \<in> {7, 3, 1}"
proof -
  have "k mod 3 < 3" by simp
  then have "k mod 3 = 0 \<or> k mod 3 = 1 \<or> k mod 3 = 2" by linarith
  then show ?thesis by (auto simp: weights_def)
qed

text \<open>No weight shares a factor with ten, so a single wrong character changes the digit.\<close>

lemma weight_unit: "(x + d * weights ! (k mod 3)) mod 10 = x mod 10 \<longleftrightarrow> d mod 10 = (0 :: int)"
proof -
  have "(x + d * weights ! (k mod 3)) mod 10 = x mod 10 \<longleftrightarrow> 10 dvd d * weights ! (k mod 3)"
    by (simp add: mod_eq_dvd_iff)
  also have "\<dots> \<longleftrightarrow> 10 dvd d"
  proof -
    have "(10 :: int) dvd d * 7 \<longleftrightarrow> 10 dvd d" and "(10 :: int) dvd d * 3 \<longleftrightarrow> 10 dvd d"
      by presburger+
    with weights_cases [of k] show ?thesis by auto
  qed
  finally show ?thesis by (simp add: mod_eq_0_iff_dvd)
qed

lemma substitution_digit:
  assumes "i < length f" and "mrz_check_digit f = Some d" and "mrz_check_digit (f[i := c]) = Some d'"
  shows "d' = d \<longleftrightarrow> mrz_char_value c mod 10 = mrz_char_value (f ! i) mod 10"
proof -
  have "d' = d \<longleftrightarrow> weighted (f[i := c]) 0 mod 10 = weighted f 0 mod 10"
    using assms(2,3) by (auto simp: mrz_check_digit_eq digit_byte_eq_iff split: if_splits)
  also have "\<dots> \<longleftrightarrow> (mrz_char_value c - mrz_char_value (f ! i)) mod 10 = 0"
    by (simp add: weighted_update [OF assms(1)] weight_unit)
  also have "\<dots> \<longleftrightarrow> mrz_char_value c mod 10 = mrz_char_value (f ! i) mod 10"
    by (simp add: mod_eq_dvd_iff mod_eq_0_iff_dvd)
  finally show ?thesis .
qed

text \<open>Neighbouring weights differ by an even number that is no multiple of five.\<close>

lemma weight_step:
  "(x + a * (weights ! (k mod 3) - weights ! (Suc k mod 3))) mod 10 = x mod 10 \<longleftrightarrow> a mod 5 = (0 :: int)"
proof -
  have "k mod 3 < 3" by simp
  then have "k mod 3 = 0 \<or> k mod 3 = 1 \<or> k mod 3 = 2" by linarith
  then have step: "weights ! (k mod 3) - weights ! (Suc k mod 3) \<in> {4, 2, - 6}"
    by (auto simp: weights_def mod_Suc)
  have "(10 :: int) dvd a * 4 \<longleftrightarrow> 5 dvd a" and "(10 :: int) dvd a * 2 \<longleftrightarrow> 5 dvd a"
    and "(10 :: int) dvd a * (- 6) \<longleftrightarrow> 5 dvd a"
    by presburger+
  with step have "10 dvd a * (weights ! (k mod 3) - weights ! (Suc k mod 3)) \<longleftrightarrow> 5 dvd a" by auto
  then show ?thesis by (simp add: mod_eq_dvd_iff mod_eq_0_iff_dvd)
qed

lemma transposition_digit:
  assumes "Suc i < length f" and "mrz_check_digit f = Some d"
    and "mrz_check_digit (f[i := f ! Suc i, Suc i := f ! i]) = Some d'"
  shows "d' = d \<longleftrightarrow> mrz_char_value (f ! Suc i) mod 5 = mrz_char_value (f ! i) mod 5"
proof -
  let ?a = "mrz_char_value (f ! Suc i) - mrz_char_value (f ! i)"
  have "weighted (f[i := f ! Suc i, Suc i := f ! i]) 0 =
      weighted f 0 + ?a * (weights ! (i mod 3) - weights ! (Suc i mod 3))"
    using assms(1) by (simp add: weighted_update algebra_simps)
  moreover have "d' = d \<longleftrightarrow> weighted (f[i := f ! Suc i, Suc i := f ! i]) 0 mod 10 = weighted f 0 mod 10"
    using assms(2,3) by (auto simp: mrz_check_digit_eq digit_byte_eq_iff split: if_splits)
  ultimately have "d' = d \<longleftrightarrow> ?a mod 5 = 0" by (simp only: weight_step)
  then show ?thesis by (simp add: mod_eq_dvd_iff mod_eq_0_iff_dvd)
qed

text \<open>
  A check digit detects every misprint of one character whose value modulo ten
  differs, and every swap of neighbours whose values differ modulo five; and it detects
  no other: within those classes the wrong field has the same digit.
\<close>

theorem check_digit_detects:
  "(\<forall>f i c d d'. i < length f \<longrightarrow> mrz_check_digit f = Some d \<longrightarrow> mrz_check_digit (f[i := c]) = Some d' \<longrightarrow>
      (d' = d \<longleftrightarrow> mrz_char_value c mod 10 = mrz_char_value (f ! i) mod 10)) \<and>
   (\<forall>f i d d'. Suc i < length f \<longrightarrow> mrz_check_digit f = Some d \<longrightarrow>
      mrz_check_digit (f[i := f ! Suc i, Suc i := f ! i]) = Some d' \<longrightarrow>
      (d' = d \<longleftrightarrow> mrz_char_value (f ! Suc i) mod 5 = mrz_char_value (f ! i) mod 5))"
  using substitution_digit transposition_digit by blast

theorem check_digit_detects_witness:
  "mrz_check_digit (str ''L898902C'') \<noteq> mrz_check_digit (str ''L898902D'')
   \<and> mrz_check_digit (str ''AK'') = mrz_check_digit (str ''KA'')"
proof -
  have up: "(str ''L898902C'')[7 := 0x44] = str ''L898902D''"
    and sw: "(str ''AK'')[0 := str ''AK'' ! Suc 0, Suc 0 := str ''AK'' ! 0] = str ''KA''"
    by code_simp+
  have d: "mrz_check_digit (str ''L898902C'') = Some 0x33"
    and d': "mrz_check_digit (str ''L898902D'') = Some 0x36"
    and e: "mrz_check_digit (str ''AK'') = Some 0x30"
    and e': "mrz_check_digit (str ''KA'') = Some 0x30"
    by code_simp+
  have "(0x36 :: byte) = 0x33 \<longleftrightarrow> mrz_char_value 0x44 mod 10 = mrz_char_value (str ''L898902C'' ! 7) mod 10"
    using check_digit_detects [THEN conjunct1, rule_format, of 7 "str ''L898902C''" "0x33" "0x44" "0x36"] d d'
    by (simp add: up length_str)
  moreover have "mrz_char_value 0x44 mod 10 \<noteq> mrz_char_value (str ''L898902C'' ! 7) mod 10"
    by code_simp
  ultimately have one: "mrz_check_digit (str ''L898902C'') \<noteq> mrz_check_digit (str ''L898902D'')"
    using d d' by auto
  have "(0x30 :: byte) = 0x30 \<longleftrightarrow> mrz_char_value (str ''AK'' ! Suc 0) mod 5 = mrz_char_value (str ''AK'' ! 0) mod 5"
    using check_digit_detects [THEN conjunct2, rule_format, of 0 "str ''AK''" "0x30" "0x30"] e e'
    by (simp add: sw length_str)
  moreover have "mrz_char_value (str ''AK'' ! Suc 0) mod 5 = mrz_char_value (str ''AK'' ! 0) mod 5"
    by code_simp
  ultimately show ?thesis using one e e' by simp
qed

section \<open>The digest input\<close>

lemma mrz_info_Some:
  "mrz_info a b c = Some info \<longleftrightarrow> (\<exists>n dob ex d1 d2 d3. a = Some n \<and> b = Some dob \<and> c = Some ex
     \<and> 0 < length n \<and> length n \<le> 9 \<and> length dob = 6 \<and> length ex = 6
     \<and> mrz_check_digit (mrz_doc_field n) = Some d1 \<and> mrz_check_digit dob = Some d2
     \<and> mrz_check_digit ex = Some d3
     \<and> info = mrz_doc_field n @ [d1] @ dob @ [d2] @ ex @ [d3])"
  by (auto simp: mrz_info_def Let_def MRZ_DOC_NUMBER_LEN_def MRZ_DATE_LEN_def
      split: option.splits if_splits)

lemma length_mrz_doc_field: "length n \<le> 9 \<Longrightarrow> length (mrz_doc_field n) = 9"
  by (simp add: mrz_doc_field_def MRZ_DOC_NUMBER_LEN_def)

text \<open>
  The text that is hashed is always 24 bytes (the C buffer has 27), and two sets
  of fields give the same text only if they agree: in the padded, uppercased document
  number and in both dates.
\<close>

theorem mrz_info_injective:
  assumes "mrz_info a b c = Some info" and "mrz_info a' b' c' = Some info'"
  shows "length info = 24 \<and>
    (info = info' \<longleftrightarrow> map_option mrz_doc_field a = map_option mrz_doc_field a' \<and> b = b' \<and> c = c')"
  using assms by (auto simp: mrz_info_Some length_mrz_doc_field)

theorem mrz_info_injective_witness:
  "mrz_info (Some (str ''l898902c'')) (Some (str ''690806'')) (Some (str ''940623'')) =
   mrz_info (Some (str ''L898902C'')) (Some (str ''690806'')) (Some (str ''940623''))
   \<and> mrz_info (Some (str ''L898902C'')) (Some (str ''690806'')) (Some (str ''940623''))
     = Some (str ''L898902C<369080619406236'')"
proof -
  have low: "mrz_info (Some (str ''l898902c'')) (Some (str ''690806'')) (Some (str ''940623'')) =
      Some (str ''L898902C<369080619406236'')"
    and up: "mrz_info (Some (str ''L898902C'')) (Some (str ''690806'')) (Some (str ''940623'')) =
      Some (str ''L898902C<369080619406236'')"
    by code_simp+
  from mrz_info_injective [OF low up] low up show ?thesis by simp
qed

section \<open>A TD3 zone is read back\<close>

text \<open>A field right-padded with fill, and the name field of a passport.\<close>

definition mrz_fit :: "nat \<Rightarrow> bytes \<Rightarrow> bytes" where
  "mrz_fit n s = s @ replicate (n - length s) fill"

definition mrz_blanks :: "bytes \<Rightarrow> bytes" where
  "mrz_blanks s = map (\<lambda>c. if c = 0x20 then fill else c) s"

definition mrz_name :: "nat \<Rightarrow> bytes \<Rightarrow> bytes \<Rightarrow> bytes" where
  "mrz_name n sur giv = mrz_fit n (mrz_blanks sur @ [fill, fill] @ mrz_blanks giv)"

text \<open>A name the zone can carry: no fill, no blank at the end, no two blanks in a row.\<close>

definition mrz_name_ok :: "bytes \<Rightarrow> bool" where
  "mrz_name_ok s \<longleftrightarrow> fill \<notin> set s \<and> g_strchomp s = s
     \<and> (\<forall>i < length s - 1. \<not> (s ! i = 0x20 \<and> s ! (i + 1) = 0x20))"

lemma trim_fit:
  "fill \<notin> set s \<Longrightarrow> length s \<le> n \<Longrightarrow> mrz_trim_copy (mrz_fit n s @ rest) n (n + 1) = s"
  by (auto simp: mrz_trim_copy_def mrz_fit_def takeWhile_append)

lemma length_fit [simp]: "length s \<le> n \<Longrightarrow> length (mrz_fit n s) = n"
  by (simp add: mrz_fit_def)

lemma spaces_blanks [simp]: "fill \<notin> set s \<Longrightarrow> mrz_spaces (mrz_blanks s) = s"
  by (induction s) (auto simp: mrz_spaces_def mrz_blanks_def)

lemma length_blanks [simp]: "length (mrz_blanks s) = length s"
  by (simp add: mrz_blanks_def)

lemma mrz_spaces_append [simp]: "mrz_spaces (a @ b) = mrz_spaces a @ mrz_spaces b"
  by (simp add: mrz_spaces_def)

lemma mrz_spaces_Nil [simp]: "mrz_spaces [] = []"
  by (simp add: mrz_spaces_def)

lemma mrz_spaces_fill [simp]: "mrz_spaces (replicate n fill) = replicate n 0x20"
  by (simp add: mrz_spaces_def)

lemma dropWhile_blanks: "dropWhile g_ascii_isspace (replicate n 0x20 @ s) = dropWhile g_ascii_isspace s"
  by (induction n) (simp_all add: g_ascii_isspace_def)

lemma strchomp_spaces: "g_strchomp (s @ replicate n 0x20) = g_strchomp s"
  by (simp add: g_strchomp_def dropWhile_blanks)

lemma strchomp_last:
  assumes "g_strchomp s = s" and "s \<noteq> []"
  shows "last s \<noteq> 0x20"
proof
  assume "last s = 0x20"
  with assms(2) have s: "s = butlast s @ replicate 1 0x20"
    by (metis append_butlast_last_id One_nat_def replicate_0 replicate_Suc)
  then have "g_strchomp s = g_strchomp (butlast s)" by (metis strchomp_spaces)
  moreover have "length (g_strchomp (butlast s)) \<le> length (butlast s)"
    by (simp only: g_strchomp_def length_rev)
      (rule order_trans [OF length_dropWhile_le], simp)
  ultimately have "length s \<le> length (butlast s)" using assms(1) by (simp only:)
  moreover have "0 < length s" using assms(2) by simp
  ultimately show False by (simp only: length_butlast)
qed

lemma name_sep_at:
  assumes "k + 1 < len" and "field ! k = fill" and "field ! (k + 1) = fill"
    and "\<forall>i < k. \<not> (field ! i = fill \<and> field ! (i + 1) = fill)" and "j \<le> k"
  shows "mrz_name_sep field len j = k"
  using assms(5)
proof (induction "k - j" arbitrary: j)
  case 0
  then show ?case using assms(1-3) by (subst mrz_name_sep.simps) simp
next
  case (Suc d)
  then have "mrz_name_sep field len (j + 1) = k" by simp
  moreover have "j < k" using Suc.hyps(2) by simp
  ultimately show ?case using assms(1,4) by (subst mrz_name_sep.simps) simp
qed

lemma mrz_decode_name_fit:
  assumes sur: "mrz_name_ok sur" and giv: "mrz_name_ok giv"
    and len: "length sur + 2 + length giv \<le> n" and cap: "n \<le> 63"
  shows "mrz_decode_name (mrz_name n sur giv @ rest) n 64 64 = (sur, giv)"
proof -
  let ?pad = "replicate (n - (length sur + 2 + length giv)) fill"
  let ?f = "mrz_blanks sur @ [fill, fill] @ mrz_blanks giv @ ?pad @ rest"
  have f: "mrz_name n sur giv @ rest = ?f"
    by (simp add: mrz_name_def mrz_fit_def)
  have blank: "mrz_blanks sur ! i = fill \<longleftrightarrow> sur ! i = 0x20" if "i < length sur" for i
    using that sur nth_mem [of i sur] by (auto simp: mrz_blanks_def mrz_name_ok_def simp del: nth_mem)
  have before: "\<not> (?f ! i = fill \<and> ?f ! (i + 1) = fill)" if "i < length sur" for i
  proof (cases "i + 1 < length sur")
    case True
    with sur have "\<not> (sur ! i = 0x20 \<and> sur ! (i + 1) = 0x20)" by (simp add: mrz_name_ok_def)
    with True that show ?thesis by (simp add: nth_append blank)
  next
    case False
    with that have i: "i = length sur - 1" and "sur \<noteq> []" by auto
    then have "sur ! i \<noteq> 0x20" using sur by (metis last_conv_nth mrz_name_ok_def strchomp_last)
    with that show ?thesis by (simp add: nth_append blank)
  qed
  have sep: "mrz_name_sep ?f n 0 = length sur"
    by (rule name_sep_at) (use len before in \<open>auto simp: nth_append\<close>)
  have room: "\<not> n \<le> length sur + 1" and "length sur \<le> 63" and "n - (length sur + 2) \<le> 63"
    using len cap by auto
  then have cut: "min (length sur) (64 - 1) = length sur"
      "min (n - (length sur + 2)) (64 - 1) = n - (length sur + 2)" by auto
  have s: "take (length sur) ?f = mrz_blanks sur" by simp
  have g: "take (n - (length sur + 2)) (drop (length sur + 2) ?f) = mrz_blanks giv @ ?pad"
    using len by simp
  have chomp: "g_strchomp (giv @ replicate k 0x20) = giv" "g_strchomp sur = sur"
      "fill \<notin> set sur" "fill \<notin> set giv" for k
    using giv sur by (simp_all add: strchomp_spaces mrz_name_ok_def)
  have none: "giv = []" if "\<not> length sur + 2 < n" using that len by (cases giv) simp_all
  show ?thesis
    unfolding mrz_decode_name_def f Let_def sep if_not_P [OF room] cut s g
    by (auto simp: chomp none)
qed

text \<open>The two lines of a passport that shows the fields \<open>f\<close>, with correct check digits.\<close>

definition with_digit :: "bytes \<Rightarrow> bytes" where
  "with_digit s = s @ (case mrz_check_digit s of Some d \<Rightarrow> [d] | None \<Rightarrow> [fill])"

definition td3_zone :: "mrz_fields \<Rightarrow> bytes \<Rightarrow> bytes" where
  "td3_zone f optional =
     mrz_fit 2 (document_type f) @ mrz_fit 3 (issuing_state f)
     @ mrz_name 39 (surname f) (given_names f)
     @ with_digit (mrz_fit 9 (document_number f)) @ mrz_fit 3 (nationality f)
     @ with_digit (mrz_fit 6 (date_of_birth f)) @ sex f
     @ with_digit (mrz_fit 6 (date_of_expiry f)) @ optional"

definition td3_printable :: "mrz_fields \<Rightarrow> bool" where
  "td3_printable f \<longleftrightarrow>
     fill \<notin> set (document_type f) \<and> length (document_type f) \<le> 2
     \<and> fill \<notin> set (issuing_state f) \<and> length (issuing_state f) \<le> 3
     \<and> mrz_name_ok (surname f) \<and> mrz_name_ok (given_names f)
     \<and> length (surname f) + 2 + length (given_names f) \<le> 39
     \<and> fill \<notin> set (document_number f) \<and> length (document_number f) \<le> 9 \<and> mrz_chars (document_number f)
     \<and> fill \<notin> set (nationality f) \<and> length (nationality f) \<le> 3
     \<and> fill \<notin> set (date_of_birth f) \<and> length (date_of_birth f) \<le> 6 \<and> mrz_chars (date_of_birth f)
     \<and> nul_free (sex f) \<and> length (sex f) = 1
     \<and> fill \<notin> set (date_of_expiry f) \<and> length (date_of_expiry f) \<le> 6 \<and> mrz_chars (date_of_expiry f)"

lemma mrz_char_fill: "mrz_char_value fill = 0"
  by (simp add: mrz_char_value_def word_le_nat_alt)

lemma mrz_chars_fit: "mrz_chars s \<Longrightarrow> mrz_chars (mrz_fit n s)"
  by (auto simp: mrz_chars_def mrz_fit_def mrz_char_fill)

lemma with_digit_chars:
  assumes "mrz_chars s"
  shows "\<exists>d. with_digit (mrz_fit n s) = mrz_fit n s @ [d] \<and> mrz_check_digit (mrz_fit n s) = Some d"
  using mrz_chars_fit [OF assms, of n] by (simp add: with_digit_def mrz_check_digit_eq)

lemma field_ok_at:
  assumes "length pre = off" and "length s = n" and "mrz_check_digit s = Some d"
  shows "mrz_field_ok (pre @ s @ d # rest) off n"
  using assms by (auto simp: mrz_field_ok_def nth_append)

lemma parse_td3:
  assumes "length z = 88" and "mrz_decode_name (drop 5 z) 39 64 64 = (a, b)"
  shows "bac_parse_mrz_fields (Some z) =
    Some \<lparr>document_type = mrz_trim_copy z 2 3, issuing_state = mrz_trim_copy (drop 2 z) 3 4,
      surname = a, given_names = b, document_number = mrz_trim_copy (drop 44 z) 9 10,
      nationality = mrz_trim_copy (drop 54 z) 3 4, date_of_birth = mrz_trim_copy (drop 57 z) 6 7,
      sex = c_str [z ! 64], date_of_expiry = mrz_trim_copy (drop 65 z) 6 7,
      document_number_check_ok = mrz_field_ok z 44 9, date_of_birth_check_ok = mrz_field_ok z 57 6,
      date_of_expiry_check_ok = mrz_field_ok z 65 6\<rparr>"
  using assms by (simp add: bac_parse_mrz_fields_def MRZ_TD1_LEN_def MRZ_TD3_LEN_def)

text \<open>The zone laid out: what stands where the parser looks.\<close>

lemma td3_layout:
  assumes "length t = 2" "length i = 3" "length n = 39" "length d = 9" "length c = 3" "length b = 6" "length e = 6"
    and "length (optional :: bytes) = 16"
    and "z = t @ i @ n @ d @ [d1] @ c @ b @ [d2] @ [x] @ e @ [d3] @ optional"
  shows "length z = 88" and "z = t @ drop 2 z" and "drop 2 z = i @ drop 5 z" and "drop 5 z = n @ drop 44 z"
    and "drop 44 z = d @ drop 53 z" and "drop 54 z = c @ drop 57 z" and "drop 57 z = b @ drop 63 z"
    and "drop 65 z = e @ drop 71 z" and "z ! 64 = x"
  using assms by (simp_all add: nth_append)

lemma td3_checks:
  assumes "length t = 2" "length i = 3" "length n = 39" "length d = 9" "length c = 3" "length b = 6" "length e = 6"
    and "mrz_check_digit d = Some d1" "mrz_check_digit b = Some d2" "mrz_check_digit e = Some d3"
    and "z = t @ i @ n @ d @ [d1] @ c @ b @ [d2] @ [x] @ e @ [d3] @ optional"
  shows "mrz_field_ok z 44 9" and "mrz_field_ok z 57 6" and "mrz_field_ok z 65 6"
  using assms field_ok_at [of "t @ i @ n" 44 d 9 d1] field_ok_at [of "t @ i @ n @ d @ [d1] @ c" 57 b 6 d2]
    field_ok_at [of "t @ i @ n @ d @ [d1] @ c @ b @ [d2] @ [x]" 65 e 6 d3]
  by simp_all

text \<open>
  C31.  Every set of fields a passport can print is read back from its zone exactly, and all
  three check digits verify.
\<close>

theorem td3_zone_roundtrip:
  assumes p: "td3_printable f" and opt: "length optional = 16"
  shows "bac_parse_mrz_fields (Some (td3_zone f optional)) =
    Some (f\<lparr>document_number_check_ok := True, date_of_birth_check_ok := True, date_of_expiry_check_ok := True\<rparr>)"
proof -
  let ?t = "mrz_fit 2 (document_type f)" and ?i = "mrz_fit 3 (issuing_state f)"
  let ?n = "mrz_name 39 (surname f) (given_names f)"
  let ?d = "mrz_fit 9 (document_number f)" and ?c = "mrz_fit 3 (nationality f)"
  let ?b = "mrz_fit 6 (date_of_birth f)" and ?e = "mrz_fit 6 (date_of_expiry f)"
  obtain d1 where d1: "with_digit ?d = ?d @ [d1]" "mrz_check_digit ?d = Some d1"
    using p with_digit_chars by (auto simp: td3_printable_def)
  obtain d2 where d2: "with_digit ?b = ?b @ [d2]" "mrz_check_digit ?b = Some d2"
    using p with_digit_chars by (auto simp: td3_printable_def)
  obtain d3 where d3: "with_digit ?e = ?e @ [d3]" "mrz_check_digit ?e = Some d3"
    using p with_digit_chars by (auto simp: td3_printable_def)
  obtain x where x: "sex f = [x]" "x \<noteq> 0"
    using p by (auto simp: td3_printable_def nul_free_def length_Suc_conv One_nat_def)
  let ?z = "?t @ ?i @ ?n @ ?d @ [d1] @ ?c @ ?b @ [d2] @ [x] @ ?e @ [d3] @ optional"
  have zone: "td3_zone f optional = ?z"
    by (simp add: td3_zone_def d1 d2 d3 x)
  have len: "length ?t = 2" "length ?i = 3" "length ?n = 39" "length ?d = 9" "length ?c = 3"
      "length ?b = 6" "length ?e = 6"
    using p by (auto simp: td3_printable_def mrz_name_def)
  note at = td3_layout [OF len opt refl, of d1 d2 x d3] and ok = td3_checks [OF len d1(2) d2(2) d3(2) refl, of x optional]
  have name: "mrz_decode_name (?n @ drop 44 ?z) 39 64 64 = (surname f, given_names f)"
    using p by (intro mrz_decode_name_fit) (auto simp: td3_printable_def)
  have trim: "mrz_trim_copy (?t @ r) 2 3 = document_type f" "mrz_trim_copy (?i @ r) 3 4 = issuing_state f"
      "mrz_trim_copy (?d @ r) 9 10 = document_number f" "mrz_trim_copy (?c @ r) 3 4 = nationality f"
      "mrz_trim_copy (?b @ r) 6 7 = date_of_birth f" "mrz_trim_copy (?e @ r) 6 7 = date_of_expiry f" for r
    using p trim_fit [of _ 2 r] trim_fit [of _ 3 r] trim_fit [of _ 9 r] trim_fit [of _ 6 r]
    by (simp_all add: td3_printable_def)
  have name': "mrz_decode_name (drop 5 ?z) 39 64 64 = (surname f, given_names f)"
    by (subst at(4)) (rule name)
  have texts: "mrz_trim_copy ?z 2 3 = document_type f" "mrz_trim_copy (drop 2 ?z) 3 4 = issuing_state f"
      "mrz_trim_copy (drop 44 ?z) 9 10 = document_number f" "mrz_trim_copy (drop 54 ?z) 3 4 = nationality f"
      "mrz_trim_copy (drop 57 ?z) 6 7 = date_of_birth f" "mrz_trim_copy (drop 65 ?z) 6 7 = date_of_expiry f"
    by (subst at(2), rule trim, subst at(3), rule trim, subst at(5), rule trim, subst at(6), rule trim,
      subst at(7), rule trim, subst at(8), rule trim)
  have "bac_parse_mrz_fields (Some ?z) =
    Some \<lparr>document_type = document_type f, issuing_state = issuing_state f, surname = surname f,
      given_names = given_names f, document_number = document_number f, nationality = nationality f,
      date_of_birth = date_of_birth f, sex = [x], date_of_expiry = date_of_expiry f,
      document_number_check_ok = True, date_of_birth_check_ok = True, date_of_expiry_check_ok = True\<rparr>"
    by (simp only: parse_td3 [OF at(1) name'] texts at(9) ok) (simp add: x c_str_def)
  then show ?thesis by (simp add: zone x)
qed

definition specimen :: mrz_fields where
  "specimen = \<lparr>document_type = str ''P'', issuing_state = str ''UTO'', surname = str ''ERIKSSON'',
     given_names = str ''ANNA MARIA'', document_number = str ''L898902C3'', nationality = str ''UTO'',
     date_of_birth = str ''740812'', sex = str ''F'', date_of_expiry = str ''120415'',
     document_number_check_ok = True, date_of_birth_check_ok = True, date_of_expiry_check_ok = True\<rparr>"

text \<open>The specimen of ICAO 9303-4 (the optional data with its check digits is arbitrary here).\<close>

theorem td3_zone_roundtrip_witness:
  "bac_parse_mrz_fields (Some (str (''P<UTOERIKSSON<<ANNA<MARIA<<<<<<<<<<<<<<<<<<<''
     @ ''L898902C36UTO7408122F1204159ZE184226B<<<<<10''))) = Some specimen"
proof -
  have zone: "td3_zone specimen (str ''ZE184226B<<<<<10'') =
      str (''P<UTOERIKSSON<<ANNA<MARIA<<<<<<<<<<<<<<<<<<<'' @ ''L898902C36UTO7408122F1204159ZE184226B<<<<<10'')"
    and ok: "td3_printable specimen" and opt: "length (str ''ZE184226B<<<<<10'') = 16"
    by code_simp+
  from td3_zone_roundtrip [OF ok opt] show ?thesis by (simp add: zone) (simp add: specimen_def)
qed

section \<open>EF.DG1 and EF.DG2\<close>

text \<open>
  Whatever bytes a chip returns as EF.DG1, reading the MRZ out of them never leaves
  the buffer; and a well-formed file yields exactly its MRZ text.
\<close>

theorem dg1_read_in_bounds: "bac_parse_dg1_mrz dg1 \<noteq> Undefined"
proof -
  have outer: "bac_ber_tlv_header dg1 0 (length dg1) \<noteq> Undefined"
    by (rule ber_header_defined) simp
  have inner: "Suc (Suc pos) \<le> length dg1 \<Longrightarrow>
      (ber_length dg1 (Suc (Suc pos)) (length dg1 - Suc (Suc pos)) = Undefined) = False" for pos
    using ber_length_defined [of "Suc (Suc pos)" "length dg1 - Suc (Suc pos)" dg1] by simp
  show ?thesis
    using outer by (auto simp: bac_parse_dg1_mrz_def Let_def read_or_Undefined rd_None_iff rd_n_def not_less
        inner split: if_splits outcome.splits)
qed

definition dg1_file :: "bytes \<Rightarrow> bytes" where
  "dg1_file mrz = tlv 0x61 ([0x5F, 0x1F] @ ber_enc (length mrz) @ mrz)"

lemma dg1_file_parses:
  assumes "nul_free mrz" and "length mrz < 65530"
  shows "bac_parse_dg1_mrz (dg1_file mrz) = Parsed mrz"
proof -
  let ?in = "[0x5F, 0x1F] @ ber_enc (length mrz) @ mrz" and ?f = "dg1_file mrz"
  have le3: "length (ber_enc n) \<le> 3" for n by (simp add: ber_enc_def)
  have small: "length ?in < 65536" using assms(2) le3 [of "length mrz"] by simp
  have f: "?f = 0x61 # ber_enc (length ?in) @ ?in" by (simp add: dg1_file_def tlv_def)
  let ?h = "1 + length (ber_enc (length ?in))"
  have outer: "bac_ber_tlv_header ?f 0 (length ?f) = Parsed (?h, length ?in)"
    using ber_length_enc [OF small, of 1 ?f ?in "length ?f - 1"]
    by (simp add: bac_ber_tlv_header_def f ber_enc_nonempty Suc_le_eq)
  have at: "drop ?h ?f = ?in" by (simp add: f)
  then have tags: "?f ! ?h = 0x5F" "?f ! (?h + 1) = 0x1F"
    by (simp_all add: f nth_append)
  have inner: "ber_length ?f (?h + 2) (length ?f - ?h - 2) = Parsed (length (ber_enc (length mrz)), length mrz)"
    by (rule ber_length_enc [where rest = mrz]) (use assms(2) in \<open>simp_all add: f\<close>)
  have rest: "drop (?h + (2 + length (ber_enc (length mrz)))) ?f = mrz"
    by (simp add: f)
  have len: "length ?f = ?h + length ?in" by (simp add: f)
  show ?thesis
    using outer inner tags rest len assms(1)
    by (simp add: bac_parse_dg1_mrz_def Let_def del: One_nat_def) (simp add: f)
qed

text \<open>A well-formed EF.DG1 yields exactly the MRZ text it holds.\<close>

theorem dg1_file_roundtrip:
  assumes "nul_free mrz" and "length mrz < 65530"
  shows "bac_parse_dg1_mrz (dg1_file mrz) = Parsed mrz"
  using assms by (rule dg1_file_parses)

theorem dg1_file_roundtrip_witness:
  "bac_parse_dg1_mrz ([0x61, 0x08, 0x5F, 0x1F, 0x05] @ str ''P<UTO'') = Parsed (str ''P<UTO'')"
proof -
  have content: "dg1_file (str ''P<UTO'') = [0x61, 0x08, 0x5F, 0x1F, 0x05] @ str ''P<UTO''"
    and ok: "nul_free (str ''P<UTO'')" "length (str ''P<UTO'') < 65530"
    by code_simp+
  from dg1_file_roundtrip [OF ok] show ?thesis by (simp only: content)
qed

definition occurs :: "bytes \<Rightarrow> bytes \<Rightarrow> bool" where
  "occurs needle haystack \<longleftrightarrow> (\<exists>pre suf. haystack = pre @ needle @ suf)"

lemma occurs_at: "occurs needle haystack \<longleftrightarrow>
    (\<exists>n. n + length needle \<le> length haystack \<and> take (length needle) (drop n haystack) = needle)"
proof
  assume "occurs needle haystack"
  then obtain pre suf where "haystack = pre @ needle @ suf" by (auto simp: occurs_def)
  then show "\<exists>n. n + length needle \<le> length haystack \<and> take (length needle) (drop n haystack) = needle"
    by (intro exI [of _ "length pre"]) simp
next
  assume "\<exists>n. n + length needle \<le> length haystack \<and> take (length needle) (drop n haystack) = needle"
  then show "occurs needle haystack"
    unfolding occurs_def by (metis append_take_drop_id)
qed

lemma find_bytes_Some:
  assumes "find_bytes h needle = Some p"
  shows "p + length needle \<le> length h \<and> take (length needle) (drop p h) = needle
    \<and> (\<forall>n < p. take (length needle) (drop n h) \<noteq> needle)"
proof -
  have len: "length needle \<le> length h"
    and "List.find (\<lambda>n. take (length needle) (drop n h) = needle) [0..<length h - length needle + 1] = Some p"
    using assms by (auto simp: find_bytes_def split: if_splits)
  then obtain i where i: "i < length h - length needle + 1" "p = i"
    and here: "take (length needle) (drop p h) = needle"
    and before: "\<forall>j < i. take (length needle) (drop ([0..<length h - length needle + 1] ! j) h) \<noteq> needle"
    by (auto simp: find_Some_iff simp del: upt_Suc)
  from before i have "\<forall>n < p. take (length needle) (drop n h) \<noteq> needle"
    by (simp del: upt_Suc)
  with len i here show ?thesis by auto
qed

lemma find_bytes_None: "needle \<noteq> [] \<Longrightarrow> find_bytes h needle = None \<longleftrightarrow> \<not> occurs needle h"
proof
  assume ne: "needle \<noteq> []" and none: "find_bytes h needle = None"
  show "\<not> occurs needle h"
  proof
    assume "occurs needle h"
    then obtain n where n: "n + length needle \<le> length h" "take (length needle) (drop n h) = needle"
      by (auto simp: occurs_at)
    then have "n \<in> set [0..<length h - length needle + 1]" by auto
    with none ne n show False
      by (auto simp: find_bytes_def find_None_iff split: if_splits)
  qed
next
  assume "needle \<noteq> []" and "\<not> occurs needle h"
  then show "find_bytes h needle = None"
    using find_bytes_Some [of h needle] by (cases "find_bytes h needle") (auto simp: occurs_at)
qed

lemma find_bytes_split:
  assumes "find_bytes dg m = Some p"
  shows "\<exists>pre rest. dg = pre @ drop p dg \<and> drop p dg = m @ rest
      \<and> (\<forall>n < length pre. take (length m) (drop n dg) \<noteq> m)"
proof (intro exI conjI)
  have p: "p \<le> length dg" "take (length m) (drop p dg) = m"
    and before: "\<forall>n < p. take (length m) (drop n dg) \<noteq> m"
    using find_bytes_Some [OF assms] by auto
  show "dg = take p dg @ drop p dg" by simp
  show "drop p dg = m @ drop (length m) (drop p dg)"
    using p(2) append_take_drop_id [of "length m" "drop p dg"] by (simp only:)
  show "\<forall>n < length (take p dg). take (length m) (drop n dg) \<noteq> m" using before p(1) by simp
qed

lemma magics_not_empty: "jpeg_magic \<noteq> []" "jp2_magic \<noteq> []" "jp2_codestream_magic \<noteq> []"
  by (simp_all add: jpeg_magic_def jp2_magic_def jp2_codestream_magic_def)



end
