(* ===== verification/Passport_Run.thy ===== *)
theory Passport_Run
  imports Passport_Success Mrz_Facts
begin

text \<open>
  A passport read against an honest document: a chip that holds the same access keys and
  follows ICAO 9303 is read to the end, and the caller gets the MRZ the document holds.
\<close>

section \<open>The document's side\<close>

definition answer :: "bytes \<Rightarrow> passport_event" where
  "answer resp = \<lparr>result = Some resp, rand8 = None, rand16 = None, scalar = None\<rparr>"

text \<open>
  The protected responses a chip sends to a sequence of protected commands, with the data
  it has for each; \<open>s\<close> is the session after the first command.  Both sides count each
  command and each response.
\<close>

fun chip_replies :: "openssl \<Rightarrow> bac_session \<Rightarrow> bytes option list \<Rightarrow> bytes list" where
  "chip_replies ossl s [] = []"
| "chip_replies ossl s (p # ps) =
     (case bac_chip_reply ossl s p 0x90 0x00 [0x90, 0x00] of
        None \<Rightarrow> []
      | Some r \<Rightarrow> r # chip_replies ossl (bac_next (bac_next s)) ps)"

text \<open>The pieces in which READ BINARY delivers a file: at most 255 bytes each.\<close>

function file_chunks :: "bytes \<Rightarrow> bytes list" where
  "file_chunks xs = (if xs = [] then [] else take 255 xs # file_chunks (drop 255 xs))"
  by auto
termination
  by (relation "measure length") auto

declare file_chunks.simps [simp del]

section \<open>Protected exchanges\<close>

lemma bac_next_ok [simp]: "bac_session_ok (bac_next s) = bac_session_ok s"
  by (simp add: bac_session_ok_def bac_next_def)

lemma protect_ready:
  assumes "cipher_works (e_ossl env)" "\<not> use_pace r" "bac_session_ok (pr_session r)"
    "length data \<le> 223" "le \<le> 255"
  shows "\<exists>apdu. passport_sm_protect env r cla ins p1 p2 data le =
    (r\<lparr>pr_session := bac_next (pr_session r)\<rparr>, Some apdu)"
proof -
  let ?c = "\<lparr>c_cla = cla, c_ins = ins, c_p1 = p1, c_p2 = p2, c_data = data, c_le = le\<rparr>"
  have "\<exists>apdu. bac_protect (e_ossl env) (pr_session r) ?c = (bac_next (pr_session r), Some apdu)"
    using bac_protect_shape [OF assms(1,3), of ?c] assms(4,5) by (auto simp: Let_def bac_next_def)
  then show ?thesis
    using assms(2) by (auto simp: bac_protect_def passport_sm_protect_def)
qed

lemma reply_ready:
  assumes works: "cipher_works ossl" and ok: "bac_session_ok s"
    and p: "case p of None \<Rightarrow> True | Some pt \<Rightarrow> length pt < 65000"
  obtains resp where "bac_chip_reply ossl s p 0x90 0x00 [0x90, 0x00] = Some resp"
    "bac_sm_unprotect ossl s resp = (bac_next s, SM_Accepted p 0x9000)"
  using bac_reply_transfer [OF works ok p, of "0x90" "0x90" "0x00" "0x00"] that
  by (auto simp: bac_next_def)

lemma response_ready:
  assumes "\<not> use_pace r" "bac_sm_unprotect (e_ossl env) (pr_session r) resp = (bac_next (pr_session r), SM_Accepted p 0x9000)"
  shows "passport_sm_response_ok env r resp = (r\<lparr>pr_session := bac_next (pr_session r)\<rparr>, SmData p)"
  using assms by (simp add: passport_sm_response_ok_def)

lemma gsub_le: "b \<le> a \<Longrightarrow> a < 2 ^ w \<Longrightarrow> gsub w a b = a - b"
proof -
  assume "b \<le> a" "a < 2 ^ w"
  then have "int (a - b) < 2 ^ w" by (metis less_imp_diff_less of_nat_less_iff of_nat_numeral of_nat_power)
  then show ?thesis using \<open>b \<le> a\<close> by (simp add: gsub_def of_nat_diff flip: of_nat_diff)
qed

section \<open>Reading DG1\<close>

definition delivers :: "bytes \<Rightarrow> 'g passport_read \<times> passport_out list \<Rightarrow> bool" where
  "delivers m res \<longleftrightarrow> OutReply True None
     (Some \<lparr>mrz_text = m, mrz_parsed = bac_parse_mrz_fields (Some m), photo = None\<rparr>) \<in> set (snd res)"

lemma delivers_run_Cons:
  "delivers m (step s e) \<or> delivers m (run step (fst (step s e)) es) \<Longrightarrow> delivers m (run step s (e # es))"
  by (auto simp: delivers_def run_snd_Cons simp del: run.simps)

text \<open>What is fixed while an honest file is read over BAC without a photo.\<close>

definition honest_read :: "('g, 'p) crypto_env \<Rightarrow> bytes \<Rightarrow> bytes \<Rightarrow> 'g passport_read \<Rightarrow> bool" where
  "honest_read env contents m r \<longleftrightarrow> \<not> use_pace r \<and> bac_session_ok (pr_session r) \<and> \<not> read_photo r \<and> dg2 r = None
     \<and> cipher_works (e_ossl env) \<and> length contents \<le> 2048 \<and> (2048 :: nat) < 2 ^ e_width env
     \<and> bac_parse_dg1_mrz contents = Parsed m"

lemma read_more_done:
  assumes "honest_read env contents m r" "dg1 r = contents" "dg1_total_len r = length contents"
  shows "delivers m (passport_dg1_read_more env r)"
  using assms by (simp add: honest_read_def passport_dg1_read_more_def gsub_le delivers_def
      passport_build_result_and_finish_def passport_read_finish_def)

text \<open>Anything left, as the subtraction counts it: one more READ BINARY.\<close>

lemma read_more_asks:
  assumes "cipher_works (e_ossl env)" "\<not> use_pace r" "bac_session_ok (pr_session r)"
    "gsub (e_width env) (dg1_total_len r) (length (dg1 r)) \<noteq> 0"
  shows "\<exists>apdu. passport_dg1_read_more env r =
    (r\<lparr>pr_session := bac_next (pr_session r), pr_stage := P_Dg1\<rparr>, [OutTransceive apdu])"
  using protect_ready [OF assms(1-3), of "[]" "int (min (gsub (e_width env) (dg1_total_len r) (length (dg1 r))) 255)"
      "0x00" "0xB0" "byte_of (length (dg1 r) div 256)" "byte_of (length (dg1 r) mod 256)"] assms(4)
  by (auto simp: passport_dg1_read_more_def passport_transceive_def Let_def)

lemma read_more_next:
  assumes "honest_read env contents m r" "dg1 r = take off contents" "dg1_total_len r = length contents" "off < length contents"
  obtains apdu where "passport_dg1_read_more env r =
    (r\<lparr>pr_session := bac_next (pr_session r), pr_stage := P_Dg1\<rparr>, [OutTransceive apdu])"
proof -
  have "gsub (e_width env) (dg1_total_len r) (length (dg1 r)) \<noteq> 0"
    using assms by (simp add: honest_read_def gsub_le)
  then show thesis using read_more_asks [of env r] assms(1) that by (auto simp: honest_read_def)
qed

lemma dg1_loop:
  assumes "honest_read env contents m r" "pr_stage r = P_Dg1" "dg1 r = take off contents"
    "dg1_total_len r = length contents" "off < length contents"
  shows "delivers m (run (passport_step env) r
    (map answer (chip_replies (e_ossl env) (pr_session r) (map Some (file_chunks (drop off contents))))))"
  using assms
proof (induction "length contents - off" arbitrary: r off rule: less_induct)
  case less
  let ?s = "pr_session r" and ?chunk = "take 255 (drop off contents)"
  have works: "cipher_works (e_ossl env)" "bac_session_ok ?s" "\<not> use_pace r"
    using less.prems(1) by (simp_all add: honest_read_def)
  obtain resp where resp: "bac_chip_reply (e_ossl env) ?s (Some ?chunk) 0x90 0x00 [0x90, 0x00] = Some resp"
    and acc: "bac_sm_unprotect (e_ossl env) ?s resp = (bac_next ?s, SM_Accepted (Some ?chunk) 0x9000)"
    by (rule reply_ready [OF works(1,2)]) (auto simp: min_less_iff_disj)
  define r1 where "r1 = r\<lparr>pr_session := bac_next ?s, dg1 := dg1 r @ ?chunk\<rparr>"
  have ok1: "honest_read env contents m r1" using less.prems(1) by (simp add: honest_read_def r1_def)
  have dg1: "dg1 r1 = take (off + 255) contents" "dg1_total_len r1 = length contents"
    using less.prems by (simp_all add: r1_def take_add)
  have step: "passport_step env r (answer resp) = passport_dg1_read_more env r1"
    using less.prems(2,4,5) response_ready [OF works(3) acc]
    by (auto simp: passport_step_def passport_dg1_rest_ready_def answer_def r1_def Let_def)
  have evs: "map answer (chip_replies (e_ossl env) ?s (map Some (file_chunks (drop off contents)))) =
      answer resp # map answer (chip_replies (e_ossl env) (bac_next (bac_next ?s))
        (map Some (file_chunks (drop (off + 255) contents))))"
    using less.prems(5) resp by (simp add: file_chunks.simps [of "drop off contents"] add.commute)
  show ?case
  proof (cases "off + 255 < length contents")
    case True
    from read_more_next [OF ok1 dg1 True] obtain apdu where next_read: "passport_dg1_read_more env r1 =
        (r1\<lparr>pr_session := bac_next (pr_session r1), pr_stage := P_Dg1\<rparr>, [OutTransceive apdu])" .
    let ?r2 = "r1\<lparr>pr_session := bac_next (pr_session r1), pr_stage := P_Dg1\<rparr>"
    have "delivers m (run (passport_step env) ?r2 (map answer (chip_replies (e_ossl env) (pr_session ?r2)
        (map Some (file_chunks (drop (off + 255) contents))))))"
      using less.prems(5) ok1 dg1 True by (intro less.hyps) (auto simp: honest_read_def)
    moreover have "pr_session ?r2 = bac_next (bac_next ?s)" by (simp add: r1_def)
    ultimately show ?thesis
      unfolding evs by (intro delivers_run_Cons disjI2) (simp only: step next_read fst_conv)
  next
    case False
    with dg1(1) have "dg1 r1 = contents" by simp
    from read_more_done [OF ok1 this dg1(2)] show ?thesis
      unfolding evs by (intro delivers_run_Cons disjI1) (simp add: step)
  qed
qed

section \<open>The whole read\<close>

text \<open>The first four bytes tell how long the file is.\<close>

lemma tlv_prefix_header:
  assumes "length c < 65536" "4 \<le> length (tlv t c)"
  shows "bac_ber_tlv_header (take 4 (tlv t c)) 0 4 = Parsed (1 + length (ber_enc (length c)), length c)"
    "1 + length (ber_enc (length c)) + length c = length (tlv t c)"
proof -
  have le3: "length (ber_enc (length c)) \<le> 3" by (simp add: ber_enc_def)
  then have "take 4 (tlv t c) = t # ber_enc (length c) @ take (3 - length (ber_enc (length c))) c"
    by (simp add: tlv_def take_Cons')
  with le3 have "ber_length (take 4 (tlv t c)) 1 3 = Parsed (length (ber_enc (length c)), length c)"
    by (intro ber_length_enc [OF assms(1)]) simp_all
  then show "bac_ber_tlv_header (take 4 (tlv t c)) 0 4 = Parsed (1 + length (ber_enc (length c)), length c)"
    by (simp add: bac_ber_tlv_header_def)
qed (simp add: tlv_def)

text \<open>The results of the D-Bus calls of a read over BAC, as an honest daemon and document give them.\<close>

definition honest_bac_events ::
    "openssl \<Rightarrow> bac_static_keys \<Rightarrow> bytes \<Rightarrow> bytes \<Rightarrow> bytes \<Rightarrow> bytes \<Rightarrow> bytes \<Rightarrow> passport_event list" where
  "honest_bac_events ossl keys rnd_icc k_icc rnd k contents =
     [answer [], answer [], answer [0x90, 0x00],
      \<lparr>result = Some (rnd_icc @ [0x90, 0x00]), rand8 = Some rnd, rand16 = Some k, scalar = None\<rparr>]
     @ (case bac_build_mutual_authenticate ossl keys rnd_icc (Some rnd) (Some k) of
          None \<Rightarrow> []
        | Some (apdu, _) \<Rightarrow>
            (case chip_mutual_authenticate ossl keys rnd_icc k_icc apdu of
               None \<Rightarrow> []
             | Some (resp, s) \<Rightarrow>
                 map answer ((resp @ [0x90, 0x00]) # chip_replies ossl (bac_next s)
                   (None # Some (take 4 contents) # map Some (file_chunks (drop 4 contents))))))"

lemma processed_session_ok:
  assumes "bac_process_mutual_authenticate_response ossl keys chal rnd_icc resp = Some s"
    "digest_sizes ossl" "length rnd_icc = 8" "length (rnd_ifd chal) = 8"
  shows "bac_session_ok s" "length resp = 40"
  using assms by (auto simp: bac_process_mutual_authenticate_response_def Let_def bac_session_ok_def length_kdf
      split: option.splits if_splits)

lemma raw_ok [simp]: "passport_raw_response_ok (d @ [0x90, 0x00]) (length d) = Some d"
  by (simp add: passport_raw_response_ok_def nth_append)

lemma raw_ok_len: "length d = n \<Longrightarrow> passport_raw_response_ok (d @ [0x90, 0x00]) n = Some d"
  using raw_ok by blast

lemma delivers_append:
  "delivers m (run step (fst (run step s es)) fs) \<Longrightarrow> delivers m (run step s (es @ fs))"
  by (auto simp: delivers_def run_append Let_def split: prod.splits)

lemma fst_run_append: "fst (run step s (es @ fs)) = fst (run step (fst (run step s es)) fs)"
  by (simp add: run_append Let_def split: prod.splits)

text \<open>Up to the first protected command.\<close>

lemma bac_prologue:
  fixes r :: "'g passport_read"
  assumes works: "cipher_works (e_ossl env)" and r: "pr_stage r = P_Proxy" "\<not> use_pace r" "pr_keys r = keys"
    and build: "bac_build_mutual_authenticate (e_ossl env) keys rnd_icc (Some rnd) (Some k) = Some (apdu, chal)"
    and proc: "bac_process_mutual_authenticate_response (e_ossl env) keys chal rnd_icc resp = Some s"
    and ok: "bac_session_ok s" and len: "length rnd_icc = 8" "length resp = 40"
  shows "fst (run (passport_step env) r [answer [], answer [], answer [0x90, 0x00],
      \<lparr>result = Some (rnd_icc @ [0x90, 0x00]), rand8 = Some rnd, rand16 = Some k, scalar = None\<rparr>,
      answer (resp @ [0x90, 0x00])]) =
    r\<lparr>has_tag := True, acquired := True, pr_rnd_icc := rnd_icc, pr_challenge := chal,
      pr_session := bac_next s, pr_stage := P_SelectDg1\<rparr>"
proof -
  define r1 where "r1 = r\<lparr>has_tag := True, pr_stage := P_Acquire\<rparr>"
  define r2 where "r2 = r1\<lparr>acquired := True, pr_stage := P_SelectAid\<rparr>"
  define r3 where "r3 = r2\<lparr>pr_stage := P_GetChallenge\<rparr>"
  define r4 where "r4 = r3\<lparr>pr_rnd_icc := rnd_icc, pr_challenge := chal, pr_stage := P_MutualAuth\<rparr>"
  define r5 where "r5 = r4\<lparr>pr_session := bac_next s, pr_stage := P_SelectDg1\<rparr>"
  let ?c = "\<lparr>c_cla = 0x00, c_ins = 0xA4, c_p1 = 0x02, c_p2 = 0x0C, c_data = [0x01, 0x01], c_le = - 1\<rparr>"
  have "\<exists>a. bac_protect (e_ossl env) s ?c = (bac_next s, Some a)"
    using bac_protect_shape [OF works ok, of ?c] by (auto simp: Let_def bac_next_def)
  then obtain a where a: "bac_sm_protect (e_ossl env) s 0x00 0xA4 0x02 0x0C [0x01, 0x01] (- 1) = (bac_next s, Some a)"
    by (auto simp: bac_protect_def)
  note steps = passport_step_def answer_def passport_transceive_def
  have s1: "fst (passport_step env r (answer [])) = r1"
    using r by (simp add: steps passport_tag_proxy_ready_def r1_def)
  have s2: "fst (passport_step env r1 (answer [])) = r2"
    using r by (simp add: steps passport_acquire_ready_def r1_def r2_def)
  have s3: "fst (passport_step env r2 (answer [0x90, 0x00])) = r3"
    using raw_ok [of "[]"] by (simp add: steps passport_select_aid_ready_def r2_def r3_def)
  have s4: "fst (passport_step env r3
      \<lparr>result = Some (rnd_icc @ [0x90, 0x00]), rand8 = Some rnd, rand16 = Some k, scalar = None\<rparr>) = r4"
    using raw_ok_len [OF len(1)] build r
    by (simp add: steps passport_get_challenge_ready_def r1_def r2_def r3_def r4_def)
  have s5: "fst (passport_step env r4 (answer (resp @ [0x90, 0x00]))) = r5"
    using raw_ok_len [OF len(2)] proc a r
    by (simp add: steps passport_mutual_auth_ready_def r1_def r2_def r3_def r4_def r5_def)
  show ?thesis
    by (simp only: run_fst_Cons s1 s2 s3 s4 s5 run.simps(1) fst_conv)
      (simp add: r1_def r2_def r3_def r4_def r5_def)
qed

text \<open>The answers to SELECT EF.DG1 and to the first READ BINARY, whatever \<open>h\<close> that returns.\<close>

lemma dg1_first_chunk:
  assumes works: "cipher_works (e_ossl env)" "bac_session_ok (pr_session r)" "\<not> use_pace r"
    and start: "pr_stage r = P_SelectDg1" "dg1_total_len r = 0"
    and h: "length h < 65000" "bac_ber_tlv_header h 0 (length h) = Parsed (hl, cl)" "hl + cl \<le> 2048"
  obtains a0 a1 where
    "\<And>ps. chip_replies (e_ossl env) (pr_session r) (None # Some h # ps) =
       a0 # a1 # chip_replies (e_ossl env) (bac_next (bac_next (bac_next (bac_next (pr_session r))))) ps"
    "passport_step env (fst (passport_step env r (answer a0))) (answer a1) =
       passport_dg1_read_more env (r\<lparr>pr_stage := P_Dg1,
         pr_session := bac_next (bac_next (bac_next (pr_session r))), dg1 := h, dg1_total_len := hl + cl\<rparr>)"
proof -
  let ?o = "e_ossl env" and ?s = "pr_session r"
  obtain a0 where a0: "bac_chip_reply ?o ?s None 0x90 0x00 [0x90, 0x00] = Some a0"
    and acc0: "bac_sm_unprotect ?o ?s a0 = (bac_next ?s, SM_Accepted None 0x9000)"
    by (rule reply_ready [OF works(1,2), where p = None]) simp_all
  define r1 where "r1 = r\<lparr>pr_session := bac_next (bac_next ?s), dg1 := [], pr_stage := P_Dg1\<rparr>"
  let ?q = "r\<lparr>pr_session := bac_next ?s, dg1 := []\<rparr>"
  obtain c0 where c0: "passport_sm_protect env ?q 0x00 0xB0 0x00 0x00 [] 4 =
      (?q\<lparr>pr_session := bac_next (pr_session ?q)\<rparr>, Some c0)"
    using protect_ready [of env ?q "[]" 4 "0x00" "0xB0" "0x00" "0x00"] works by auto
  have s1: "fst (passport_step env r (answer a0)) = r1"
    using start(1) response_ready [OF works(3) acc0] c0
    by (simp add: passport_step_def passport_select_dg1_ready_def answer_def passport_transceive_def r1_def)
  let ?s1 = "pr_session r1"
  have works1: "bac_session_ok ?s1" "\<not> use_pace r1" using works by (simp_all add: r1_def)
  obtain a1 where a1: "bac_chip_reply ?o ?s1 (Some h) 0x90 0x00 [0x90, 0x00] = Some a1"
    and acc1: "bac_sm_unprotect ?o ?s1 a1 = (bac_next ?s1, SM_Accepted (Some h) 0x9000)"
    by (rule reply_ready [OF works(1) works1(1), where p = "Some h"]) (simp_all add: h(1))
  have s2: "passport_step env r1 (answer a1) = passport_dg1_read_more env (r\<lparr>pr_stage := P_Dg1,
      pr_session := bac_next ?s1, dg1 := h, dg1_total_len := hl + cl\<rparr>)"
    using start(2) response_ready [OF works1(2) acc1] h(2,3)
    by (auto simp: passport_step_def passport_dg1_rest_ready_def answer_def r1_def Let_def PASSPORT_DG1_MAX_LEN_def)
  show thesis by (rule that [of a0 a1]) (use a0 a1 s2 in \<open>simp_all add: s1\<close>, simp_all add: r1_def)
qed

text \<open>From the answer to SELECT EF.DG1 on.\<close>

lemma bac_dg1_part:
  assumes "honest_read env (tlv t c) m r" "pr_stage r = P_SelectDg1" "dg1_total_len r = 0" "4 < length (tlv t c)"
  shows "delivers m (run (passport_step env) r (map answer (chip_replies (e_ossl env) (pr_session r)
    (None # Some (take 4 (tlv t c)) # map Some (file_chunks (drop 4 (tlv t c)))))))"
proof -
  let ?f = "tlv t c" and ?h = "take 4 (tlv t c)" and ?o = "e_ossl env" and ?hl = "1 + length (ber_enc (length c))"
  have works: "cipher_works ?o" "bac_session_ok (pr_session r)" "\<not> use_pace r"
    and small: "length c < 65536" "length ?f \<le> 2048"
    using assms(1) by (simp_all add: honest_read_def tlv_def)
  have hdr: "bac_ber_tlv_header ?h 0 (length ?h) = Parsed (?hl, length c)" and total: "?hl + length c = length ?f"
    using tlv_prefix_header [OF small(1), of t] assms(4) by simp_all
  define r2 where "r2 = r\<lparr>pr_stage := P_Dg1,
      pr_session := bac_next (bac_next (bac_next (pr_session r))), dg1 := ?h, dg1_total_len := ?hl + length c\<rparr>"
  obtain a0 a1 where evs: "\<And>ps. chip_replies ?o (pr_session r) (None # Some ?h # ps) =
       a0 # a1 # chip_replies ?o (bac_next (bac_next (bac_next (bac_next (pr_session r))))) ps"
    and step: "passport_step env (fst (passport_step env r (answer a0))) (answer a1) = passport_dg1_read_more env r2"
    unfolding r2_def by (rule dg1_first_chunk [OF works assms(2,3) _ hdr]) (use small total in auto)
  have ok2: "honest_read env ?f m r2" using assms(1) by (simp add: honest_read_def r2_def)
  obtain c2 where c2: "passport_dg1_read_more env r2 =
      (r2\<lparr>pr_session := bac_next (pr_session r2), pr_stage := P_Dg1\<rparr>, [OutTransceive c2])"
    by (rule read_more_next [OF ok2, of 4]) (use assms(4) total in \<open>simp_all add: r2_def\<close>)
  let ?r3 = "r2\<lparr>pr_session := bac_next (pr_session r2), pr_stage := P_Dg1\<rparr>"
  have "delivers m (run (passport_step env) ?r3 (map answer (chip_replies ?o (pr_session ?r3)
      (map Some (file_chunks (drop 4 ?f))))))"
    by (rule dg1_loop [where contents = ?f]) (use ok2 assms(4) total in \<open>simp_all add: r2_def honest_read_def\<close>)
  moreover have "pr_session ?r3 = bac_next (bac_next (bac_next (bac_next (pr_session r))))" by (simp add: r2_def)
  ultimately show ?thesis
    unfolding evs list.map by (intro delivers_run_Cons disjI2) (simp only: step c2 fst_conv)
qed

lemma bac_read_completes:
  fixes env :: "('g, 'p) crypto_env"
  assumes lib: "cipher_works (e_ossl env)" "digest_sizes (e_ossl env)" and width: "(2048 :: nat) < 2 ^ e_width env"
    and keys: "length (kenc keys) = 16" "length (kmac keys) = 16"
    and chip: "length rnd_icc = 8" "length k_icc = 16" and reader: "length rnd = 8" "length k = 16"
    and mrz: "nul_free m" "length (dg1_file m) \<le> 2048"
  shows "OutReply True None (Some \<lparr>mrz_text = m, mrz_parsed = bac_parse_mrz_fields (Some m), photo = None\<rparr>) \<in>
    set (snd (run (passport_step env) (passport_read_new False keys pk False)
      (honest_bac_events (e_ossl env) keys rnd_icc k_icc rnd k (dg1_file m))))"
proof -
  define r :: "'g passport_read" where "r = passport_read_new False keys pk False"
  obtain apdu chal resp s where build: "bac_build_mutual_authenticate (e_ossl env) keys rnd_icc (Some rnd) (Some k) = Some (apdu, chal)"
    and auth: "chip_mutual_authenticate (e_ossl env) keys rnd_icc k_icc apdu = Some (resp, s)"
    and proc: "bac_process_mutual_authenticate_response (e_ossl env) keys chal rnd_icc resp = Some s"
    using bac_mutual_honest [OF lib(1) keys chip reader] by blast
  have "length (rnd_ifd chal) = 8"
    using build reader(1) by (auto simp: bac_build_mutual_authenticate_def split: option.splits)
  from processed_session_ok [OF proc lib(2) chip(1) this] have ok: "bac_session_ok s" and len: "length resp = 40" .
  define r5 where "r5 = r\<lparr>has_tag := True, acquired := True, pr_rnd_icc := rnd_icc, pr_challenge := chal,
      pr_session := bac_next s, pr_stage := P_SelectDg1\<rparr>"
  have start: "pr_stage r = P_Proxy" "\<not> use_pace r" "pr_keys r = keys" by (simp_all add: r_def passport_read_new_def)
  have "bac_parse_dg1_mrz (dg1_file m) = Parsed m"
    using mrz by (intro dg1_file_parses) (simp_all add: dg1_file_def tlv_def)
  then have ready: "honest_read env (dg1_file m) m r5"
    using lib(1) ok mrz(2) width by (simp add: honest_read_def passport_read_new_def r_def r5_def)
  have long: "4 < length (dg1_file m)" by (simp add: dg1_file_def tlv_def ber_enc_def)
  have "delivers m (run (passport_step env) r5 (map answer (chip_replies (e_ossl env) (pr_session r5)
      (None # Some (take 4 (dg1_file m)) # map Some (file_chunks (drop 4 (dg1_file m)))))))"
    unfolding dg1_file_def
    by (rule bac_dg1_part [OF ready [unfolded dg1_file_def]])
      (use long in \<open>simp_all add: dg1_file_def passport_read_new_def r_def r5_def\<close>)
  then have "delivers m (run (passport_step env) r (honest_bac_events (e_ossl env) keys rnd_icc k_icc rnd k (dg1_file m)))"
    using delivers_append [of m "passport_step env" r "[answer [], answer [], answer [0x90, 0x00],
      \<lparr>result = Some (rnd_icc @ [0x90, 0x00]), rand8 = Some rnd, rand16 = Some k, scalar = None\<rparr>,
      answer (resp @ [0x90, 0x00])]"] bac_prologue [OF lib(1) start build proc ok chip(1) len, folded r5_def]
    by (simp add: honest_bac_events_def build auth r5_def del: run.simps chip_replies.simps)
  then show ?thesis by (simp add: delivers_def r_def)
qed

text \<open>
  A document that holds the reader's access keys and answers as ICAO 9303 prescribes, with a
  status word of 9000 after every protected response, is read to the end: the caller is told
  the MRZ the document's EF.DG1 holds, with its fields.
\<close>

theorem passport_bac_completes:
  fixes env :: "('g, 'p) crypto_env"
  assumes lib: "cipher_works (e_ossl env)" "digest_sizes (e_ossl env)" and width: "(2048 :: nat) < 2 ^ e_width env"
    and keys: "length (kenc keys) = 16" "length (kmac keys) = 16"
    and chip: "length rnd_icc = 8" "length k_icc = 16" and reader: "length rnd = 8" "length k = 16"
    and mrz: "nul_free m" "length (dg1_file m) \<le> 2048"
  shows "OutReply True None (Some \<lparr>mrz_text = m, mrz_parsed = bac_parse_mrz_fields (Some m), photo = None\<rparr>) \<in>
    set (snd (run (passport_step env) (passport_read_new False keys pk False)
      (honest_bac_events (e_ossl env) keys rnd_icc k_icc rnd k (dg1_file m))))"
  using assms by (rule bac_read_completes)

text \<open>A 300 byte EF.DG1 takes three reads.\<close>

definition demo_mrz :: bytes where
  "demo_mrz = replicate 290 60"

lemma demo_facts:
  "cipher_works (e_ossl demo_env)" "digest_sizes (e_ossl demo_env)" "(2048 :: nat) < 2 ^ e_width demo_env"
  "length (kenc demo_keys) = 16" "length (kmac demo_keys) = 16"
  "nul_free demo_mrz" "length (dg1_file demo_mrz) \<le> 2048"
  by (simp_all add: demo_env_def demo_keys_def demo_mrz_def nul_free_def dg1_file_def tlv_def ber_enc_def)

theorem passport_bac_completes_witness:
  "OutReply True None (Some \<lparr>mrz_text = demo_mrz, mrz_parsed = bac_parse_mrz_fields (Some demo_mrz), photo = None\<rparr>) \<in>
    set (snd (run (passport_step demo_env) (passport_read_new False demo_keys None False)
      (honest_bac_events (e_ossl demo_env) demo_keys (replicate 8 3) (replicate 16 4) (replicate 8 5) (replicate 16 6)
        (dg1_file demo_mrz))))"
  by (rule passport_bac_completes) (simp_all add: demo_facts)


section \<open>A file longer than it says\<close>

text \<open>Once the length is known, DG1 only grows and the length stays.\<close>

definition dg1_grows :: "'g passport_read \<Rightarrow> 'g passport_read \<Rightarrow> bool" where
  "dg1_grows r r' \<longleftrightarrow> pr_stage r' \<in> {P_Dg1, P_SelectDg2, P_Dg2, P_Done, P_Wild}
     \<and> dg1_total_len r' = dg1_total_len r \<and> length (dg1 r) \<le> length (dg1 r')"

lemma grows_progress:
  "same_progress r r' \<Longrightarrow> dg1_grows r (fst (passport_fail r' m))"
  "same_progress r r' \<Longrightarrow> dg1_grows r (fst (passport_wild r'))"
  "same_progress r r' \<Longrightarrow> st \<in> {P_Dg1, P_SelectDg2, P_Dg2} \<Longrightarrow> dg1_grows r (fst (passport_transceive r' a st))"
  "same_progress r r' \<Longrightarrow> dg1_grows r (fst (passport_build_result_and_finish env r'))"
  by (auto simp: dg1_grows_def same_progress_def passport_read_finish_def passport_wild_def passport_transceive_def
      passport_build_result_and_finish_def Let_def split: option.split outcome.split)

lemma same_progress_refl [simp]: "same_progress r r"
  by (simp add: same_progress_def)

lemma grows_updates:
  "dg1_grows (r\<lparr>mrz := x\<rparr>) r' = dg1_grows r r'"
  "dg1_grows (r\<lparr>dg2 := d\<rparr>) r' = dg1_grows r r'"
  "dg1_grows (r\<lparr>dg2_total_len := n\<rparr>) r' = dg1_grows r r'"
  "dg1_grows (r\<lparr>dg1 := dg1 r @ x\<rparr>) r' \<Longrightarrow> dg1_grows r r'"
  "same_progress r q \<Longrightarrow> dg1_grows q r' = dg1_grows r r'"
  by (simp_all add: dg1_grows_def same_progress_def)

lemmas grows_intros = grows_progress [OF same_progress_refl]

lemma grows_dg2_start: "dg1_grows r (fst (passport_select_dg2_start env r))"
  unfolding passport_select_dg2_start_def
  by (auto intro!: grows_progress dest!: protect_progress split: prod.split option.split)

lemma grows_dg1_more: "dg1_grows r (fst (passport_dg1_read_more env r))"
  unfolding passport_dg1_read_more_def Let_def
  by (auto intro!: grows_progress grows_dg2_start [of "r\<lparr>mrz := x\<rparr>" for x, unfolded grows_updates]
      grows_progress(4) [OF same_progress_refl, of "r\<lparr>mrz := x\<rparr>" for x, unfolded grows_updates]
      dest!: protect_progress split: prod.split option.split outcome.split)

lemma grows_dg2_more: "dg1_grows r (fst (passport_dg2_read_more env r))"
  unfolding passport_dg2_read_more_def Let_def
  by (auto intro!: grows_progress dest!: protect_progress split: prod.split option.split)

lemma grows_dg1_rest:
  assumes "dg1_total_len r \<noteq> 0"
  shows "dg1_grows r (fst (passport_dg1_rest_ready env r ev))"
proof (cases "result ev")
  case None
  then show ?thesis by (simp add: passport_dg1_rest_ready_def grows_intros)
next
  case (Some resp)
  obtain q x where q: "passport_sm_response_ok env r resp = (q, x)" by fastforce
  note prog = response_progress [OF q]
  have len: "dg1_total_len q \<noteq> 0" using prog assms by (simp add: same_progress_def)
  have "dg1_grows q (fst (passport_dg1_read_more env (q\<lparr>dg1 := dg1 q @ p\<rparr>)))" for p
    by (rule grows_updates(4) [OF grows_dg1_more])
  then have "dg1_grows r (fst (passport_dg1_read_more env (q\<lparr>dg1 := dg1 q @ p\<rparr>)))" for p
    by (simp add: grows_updates(5) [OF prog])
  then show ?thesis
    using q Some prog len by (auto simp: passport_dg1_rest_ready_def Let_def grows_progress
        split: sm_reply.split option.split)
qed

lemma grows_select_dg2: "dg1_grows r (fst (passport_select_dg2_ready env r ev))"
proof (cases "result ev")
  case None
  then show ?thesis by (simp add: passport_select_dg2_ready_def grows_intros)
next
  case (Some resp)
  obtain q x where q: "passport_sm_response_ok env r resp = (q, x)" by fastforce
  note prog = response_progress [OF q]
  obtain q2 a where q2: "passport_sm_protect env (q\<lparr>dg2 := Some []\<rparr>) 0x00 0xB0 0x00 0x00 [] 4 = (q2, a)" by fastforce
  have same: "dg1_grows (q\<lparr>dg2 := Some []\<rparr>) r' = dg1_grows r r'" for r'
    by (simp add: grows_updates(2) grows_updates(5) [OF prog])
  show ?thesis
    using q q2 Some prog grows_progress [OF protect_progress [OF q2], unfolded same]
    by (auto simp: passport_select_dg2_ready_def grows_progress split: sm_reply.split option.split)
qed

lemma grows_dg2_rest: "dg1_grows r (fst (passport_dg2_rest_ready env r ev))"
proof (cases "result ev")
  case None
  then show ?thesis by (simp add: passport_dg2_rest_ready_def grows_intros)
next
  case (Some resp)
  obtain q x where q: "passport_sm_response_ok env r resp = (q, x)" by fastforce
  note prog = response_progress [OF q]
  have same: "dg1_grows (q\<lparr>dg2 := d\<rparr>) r' = dg1_grows r r'" "dg1_grows (q\<lparr>dg2 := d, dg2_total_len := n\<rparr>) r' = dg1_grows r r'"
    for r' d n by (simp_all add: grows_updates grows_updates(5) [OF prog])
  note mid = grows_intros [where r = "q\<lparr>dg2 := d\<rparr>" for d, unfolded same]
    grows_dg2_more [of "q\<lparr>dg2 := d\<rparr>" for d, unfolded same]
    grows_dg2_more [of "q\<lparr>dg2 := d, dg2_total_len := n\<rparr>" for d n, unfolded same]
  show ?thesis
    using q Some prog by (auto simp: passport_dg2_rest_ready_def Let_def grows_progress mid
        split: sm_reply.split option.split outcome.split)
qed

lemma grows_step:
  assumes "pr_stage r \<in> {P_Dg1, P_SelectDg2, P_Dg2, P_Done, P_Wild}" "dg1_total_len r \<noteq> 0"
  shows "dg1_grows r (fst (passport_step env r ev))"
  using assms by (auto simp: passport_step_def grows_dg1_rest grows_select_dg2 grows_dg2_rest)
    (simp_all add: dg1_grows_def)

lemma grows_run:
  "pr_stage r \<in> {P_Dg1, P_SelectDg2, P_Dg2, P_Done, P_Wild} \<Longrightarrow> dg1_total_len r \<noteq> 0 \<Longrightarrow>
    dg1_grows r (fst (run (passport_step env) r evs))"
proof (induction evs arbitrary: r)
  case Nil
  then show ?case by (simp add: dg1_grows_def)
next
  case (Cons ev evs)
  note g = grows_step [OF Cons.prems, of env ev]
  then have "dg1_grows (fst (passport_step env r ev)) (fst (run (passport_step env) (fst (passport_step env r ev)) evs))"
    using Cons.prems(2) by (intro Cons.IH) (auto simp: dg1_grows_def)
  with g show ?case by (auto simp: dg1_grows_def run_fst_Cons simp del: run.simps)
qed

text \<open>The number of bytes left is computed modulo the width of \<open>gsize\<close>.\<close>

lemma gsub_zero:
  assumes "gsub w a b = 0" "a < b"
  shows "2 ^ w \<le> b"
proof (rule ccontr)
  assume "\<not> 2 ^ w \<le> b"
  then have "int b < 2 ^ w" by (metis not_le of_nat_less_iff of_nat_numeral of_nat_power)
  moreover have "(int a - int b) mod 2 ^ w = 0"
    using assms(1) by (simp add: gsub_def) (metis pos_mod_sign zero_less_numeral zero_less_power order_antisym)
  then have "2 ^ w dvd int b - int a" by (metis dvd_minus_iff minus_diff_eq dvd_eq_mod_eq_0)
  ultimately show False
    using assms(2) zdvd_imp_le [of "2 ^ w" "int b - int a"] by linarith
qed

text \<open>
  C37.  When the chip returned more of EF.DG1 than its length field announces (four bytes of a file
  that says it has two, say), the number of bytes left wraps around: the read can still fail,
  but it does not succeed before \<open>2 ^ w\<close> bytes were read.
\<close>

theorem passport_dg1_overrun:
  fixes env :: "('g, 'p) crypto_env"
  defines "start \<equiv> \<lambda>with_pace keys k photo_wanted evs.
    fst (run (passport_step env) (passport_read_new with_pace keys k photo_wanted) evs)"
  assumes "r = start with_pace keys k photo_wanted evs0"
    and "pr_stage r = P_Dg1" "dg1_total_len r \<noteq> 0" "dg1_total_len r < length (dg1 r)"
    and "length (dg1 (fst (run (passport_step env) r evs))) < 2 ^ e_width env"
  shows "OutReply True e res \<notin> set (snd (run (passport_step env) r evs))"
proof
  let ?fin = "fst (run (passport_step env) r evs)"
  assume out: "OutReply True e res \<in> set (snd (run (passport_step env) r evs))"
  have "passport_inv env r" unfolding assms(1,2) by (rule passport_states.inv_run [OF inv_new])
  from run_justified [OF this out] have "gsub (e_width env) (dg1_total_len ?fin) (length (dg1 ?fin)) = 0"
    by (simp add: justified_def mrz_complete_def)
  moreover have "dg1_grows r ?fin" using assms(3,4) by (intro grows_run) simp_all
  ultimately show False
    using gsub_zero [of "e_width env" "dg1_total_len ?fin" "length (dg1 ?fin)"] assms(5,6)
    by (simp add: dg1_grows_def)
qed

text \<open>An EF.DG1 of two bytes of which the chip returns the four that were asked for.\<close>

definition overrun_events :: "passport_event list" where
  "overrun_events = honest_bac_events demo_openssl demo_keys (replicate 8 3) (replicate 16 4)
     (replicate 8 5) (replicate 16 6) [0x61, 0x00, 0x00, 0x00]"

definition overrun_read :: "nat passport_read" where
  "overrun_read = fst (run (passport_step demo_env) (passport_read_new False demo_keys None False) overrun_events)"

lemma overrun_reached:
  "pr_stage overrun_read = P_Dg1" "dg1_total_len overrun_read = 2" "dg1 overrun_read = [0x61, 0x00, 0x00, 0x00]"
proof -
  define r :: "nat passport_read" where "r = passport_read_new False demo_keys None False"
  obtain apdu chal resp s where build: "bac_build_mutual_authenticate (e_ossl demo_env) demo_keys (replicate 8 3)
      (Some (replicate 8 5)) (Some (replicate 16 6)) = Some (apdu, chal)"
    and auth: "chip_mutual_authenticate (e_ossl demo_env) demo_keys (replicate 8 3) (replicate 16 4) apdu = Some (resp, s)"
    and proc: "bac_process_mutual_authenticate_response (e_ossl demo_env) demo_keys chal (replicate 8 3) resp = Some s"
    using bac_mutual_honest [OF demo_facts(1,4,5), of "replicate 8 3" "replicate 16 4" "replicate 8 5" "replicate 16 6"]
    by auto
  have "length (rnd_ifd chal) = 8"
    using build by (auto simp: bac_build_mutual_authenticate_def split: option.splits)
  from processed_session_ok [OF proc demo_facts(2) _ this] have ok: "bac_session_ok s" and len: "length resp = 40"
    by simp_all
  have start: "pr_stage r = P_Proxy" "\<not> use_pace r" "pr_keys r = demo_keys" by (simp_all add: r_def passport_read_new_def)
  define r5 where "r5 = r\<lparr>has_tag := True, acquired := True, pr_rnd_icc := replicate 8 3, pr_challenge := chal,
      pr_session := bac_next s, pr_stage := P_SelectDg1\<rparr>"
  note pro = bac_prologue [OF demo_facts(1) start build proc ok _ len, folded r5_def]
  let ?h = "[0x61, 0x00, 0x00, 0x00] :: bytes"
  have fields: "pr_session r5 = bac_next s" "\<not> use_pace r5" "pr_stage r5 = P_SelectDg1" "dg1_total_len r5 = 0"
    by (simp_all add: r5_def r_def passport_read_new_def)
  have hdr: "bac_ber_tlv_header ?h 0 (length ?h) = Parsed (2, 0)" by code_simp
  define r2 where "r2 = r5\<lparr>pr_stage := P_Dg1,
      pr_session := bac_next (bac_next (bac_next (pr_session r5))), dg1 := ?h, dg1_total_len := 2 + 0\<rparr>"
  obtain a0 a1 where evs: "\<And>ps. chip_replies (e_ossl demo_env) (pr_session r5) (None # Some ?h # ps) =
       a0 # a1 # chip_replies (e_ossl demo_env) (bac_next (bac_next (bac_next (bac_next (pr_session r5))))) ps"
    and step: "passport_step demo_env (fst (passport_step demo_env r5 (answer a0))) (answer a1) = passport_dg1_read_more demo_env r2"
    unfolding r2_def by (rule dg1_first_chunk [OF demo_facts(1) _ fields(2-4) _ hdr]) (use ok fields(1) in auto)
  have "overrun_read = fst (run (passport_step demo_env) r
      ([answer [], answer [], answer [0x90, 0x00],
        \<lparr>result = Some (replicate 8 3 @ [0x90, 0x00]), rand8 = Some (replicate 8 5), rand16 = Some (replicate 16 6), scalar = None\<rparr>,
        answer (resp @ [0x90, 0x00])] @ [answer a0, answer a1]))"
    using build auth evs [of "[]"] fields(1)
    by (simp add: overrun_read_def overrun_events_def honest_bac_events_def r_def demo_env_def file_chunks.simps
        del: run.simps chip_replies.simps(2))
  also have "\<dots> = fst (passport_dg1_read_more demo_env r2)"
    using pro by (simp only: fst_run_append run_fst_Cons run.simps(1) fst_conv step length_replicate)
  finally have eq: "overrun_read = fst (passport_dg1_read_more demo_env r2)" .
  have "gsub (e_width demo_env) (dg1_total_len r2) (length (dg1 r2)) \<noteq> 0" by (simp add: gsub_def demo_env_def r2_def)
  moreover have "bac_session_ok (pr_session r2)" "\<not> use_pace r2" using ok fields(1,2) by (simp_all add: r2_def)
  ultimately obtain c2 where "passport_dg1_read_more demo_env r2 =
      (r2\<lparr>pr_session := bac_next (pr_session r2), pr_stage := P_Dg1\<rparr>, [OutTransceive c2])"
    using read_more_asks [OF demo_facts(1), of r2] by blast
  with eq have final: "overrun_read = r2\<lparr>pr_session := bac_next (pr_session r2), pr_stage := P_Dg1\<rparr>" by simp
  show "pr_stage overrun_read = P_Dg1" "dg1_total_len overrun_read = 2" "dg1 overrun_read = ?h"
    unfolding final by (simp_all add: r2_def)
qed

theorem passport_dg1_overrun_witness:
  "pr_stage overrun_read = P_Dg1 \<and> dg1_total_len overrun_read = 2 \<and> length (dg1 overrun_read) = 4
   \<and> OutReply True None None \<notin> set (snd (run (passport_step demo_env) overrun_read [link_lost]))"
proof -
  have "length (dg1 (fst (run (passport_step demo_env) overrun_read [link_lost]))) < 2 ^ e_width demo_env"
    using overrun_reached by (simp add: passport_step_def passport_dg1_rest_ready_def link_lost_def
        passport_read_finish_def demo_env_def)
  with passport_dg1_overrun [OF overrun_read_def, of "[link_lost]" None None] overrun_reached
  show ?thesis by simp
qed

end
