(* ===== verification/Client_Passport.thy ===== *)
theory Client_Passport
  imports Client_Facts Passport_Run
begin

text \<open>
  The passport reads inside the daemon: what holds for one read on its own holds for all of
  them under every interleaving of signals, completions and calls.  Every accepted request is
  answered exactly once, when it is over, and a success is only reported for a document that
  was authenticated.
\<close>

section \<open>What an event does to the passport reads\<close>

text \<open>Most events detach the read in flight at most, and report nothing about passports.\<close>

definition spares_passports :: "'g world \<Rightarrow> 'g world_step \<Rightarrow> bool" where
  "spares_passports w s \<longleftrightarrow>
     (\<forall>a. passport_reads (fst s) a = passport_reads w a
        \<or> passport_reads (fst s) a = map_option passport_read_abort (passport_reads w a))
     \<and> (\<forall>a out. FromPassport a out \<notin> set (snd s))"

fun about_passports :: "client_event \<Rightarrow> bool" where
  "about_passports (E_Passport a ev) = True"
| "about_passports (E_ReadPassport doc dob expiry ph) = True"
| "about_passports (E_ReadPassportPace can ph) = True"
| "about_passports e = False"

lemma spares_aborts: "passport_reads (abort_passport_read (abort_tag_read w)) a =
    (if passport_reading (client w) = Some a then map_option passport_read_abort (passport_reads w a) else passport_reads w a)"
  by (auto simp: abort_passport_read_def abort_tag_read_def split: option.split)

lemma spares_set_tag: "spares_passports w (set_current_tag w p)"
  by (auto simp: spares_passports_def set_current_tag_def tag_read_start_def spares_aborts Let_def
      split: option.split)

lemma spares_same: "passport_reads v = passport_reads w \<Longrightarrow> spares_passports v s \<Longrightarrow> spares_passports w s"
  by (simp add: spares_passports_def)

lemma spares_attach: "spares_passports w (attach_adapter w p)"
proof (cases p)
  case None
  have "spares_passports w (set_current_tag (w\<lparr>client := c\<rparr>) None)" for c
    by (rule spares_same [OF _ spares_set_tag]) simp
  with None show ?thesis
    by (auto simp: attach_adapter_def spares_passports_def case_prod_unfold Let_def)
qed (simp add: attach_adapter_def spares_passports_def)

lemma spares_daemon:
  "spares_passports w (adapter_get_all_ready w info)" "spares_passports w (daemon_get_all_ready w res)"
  "spares_passports w (daemon_vanished w)"
proof -
  have set_tag: "spares_passports w (set_current_tag (w\<lparr>client := c\<rparr>) p)" for c p
    by (rule spares_same [OF _ spares_set_tag]) simp
  then show "spares_passports w (adapter_get_all_ready w info)"
    by (cases info) (auto simp: adapter_get_all_ready_def update_tags_def spares_passports_def case_prod_unfold Let_def)
  have attach: "spares_passports w (attach_adapter (w\<lparr>client := c\<rparr>) p)" for c p
    by (rule spares_same [OF _ spares_attach]) simp
  show "spares_passports w (daemon_get_all_ready w res)"
  proof (cases res)
    case (Some r)
    with attach show ?thesis by (cases r) (simp add: daemon_get_all_ready_def)
  qed (simp add: daemon_get_all_ready_def spares_passports_def)
  show "spares_passports w (daemon_vanished w)"
    using attach by (simp add: daemon_vanished_def)
qed

lemma spares_reads: "spares_passports w (tag_read_event g width w a ev)" "spares_passports w (hce_world_event w e)"
  by (auto simp: tag_read_event_def hce_world_event_def spares_passports_def case_prod_unfold Let_def split: option.split)

lemma spares_step:
  assumes "\<not> about_passports e"
  shows "spares_passports w (client_step g width env w e)"
proof -
  have idle: "spares_passports w (w\<lparr>client := c\<rparr>, outs)" "spares_passports w (w, outs)"
    if "\<forall>a out. FromPassport a out \<notin> set outs" for c outs
    using that by (simp_all add: spares_passports_def)
  show ?thesis
    using assms
    by (cases e) (auto simp: plain_handlers adapter_tags_changed_def update_tags_def daemon_adapters_changed_def
        spares_set_tag spares_attach spares_daemon spares_reads nfcd_client_set_enabled_def set_enabled_ready_def
        passport_release_ready_def split: option.split intro!: idle)
qed

text \<open>A call either is refused, with nothing changed, or puts one new read on the heap.\<close>

lemma passport_call:
  assumes "client_step g width env w e = (w', outs)" "about_passports e" "\<forall>a ev. e \<noteq> E_Passport a ev"
  shows "(\<forall>a out. FromPassport a out \<notin> set outs)
    \<and> (passport_reads w' = passport_reads w
      \<or> (\<exists>p keys k ph. passport_reads w' = (passport_reads w)(next_address w \<mapsto> passport_read_new p keys k ph)))"
  using assms
  by (cases e)
    (auto simp: nfcd_client_read_passport_def nfcd_client_read_passport_pace_def passport_read_dispatch_def Let_def
      split: option.splits, blast+)

section \<open>Success is justified, for every read of the daemon\<close>

definition reads_justified :: "('g, 'p) crypto_env \<Rightarrow> 'g world \<Rightarrow> bool" where
  "reads_justified env w \<longleftrightarrow> (\<forall>a r. passport_reads w a = Some r \<longrightarrow> passport_inv env r)"

lemma authenticated_detached [simp]:
  "bac_authenticated env (r\<lparr>attached := b\<rparr>) = bac_authenticated env r"
  "pace_authenticated env (r\<lparr>attached := b\<rparr>) = pace_authenticated env r"
  "passport_authenticated env (r\<lparr>attached := b\<rparr>) = passport_authenticated env r"
  "mrz_complete env (r\<lparr>attached := b\<rparr>) = mrz_complete env r"
  by (simp_all add: passport_authenticated_def bac_authenticated_def pace_authenticated_def mrz_complete_def)

lemma inv_abort: "passport_inv env (passport_read_abort r) = passport_inv env r"
  by (cases "pr_stage r") (simp_all add: passport_inv_def passport_read_abort_def)

lemma reads_justified_step:
  assumes "reads_justified env w"
  shows "reads_justified env (fst (client_step g width env w e))"
proof (cases "about_passports e")
  case False
  have "passport_inv env r'" if r': "passport_reads (fst (client_step g width env w e)) a = Some r'" for a r'
  proof -
    from spares_step [OF False, of w g width env] r'
    have "passport_reads w a = Some r' \<or> (\<exists>r. passport_reads w a = Some r \<and> r' = passport_read_abort r)"
      by (auto simp: spares_passports_def dest!: spec [of _ a])
    with assms show ?thesis by (auto simp: reads_justified_def inv_abort)
  qed
  then show ?thesis by (simp add: reads_justified_def)
next
  case True
  show ?thesis
  proof (cases "\<exists>a ev. e = E_Passport a ev")
    case True
    then obtain a ev where e: "e = E_Passport a ev" by blast
    with assms passport_states.inv_step [of env _ ev] show ?thesis
      by (cases "passport_reads w a")
        (auto simp: passport_read_event_def reads_justified_def case_prod_unfold Let_def)
  next
    case no_event: False
    obtain w' outs where step: "client_step g width env w e = (w', outs)" by fastforce
    with passport_call [OF step True] no_event assms inv_new [of env] show ?thesis
      by (auto simp: reads_justified_def split: if_splits)
  qed
qed

interpretation passport_heap: invariant_machine "client_step g width env" "reads_justified env" for g width env
  by unfold_locales (rule reads_justified_step)

lemma reachable_justified: "reachable g width env w \<Longrightarrow> reads_justified env w"
  by (induction rule: reachable.induct) (simp_all add: passport_heap.inv_step, simp add: reads_justified_def world_init_def)


section \<open>Every request is answered once\<close>

definition answered :: "nat \<Rightarrow> 'g world \<Rightarrow> int" where
  "answered a w = (case passport_reads w a of None \<Rightarrow> 0 | Some r \<Rightarrow> if passport_live r then 0 else 1)"

definition passport_answers :: "nat \<Rightarrow> client_out \<Rightarrow> int" where
  "passport_answers a out = (case out of FromPassport b r \<Rightarrow> if b = a \<and> is_reply r then 1 else 0 | _ \<Rightarrow> 0)"

lemma passport_answers_none: "\<forall>a out. FromPassport a out \<notin> set outs \<Longrightarrow> sum_list (map (passport_answers a) outs) = 0"
proof (induction outs)
  case (Cons x outs)
  then show ?case by (cases x) (auto simp: passport_answers_def)
qed simp

lemma passport_answers_from: "sum_list (map (passport_answers a) (map (FromPassport b) outs)) =
    (if b = a then int (length (filter is_reply outs)) else 0)"
  by (induction outs) (simp_all add: passport_answers_def)

lemma answered_event: "answered a (fst (passport_read_event env w b ev)) =
    answered a w + sum_list (map (passport_answers a) (snd (passport_read_event env w b ev)))"
proof (cases "passport_reads w b")
  case (Some r)
  have "int (length (filter is_reply (snd (passport_step env r ev)))) =
      (if passport_live (fst (passport_step env r ev)) then 0 else 1) - (if passport_live r then 0 else 1)"
    using passport_machine.reply_count [of r "[ev]" env] passport_machine.dead_step [of r env ev]
    by (cases "passport_live r") (simp_all add: run_Cons_simps del: run.simps(2))
  with Some show ?thesis
    by (cases "b = a") (simp_all add: passport_read_event_def answered_def passport_answers_from case_prod_unfold Let_def del: map_map)
qed (simp add: passport_read_event_def)

lemma answered_step:
  assumes "world_ok w"
  shows "answered a (fst (client_step g width env w e)) =
    answered a w + sum_list (map (passport_answers a) (snd (client_step g width env w e)))"
proof (cases "about_passports e")
  case False
  have "answered a (fst (client_step g width env w e)) = answered a w"
    using spares_step [OF False, of w g width env]
    by (cases "passport_reads w a") (auto simp: spares_passports_def answered_def passport_read_abort_def passport_live_def
        dest!: spec [of _ a])
  then show ?thesis
    using spares_step [OF False, of w g width env] by (simp add: passport_answers_none spares_passports_def)
next
  case True
  obtain w' outs where step: "client_step g width env w e = (w', outs)" by fastforce
  have free: "passport_reads w (next_address w) = None" using assms by (auto simp: world_ok_def)
  show ?thesis
  proof (cases "\<exists>a ev. e = E_Passport a ev")
    case False
    with passport_call [OF step True] free show ?thesis
      by (auto simp: step passport_answers_none answered_def passport_read_new_def passport_live_def)
  qed (auto simp: answered_event)
qed

interpretation passport_accounts: accounting_machine "client_step g width env" world_ok "answered a" "passport_answers a" for g width env a
  by unfold_locales (rule answered_step)

text \<open>
  After any sequence of events from the fresh client, the replies given for an accepted
  passport request are exactly one if its read is over and none if it is still in flight: no
  interleaving with tags coming and going, other calls or late completions loses or repeats one.
\<close>

theorem daemon_answers_passports_once:
  "sum_list (map (passport_answers a) (snd (run (client_step g width env) world_init es))) =
     (case passport_reads (fst (run (client_step g width env) world_init es)) a of
        None \<Rightarrow> 0 | Some r \<Rightarrow> if pr_stage r = P_Done then 1 else 0)"
  using passport_accounts.inv_level_run [OF world_ok_init, of a g width env es]
  by (auto simp: answered_def passport_live_def world_init_def split: option.split)

section \<open>A document is read\<close>

text \<open>The callbacks of one read do in the daemon what they do to the read on its own.\<close>

lemma world_read:
  "passport_reads w a = Some r \<Longrightarrow> snd (run (client_step g width env) w (map (E_Passport a) evs)) =
     map (FromPassport a) (snd (run (passport_step env) r evs))"
proof (induction evs arbitrary: w r)
  case (Cons ev evs)
  let ?w = "fst (client_step g width env w (E_Passport a ev))"
  have "passport_reads ?w a = Some (fst (passport_step env r ev))"
    "snd (client_step g width env w (E_Passport a ev)) = map (FromPassport a) (snd (passport_step env r ev))"
    using Cons.prems by (simp_all add: passport_read_event_def case_prod_unfold Let_def)
  with Cons.IH [of ?w] show ?case by (simp add: run_snd_Cons del: run.simps(2) client_step.simps)
qed simp

lemma derived_keys_length:
  assumes "digest_sizes ossl" "bac_derive_static_keys ossl doc dob expiry = Some keys"
  shows "length (kenc keys) = 16 \<and> length (kmac keys) = 16"
  using assms length_kdf [OF assms(1)] by (auto simp: bac_derive_static_keys_def Let_def split: option.splits)

lemma document_is_read:
  fixes env :: "('g, 'p) crypto_env"
  assumes call: "passport_read_precheck (client w) = None" "bac_derive_static_keys (e_ossl env) doc dob expiry = Some keys"
    and lib: "cipher_works (e_ossl env)" "digest_sizes (e_ossl env)" and width: "(2048 :: nat) < 2 ^ e_width env"
    and chip: "length rnd_icc = 8" "length k_icc = 16" and reader: "length rnd = 8" "length k = 16"
    and mrz: "nul_free m" "length (dg1_file m) \<le> 2048"
  shows "FromPassport (next_address w)
      (OutReply True None (Some \<lparr>mrz_text = m, mrz_parsed = bac_parse_mrz_fields (Some m), photo = None\<rparr>)) \<in>
    set (snd (run (client_step g width env) w (E_ReadPassport doc dob expiry False
      # map (E_Passport (next_address w)) (honest_bac_events (e_ossl env) keys rnd_icc k_icc rnd k (dg1_file m)))))"
proof -
  let ?w = "fst (client_step g width env w (E_ReadPassport doc dob expiry False))"
  have "passport_reads ?w (next_address w) = Some (passport_read_new False keys None False)"
    using call by (simp add: nfcd_client_read_passport_def passport_read_dispatch_def Let_def)
  from world_read [OF this, of g width env] bac_read_completes [OF lib width _ _ chip reader mrz, of keys None] derived_keys_length [OF lib(2) call(2)]
  show ?thesis by (simp add: run_snd_Cons del: run.simps(2) client_step.simps)
qed


text \<open>The document of the specimen data, on the tag that was read before.\<close>

definition specimen_keys :: bac_static_keys where
  "specimen_keys = the (bac_derive_static_keys demo_openssl (Some (str ''L898902C'')) (Some (str ''690806'')) (Some (str ''940623'')))"

lemma specimen_call:
  "passport_read_precheck (client demo_world) = None"
  "bac_derive_static_keys (e_ossl demo_env) (Some (str ''L898902C'')) (Some (str ''690806'')) (Some (str ''940623'')) = Some specimen_keys"
proof -
  show "passport_read_precheck (client demo_world) = None"
    using demo_world_tag by (simp add: passport_read_precheck_def NFC_PROTOCOL_T4A_def)
  have "mrz_info (Some (str ''L898902C'')) (Some (str ''690806'')) (Some (str ''940623'')) \<noteq> None" by code_simp
  then show "bac_derive_static_keys (e_ossl demo_env) (Some (str ''L898902C'')) (Some (str ''690806'')) (Some (str ''940623'')) = Some specimen_keys"
    by (auto simp: specimen_keys_def bac_derive_static_keys_def bac_mrz_sha1_def demo_env_def Let_def)
qed



end
