(* ===== verification/Daemon_Facts.thy ===== *)
theory Daemon_Facts
  imports Daemon Service_Facts Client_Passport
begin

text \<open>
  The adapter as a whole: every message of the Luna bus is answered exactly once and kept
  exactly until then, whatever happens in between, and the client under it only ever is in
  states its own invariants speak about.
\<close>

section \<open>Accounts of effects\<close>

definition total :: "('o \<Rightarrow> int) \<Rightarrow> 'o list \<Rightarrow> int" where
  "total f outs = sum_list (map f outs)"

lemma total_simps [simp]:
  "total f [] = 0" "total f (x # xs) = f x + total f xs" "total f (xs @ ys) = total f xs + total f ys"
  by (simp_all add: total_def)

definition answer_weight :: "service_out \<Rightarrow> int" where
  "answer_weight out = (if is_answer out then 1 else 0)"

definition ref_weight :: "service_out \<Rightarrow> int" where
  "ref_weight out = (case out of MessageRef \<Rightarrow> 1 | MessageUnref \<Rightarrow> -1 | _ \<Rightarrow> 0)"

lemma ref_weight_simps [simp]:
  "ref_weight MessageRef = 1" "ref_weight MessageUnref = -1" "ref_weight (Reply j) = 0" "ref_weight (ReplyText t) = 0"
  "ref_weight (Post n j) = 0" "ref_weight (ToTag p call) = 0" "ref_weight (FromClient out) = 0"
  by (simp_all add: ref_weight_def)

lemma answer_weight_simps [simp]: "answer_weight (ToTag p call) = 0" "answer_weight (FromClient out) = 0"
  by (simp_all add: answer_weight_def is_answer_def)

lemma total_answers: "total answer_weight outs = int (answers outs)"
  by (induction outs) (simp_all add: answer_weight_def answers_def)

lemma total_request_cb:
  assumes "\<And>s e. total f (cb s e) = k" "\<And>p call. f (ToTag p call) = 0"
  shows "total f (run_request_cb cb outs) = k * int (length (filter is_req_reply outs))"
  by (induction outs) (auto simp: run_request_cb_def is_req_reply_def assms algebra_simps split: req_out.split)

lemma total_client_cb:
  assumes "\<And>s e. total f (cb s e) = k" "\<And>out. f (FromClient out) = 0"
  shows "total f (run_client_cb cb refused (map FromHce outs)) = k * int (length (filter is_hce_reply outs))"
  by (induction outs) (auto simp: run_client_cb_def is_hce_reply_def assms algebra_simps split: hce_out.split)

section \<open>References to messages\<close>

lemma refs_error: "total ref_weight (luna_service_message_reply_custom_error ls t) = 0"
  by (simp add: service_defs)

lemma refs_send: "total ref_weight (luna_service_message_validate_and_send ls j) = 0"
  by (simp add: service_defs)

lemma refs_result: "total ref_weight (result_cb ls fallback s e) = -1"
  by (simp add: result_cb_def refs_error) (simp add: service_defs)

lemma refs_passport_result: "total ref_weight (read_passport_result_cb ls s e r) = -1"
  by (simp add: read_passport_result_cb_def refs_error refs_send split: option.split bool.split)

lemma answers_passport_result: "ls_schema ls \<Longrightarrow> answers (read_passport_result_cb ls s e r) = 1"
  by (simp add: read_passport_result_cb_def one_error one_send split: option.split bool.split)

definition holds_ref :: "'g method_result \<Rightarrow> bool" where
  "holds_ref res \<longleftrightarrow> total ref_weight (fst (snd res)) = (if snd (snd res) = None then 0 else 1)"

lemma holds_none: "total ref_weight outs = 0 \<Longrightarrow> holds_ref (w, outs, None)"
  by (simp add: holds_ref_def)

lemma holds_started:
  assumes "length (filter is_req_reply outs) = (if req = None then 1 else 0)"
  shows "holds_ref (w, MessageRef # run_request_cb (result_cb ls t) outs, map_option f req)"
  using assms total_request_cb [of ref_weight "result_cb ls t" "-1" outs] by (simp add: holds_ref_def refs_result)

lemma holds_tag_methods:
  "holds_ref (service_write_tag_cb ls w m)" "holds_ref (service_lock_tag_cb ls w m)" "holds_ref (service_clone_tag_cb ls w m)"
  using start_replies
  by (auto simp: service_write_tag_cb_def service_lock_tag_cb_def service_clone_tag_cb_def result_cbs refs_error
      luna_service_message_reply_error_bad_json_def intro!: holds_none holds_started split: option.split prod.split)

lemma holds_hce_call:
  assumes "hce_world_event w e = (w', outs)" "e = H_Clear \<or> (\<exists>aid. e = H_Remove aid)"
  shows "total ref_weight (run_client_cb (result_cb ls t) r outs) = -1"
proof -
  let ?s = "\<lparr>hs_client = client w, hs_next = next_address w, hs_pending = hce_pending w, hs_wild = hce_wild w\<rparr>"
  obtain s' houts where step: "hce_step ?s e = (s', houts)" by fastforce
  have "length (filter is_hce_reply houts) = 1"
    using assms(2) step remove_answers clear_answers by blast
  moreover have "outs = map FromHce houts" using assms(1) step by (auto simp: hce_world_event_def Let_def)
  ultimately show ?thesis
    using total_client_cb [of ref_weight "result_cb ls t" "-1" r houts] by (simp add: refs_result)
qed

lemma holds_add:
  assumes "hce_world_event w (H_Add bus exported aid data impl) = (w', outs)"
  shows "total ref_weight (run_client_cb (result_cb ls t) r outs) =
    (if drop (length (hce_pending w)) (hce_pending w') = [] then -1 else 0)"
proof -
  let ?s = "\<lparr>hs_client = client w, hs_next = next_address w, hs_pending = hce_pending w, hs_wild = hce_wild w\<rparr>"
  obtain s' houts where step: "hce_step ?s (H_Add bus exported aid data impl) = (s', houts)" by fastforce
  have "outs = map FromHce houts" "hce_pending w' = hs_pending s'"
    using assms step by (auto simp: hce_world_event_def Let_def simp del: hce_step.simps)
  with add_answers [OF step] show ?thesis
    using total_client_cb [of ref_weight "result_cb ls t" "-1" r houts] by (auto simp: refs_result)
qed

lemma holds_hce_methods:
  "holds_ref (service_add_card_emulation_cb ls bus exported w m)"
  "holds_ref (service_remove_card_emulation_cb ls w m)" "holds_ref (service_clear_card_emulation_cb ls w m)"
proof -
  have add: "holds_ref (let (w', outs) = hce_world_event w (H_Add bus exported aid data impl);
        pending = drop (length (hce_pending w)) (hce_pending w') in
      (w', nfc_request_new @ run_client_cb (result_cb ls t) r outs, if pending = [] then None else Some (StartedHce (hd pending))))"
    for aid data impl t r
  proof -
    obtain w' outs where step: "hce_world_event w (H_Add bus exported aid data impl) = (w', outs)" by fastforce
    from holds_add [OF this] show ?thesis by (simp add: step holds_ref_def Let_def)
  qed
  have call: "holds_ref (let (w', outs) = hce_world_event w e in (w', nfc_request_new @ run_client_cb (result_cb ls t) r outs, None))"
    if "e = H_Clear \<or> (\<exists>aid. e = H_Remove aid)" for e t r
  proof -
    obtain w' outs where step: "hce_world_event w e = (w', outs)" by fastforce
    from holds_hce_call [OF this that] show ?thesis by (simp add: step holds_ref_def)
  qed
  show "holds_ref (service_add_card_emulation_cb ls bus exported w m)"
    using add by (auto simp: service_add_card_emulation_cb_def result_cbs refs_error
        luna_service_message_reply_error_bad_json_def intro!: holds_none split: option.split)
  show "holds_ref (service_remove_card_emulation_cb ls w m)"
    using call by (auto simp: service_remove_card_emulation_cb_def result_cbs refs_error
        luna_service_message_reply_error_bad_json_def intro!: holds_none split: option.split)
  show "holds_ref (service_clear_card_emulation_cb ls w m)"
    using call by (auto simp: service_clear_card_emulation_cb_def result_cbs)
qed

lemma holds_passport:
  assumes "s = passport_read_dispatch w r \<and> passport_reading (client w) = None \<or> (\<exists>msg. s = (w, [PassportRefused msg]))"
  shows "holds_ref (passport_started ls w s)"
  using assms
proof
  assume "s = passport_read_dispatch w r \<and> passport_reading (client w) = None"
  then show ?thesis
    by (auto simp: passport_started_def passport_read_dispatch_def holds_ref_def run_client_cb_def Let_def)
next
  assume "\<exists>msg. s = (w, [PassportRefused msg])"
  then show ?thesis
    by (auto simp: passport_started_def holds_ref_def run_client_cb_def refs_passport_result)
qed

lemma holds_passport_methods:
  "holds_ref (service_read_passport_cb ls ossl w m)" "holds_ref (service_read_passport_pace_cb ls w m)"
  by (auto simp: service_read_passport_cb_def service_read_passport_pace_cb_def refs_error
      luna_service_message_reply_error_bad_json_def nfcd_client_read_passport_def nfcd_client_read_passport_pace_def
      passport_read_precheck_def Let_def intro!: holds_none holds_passport split: option.splits if_splits)

lemma holds_methods: "holds_ref (nfc_service_methods ls ossl bus exported call w m)"
proof (cases call)
  case SetEnabled
  then show ?thesis
    by (auto simp: service_set_enabled_cb_def refs_error refs_result result_cbs holds_ref_def
        luna_service_message_reply_error_bad_json_def luna_service_message_reply_error_invalid_params_def
        nfcd_client_set_enabled_def run_client_cb_def split: option.split jvalue.split)
qed (simp_all add: holds_tag_methods holds_hce_methods holds_passport_methods refs_send holds_none
    service_get_status_cb_def service_get_tag_info_cb_def service_get_card_emulation_event_cb_def)

section \<open>One step\<close>

text \<open>The weight of effects for message \<open>i\<close>.\<close>

definition weight_for :: "nat \<Rightarrow> (service_out \<Rightarrow> int) \<Rightarrow> daemon_out \<Rightarrow> int" where
  "weight_for i f out = (case out of For j x \<Rightarrow> if j = i then f x else 0 | Own x \<Rightarrow> 0)"

lemma total_for: "total (weight_for i f) (map (For j) outs) = (if j = i then total f outs else 0)"
  by (induction outs) (simp_all add: weight_for_def)

lemma total_own: "total (weight_for i f) (map Own outs) = 0"
  by (induction outs) (simp_all add: weight_for_def)

text \<open>Effects of the client reach a message only through its result callback.\<close>

lemma total_client_effects:
  assumes "\<And>out. total (weight_for i f) (reply out) = (if reply out \<noteq> [] then k else 0)"
  shows "total (weight_for i f) (client_effects ls reply outs) = k * int (length (filter (\<lambda>out. reply out \<noteq> []) outs))"
proof (induction outs)
  case (Cons x outs)
  then show ?case
    using assms [of x] by (simp add: client_effects_def total_own algebra_simps) (simp add: weight_for_def)
qed (simp add: client_effects_def)

definition callback_weight :: "luna \<Rightarrow> (service_out \<Rightarrow> int) \<Rightarrow> int \<Rightarrow> bool" where
  "callback_weight ls f k \<longleftrightarrow> (\<forall>t s e. total f (result_cb ls t s e) = k)
     \<and> (\<forall>s e r. total f (read_passport_result_cb ls s e r) = k) \<and> (\<forall>p call. f (ToTag p call) = 0)"

lemma callback_answers: "ls_schema ls \<Longrightarrow> callback_weight ls answer_weight 1"
  by (simp add: callback_weight_def total_answers one_result answers_passport_result)

lemma callback_refs: "callback_weight ls ref_weight (-1)"
  by (simp add: callback_weight_def refs_result refs_passport_result)

lemma result_cb_nonempty [simp]: "result_cb ls t s e \<noteq> []" "read_passport_result_cb ls s msg r \<noteq> []"
  by (simp_all add: result_cb_def read_passport_result_cb_def)

text \<open>No step of a request replies twice.\<close>

lemma replied_filter: "replied outs \<longleftrightarrow> filter is_req_reply outs \<noteq> []"
  by (auto simp: replied_def is_req_reply_def filter_empty_conv)

lemma one_reply_per_step:
  "length (filter is_req_reply (snd (write_step req e))) = (if replied (snd (write_step req e)) then 1 else 0)"
  "length (filter is_req_reply (snd (lock_step lreq e))) = (if replied (snd (lock_step lreq e)) then 1 else 0)"
  using writing.at_most_one_reply [of "[e]" req] locking.at_most_one_reply [of "[e]" lreq]
  by (auto simp: replied_filter le_Suc_eq case_prod_unfold Let_def)

lemma one_passport_reply:
  "length (filter (\<lambda>out. passport_answer ls i out \<noteq> []) (snd (client_step g width env w (E_Passport a ev)))) =
    (if \<exists>out \<in> set (snd (client_step g width env w (E_Passport a ev))). passport_answer ls i out \<noteq> [] then 1 else 0)"
proof (cases "passport_reads w a")
  case (Some r)
  have eq: "passport_answer ls i (FromPassport a out) \<noteq> [] \<longleftrightarrow> is_reply out" for out
    by (cases out) (auto simp: passport_answer_def)
  have "length (filter is_reply (snd (passport_step env r ev))) \<le> 1"
    using passport_machine.at_most_one_reply [of "[ev]" env r] by (simp add: case_prod_unfold Let_def)
  then have "length (filter is_reply (snd (passport_step env r ev))) =
      (if \<exists>out \<in> set (snd (passport_step env r ev)). is_reply out then 1 else 0)"
    by (auto simp: le_Suc_eq filter_empty_conv length_Suc_conv filter_eq_Cons_iff)
  with Some show ?thesis
    by (simp add: passport_read_event_def case_prod_unfold Let_def filter_map comp_def eq)
qed (simp add: passport_read_event_def)

lemma one_registered_reply:
  "length (filter (\<lambda>out. registered_answer ls i out \<noteq> []) (snd (client_step g width env w (E_HceRegistered a err)))) =
    (if \<exists>out \<in> set (snd (client_step g width env w (E_HceRegistered a err))). registered_answer ls i out \<noteq> [] then 1 else 0)"
  by (auto simp: hce_world_event_def hce_register_ready_def registered_answer_def result_cbs split: option.split)

text \<open>A step other than a call: message \<open>i\<close> is replied to exactly when its request goes.\<close>

definition settles :: "'g daemon_state \<Rightarrow> nat \<Rightarrow> (service_out \<Rightarrow> int) \<Rightarrow> int \<Rightarrow> 'g daemon_step \<Rightarrow> bool" where
  "settles d i f k s \<longleftrightarrow> dm_calls (fst s) = dm_calls d
     \<and> (dm_requests d i = None \<longrightarrow> dm_requests (fst s) i = None)
     \<and> total (weight_for i f) (snd s) = (if dm_requests d i \<noteq> None \<and> dm_requests (fst s) i = None then k else 0)"

lemma settles_idle: "settles d i f k (d, [])"
  by (auto simp: settles_def)

lemma settles_request:
  assumes "dm_requests d j = Some st0" "\<And>s e. total f (cb s e) = k" "\<And>p call. f (ToTag p call) = 0"
    and "length (filter is_req_reply outs) = (if replied outs then 1 else 0)"
  shows "settles d i f k (d\<lparr>dm_requests := settle j (replied outs) st (dm_requests d)\<rparr>, map (For j) (run_request_cb cb outs))"
  using assms(1,4) total_request_cb [of f cb k outs, OF assms(2,3)]
  by (auto simp: settles_def settle_def total_for)

lemma settles_result:
  assumes "callback_weight ls f k"
  shows "settles d i f k (daemon_result ls d j ev)"
proof (cases "dm_requests d j")
  case (Some st)
  note w = settles_request [OF Some, of f _ k] assms [unfolded callback_weight_def]
  show ?thesis
  proof (cases st)
    case (StartedWrite req)
    then show ?thesis
      using w Some one_reply_per_step(1) [of req "(client (dm_world d), ev)"]
      by (simp add: daemon_result_def result_cbs case_prod_unfold Let_def)
  next
    case (StartedClone req)
    then show ?thesis
      using w Some one_reply_per_step(1) [of req "(client (dm_world d), ev)"]
      by (simp add: daemon_result_def result_cbs case_prod_unfold Let_def)
  next
    case (StartedLock req)
    then show ?thesis
      using w Some one_reply_per_step(2) [of req "(client (dm_world d), ev)"]
      by (simp add: daemon_result_def result_cbs case_prod_unfold Let_def)
  qed (use Some in \<open>simp_all add: daemon_result_def settles_idle\<close>)
qed (simp add: daemon_result_def settles_idle)

lemma settles_effects:
  assumes "dm_requests d j = Some st0"
    and "\<And>out. reply out \<noteq> [] \<Longrightarrow> \<exists>outs. reply out = map (For j) outs \<and> total f outs = k"
    and "length (filter (\<lambda>out. reply out \<noteq> []) outs) = (if \<exists>out \<in> set outs. reply out \<noteq> [] then 1 else 0)"
  shows "settles d i f k (d\<lparr>dm_world := w, dm_requests := settle j (\<exists>out \<in> set outs. reply out \<noteq> []) st (dm_requests d)\<rparr>,
    client_effects ls reply outs)"
proof -
  have "total (weight_for i f) (reply out) = (if reply out \<noteq> [] then if j = i then k else 0 else 0)" for out
    using assms(2) [of out] by (cases "reply out = []") (auto simp: total_for)
  from total_client_effects [of i f reply, OF this] assms(1,3) show ?thesis
    by (auto simp: settles_def settle_def)
qed

lemma settles_completions:
  assumes "callback_weight ls f k"
  shows "settles d i f k (daemon_enabled ls d j err)" "settles d i f k (daemon_passport g width env ls d j pev)"
    "settles d i f k (daemon_registered g width env ls d j err)"
proof -
  note w = assms [unfolded callback_weight_def]
  show "settles d i f k (daemon_enabled ls d j err)"
    using w by (auto simp: daemon_enabled_def settles_def set_enabled_ready_def client_effects_def result_cbs total_for
        split: option.split started.split)
  show "settles d i f k (daemon_passport g width env ls d j pev)"
  proof (cases "\<exists>a. dm_requests d j = Some (StartedPassport a)")
    case True
    then obtain a where a: "dm_requests d j = Some (StartedPassport a)" by blast
    have "\<exists>outs. passport_answer ls j out = map (For j) outs \<and> total f outs = k" if "passport_answer ls j out \<noteq> []" for out
      using that w by (fastforce simp: passport_answer_def split: client_out.splits passport_out.splits)
    from settles_effects [OF a this one_passport_reply] a show ?thesis
      by (simp add: daemon_passport_def case_prod_unfold Let_def del: client_step.simps)
  qed (auto simp: daemon_passport_def settles_idle split: option.split started.split)
  show "settles d i f k (daemon_registered g width env ls d j err)"
  proof (cases "\<exists>a. dm_requests d j = Some (StartedHce a)")
    case True
    then obtain a where a: "dm_requests d j = Some (StartedHce a)" by blast
    have "\<exists>outs. registered_answer ls j out = map (For j) outs \<and> total f outs = k" if "registered_answer ls j out \<noteq> []" for out
      using that w by (fastforce simp: registered_answer_def result_cbs split: client_out.splits hce_out.splits)
    from settles_effects [OF a this one_registered_reply] a show ?thesis
      by (simp add: daemon_registered_def case_prod_unfold Let_def del: client_step.simps)
  qed (auto simp: daemon_registered_def settles_idle split: option.split started.split)
qed

lemma settles_signal: "settles d i f k (daemon_signal g width env ls d e)"
  using total_client_effects [of i f "\<lambda>_. []" 0 ls]
  by (auto simp: daemon_signal_def settles_def case_prod_unfold Let_def)

fun is_call :: "daemon_event \<Rightarrow> bool" where
  "is_call (D_Call call m bus exported) = True"
| "is_call e = False"

lemma settles_step:
  assumes "callback_weight ls f k" "\<not> is_call e"
  shows "settles d i f k (daemon_step g width env ls d e)"
  using assms(2) settles_result [OF assms(1)] settles_completions [OF assms(1)] settles_signal
  by (cases e) simp_all

section \<open>Every message\<close>

text \<open>Requests in the table belong to earlier calls and are not over.\<close>

definition live_request :: "started \<Rightarrow> bool" where
  "live_request st \<longleftrightarrow> (case st of StartedWrite req \<Rightarrow> wr_stage req \<noteq> W_Done | StartedClone req \<Rightarrow> wr_stage req \<noteq> W_Done
     | StartedLock req \<Rightarrow> lk_stage req \<noteq> L_Done | _ \<Rightarrow> True)"

definition known :: "'g daemon_state \<Rightarrow> bool" where
  "known d \<longleftrightarrow> (\<forall>i st. dm_requests d i = Some st \<longrightarrow> i < dm_calls d \<and> live_request st)"

lemma known_fresh: "known d \<Longrightarrow> dm_requests d (dm_calls d) = None"
  by (cases "dm_requests d (dm_calls d)") (auto simp: known_def)

lemma started_live:
  assumes "nfc_service_methods ls ossl bus exported call w m = (w', outs, Some st)"
  shows "live_request st"
  using assms
  by (cases call)
    (auto simp: method_defs nfcd_client_write_tag_def nfcd_client_write_raw_def nfcd_client_lock_tag_def refuse_def
      begin_request_def start_type2_write_def live_request_def Let_def case_prod_unfold
      split: option.splits if_splits jvalue.splits bool.splits)

lemma live_after:
  assumes "wr_stage req \<noteq> W_Done"
  shows "replied (snd (write_step req e)) \<longleftrightarrow> wr_stage (fst (write_step req e)) = W_Done"
  using writing.live_quiet [OF assms, of e] writing.live_final [OF assms, of e] by (auto simp: replied_filter)

lemma live_after_lock:
  assumes "lk_stage req \<noteq> L_Done"
  shows "replied (snd (lock_step req e)) \<longleftrightarrow> lk_stage (fst (lock_step req e)) = L_Done"
  using locking.live_quiet [OF assms, of e] locking.live_final [OF assms, of e] by (auto simp: replied_filter)

text \<open>What a completion makes of the request it is for, and that it touches no other.\<close>

definition request_next :: "nfcd_client \<Rightarrow> req_event \<Rightarrow> started \<Rightarrow> started option" where
  "request_next c ev st = (case st of
      StartedWrite req \<Rightarrow> (let (req', outs) = write_step req (c, ev) in if replied outs then None else Some (StartedWrite req'))
    | StartedClone req \<Rightarrow> (let (req', outs) = write_step req (c, ev) in if replied outs then None else Some (StartedClone req'))
    | StartedLock req \<Rightarrow> (let (req', outs) = lock_step req (c, ev) in if replied outs then None else Some (StartedLock req'))
    | _ \<Rightarrow> Some st)"

lemma result_requests:
  "dm_requests (fst (daemon_result ls d j ev)) i =
     (if i = j then Option.bind (dm_requests d j) (request_next (client (dm_world d)) ev) else dm_requests d i)"
  by (auto simp: daemon_result_def request_next_def settle_def case_prod_unfold Let_def split: option.split started.split)

lemma completion_keeps:
  "dm_requests (fst (daemon_enabled ls d j err)) i = Some st \<Longrightarrow> dm_requests d i = Some st"
  "dm_requests (fst (daemon_passport g width env ls d j pev)) i = Some st \<Longrightarrow> dm_requests d i = Some st"
  "dm_requests (fst (daemon_registered g width env ls d j err)) i = Some st \<Longrightarrow> dm_requests d i = Some st"
  by (auto simp: daemon_enabled_def daemon_passport_def daemon_registered_def settle_def case_prod_unfold Let_def
      split: option.splits started.splits if_splits)

lemma request_next_live: "live_request st \<Longrightarrow> request_next c ev st = Some st' \<Longrightarrow> live_request st'"
  by (cases st) (auto simp: request_next_def live_request_def case_prod_unfold Let_def live_after live_after_lock split: if_splits)

lemma known_call: "known d \<Longrightarrow> known (fst (daemon_call ls ossl d call m bus exported))"
proof -
  assume "known d"
  moreover obtain w outs st where "nfc_service_methods ls ossl bus exported call (dm_world d) m = (w, outs, st)"
    by (cases "nfc_service_methods ls ossl bus exported call (dm_world d) m") auto
  ultimately show ?thesis
    using started_live [of ls ossl bus exported call "dm_world d" m w outs] by (auto simp: daemon_call_def known_def less_Suc_eq Let_def)
qed

lemma known_step:
  assumes "known d"
  shows "known (fst (daemon_step g width env ls d e))"
proof (cases "is_call e")
  case True
  then show ?thesis using known_call [OF assms] by (cases e) simp_all
next
  case False
  have calls: "dm_calls (fst (daemon_step g width env ls d e)) = dm_calls d"
    using settles_step [OF callback_refs False, where d = d and g = g and width = width and env = env and ls = ls]
    by (auto simp: settles_def)
  have "live_request st \<and> i < dm_calls d" if "dm_requests (fst (daemon_step g width env ls d e)) i = Some st" for i st
  proof (cases e)
    case (D_Result j ev)
    with that show ?thesis
      using assms by (auto simp: result_requests known_def bind_eq_Some_conv intro: request_next_live [rotated] split: if_splits)
  next
    case (D_Signal ev)
    with that assms show ?thesis by (auto simp: daemon_signal_def known_def case_prod_unfold Let_def split: if_splits)
  next
    case (D_Enabled j err)
    with that assms show ?thesis by (auto simp: known_def dest!: completion_keeps)
  next
    case (D_Passport j ev)
    with that assms show ?thesis by (auto simp: known_def dest!: completion_keeps)
  next
    case (D_Registered j err)
    with that assms show ?thesis by (auto simp: known_def dest!: completion_keeps)
  qed (use False in simp)
  with calls show ?thesis by (simp add: known_def)
qed

lemma known_init: "known daemon_init"
  by (simp add: known_def daemon_init_def)

interpretation daemon_states: invariant_machine "daemon_step g width env ls" known for g width env ls
  by unfold_locales (rule known_step)

lemma total_map: "sum_list (map f outs) = total f outs"
  by (simp add: total_def)

lemma call_accounts:
  assumes "known d" "e = D_Call call m bus exported"
  shows "(if dm_requests (fst (daemon_step g width env ls d e)) i = None then 0 else 1) =
      (if dm_requests d i = None then 0 else 1) + total (weight_for i ref_weight) (snd (daemon_step g width env ls d e))"
    and "ls_schema ls \<Longrightarrow>
      (if i < dm_calls (fst (daemon_step g width env ls d e)) \<and> dm_requests (fst (daemon_step g width env ls d e)) i = None then 1 else 0) =
      (if i < dm_calls d \<and> dm_requests d i = None then 1 else 0)
        + total (weight_for i answer_weight) (snd (daemon_step g width env ls d e))"
proof -
  obtain w outs st where step: "nfc_service_methods ls (e_ossl env) bus exported call (dm_world d) m = (w, outs, st)"
    by (cases "nfc_service_methods ls (e_ossl env) bus exported call (dm_world d) m") auto
  have refs: "total ref_weight outs = (if st = None then 0 else 1)"
    using holds_methods [of ls "e_ossl env" bus exported call "dm_world d" m] by (simp add: step holds_ref_def)
  have once: "answers outs + (if st = None then 0 else 1) = 1" if "ls_schema ls"
    by (rule every_call_once [OF that step [symmetric]])
  note fresh = known_fresh [OF assms(1)]
  show "(if dm_requests (fst (daemon_step g width env ls d e)) i = None then 0 else 1) =
      (if dm_requests d i = None then 0 else 1) + total (weight_for i ref_weight) (snd (daemon_step g width env ls d e))"
    using refs fresh by (auto simp: assms(2) daemon_call_def step total_for Let_def)
  show "(if i < dm_calls (fst (daemon_step g width env ls d e)) \<and> dm_requests (fst (daemon_step g width env ls d e)) i = None then 1 else 0) =
      (if i < dm_calls d \<and> dm_requests d i = None then 1 else 0)
        + total (weight_for i answer_weight) (snd (daemon_step g width env ls d e))" if "ls_schema ls"
    using once [OF that] fresh by (auto simp: assms(2) daemon_call_def step total_for total_answers less_Suc_eq Let_def split: if_splits)
qed

interpretation message_refs: accounting_machine "daemon_step g width env ls" known
  "\<lambda>d. if dm_requests d i = None then 0 else 1" "weight_for i ref_weight" for g width env ls i
proof
  show "(if dm_requests (fst (daemon_step g width env ls d e)) i = None then 0 else 1) =
      (if dm_requests d i = None then 0 else 1) + sum_list (map (weight_for i ref_weight) (snd (daemon_step g width env ls d e)))"
    if "known d" for d e
  proof (cases "is_call e")
    case True
    then obtain call m bus exported where e: "e = D_Call call m bus exported" by (cases e) auto
    show ?thesis unfolding total_map by (rule call_accounts(1) [OF that e])
  next
    case False
    from settles_step [OF callback_refs this, of d i g width env ls] show ?thesis by (auto simp: settles_def total_map)
  qed
qed

interpretation message_answers: accounting_machine "daemon_step g width env ls" "\<lambda>d. known d \<and> ls_schema ls"
  "\<lambda>d. if i < dm_calls d \<and> dm_requests d i = None then 1 else 0" "weight_for i answer_weight" for g width env ls i
proof
  show "known (fst (daemon_step g width env ls d e)) \<and> ls_schema ls" if "known d \<and> ls_schema ls" for d e
    using that known_step by blast
  show "(if i < dm_calls (fst (daemon_step g width env ls d e)) \<and> dm_requests (fst (daemon_step g width env ls d e)) i = None then 1 else 0) =
      (if i < dm_calls d \<and> dm_requests d i = None then 1 else 0)
        + sum_list (map (weight_for i answer_weight) (snd (daemon_step g width env ls d e)))"
    if inv: "known d \<and> ls_schema ls" for d e
  proof (cases "is_call e")
    case True
    then obtain call m bus exported where e: "e = D_Call call m bus exported" by (cases e) auto
    show ?thesis unfolding total_map by (rule call_accounts(2) [OF conjunct1 [OF inv] e conjunct2 [OF inv]])
  next
    case False
    have "i < dm_calls d" if "dm_requests d i \<noteq> None" using inv that by (auto simp: known_def)
    with settles_step [OF callback_answers [OF conjunct2 [OF inv]] False, of d i g width env] show ?thesis
      by (auto simp: settles_def total_map)
  qed
qed

definition answers_to :: "nat \<Rightarrow> daemon_out list \<Rightarrow> nat" where
  "answers_to i outs = length (filter (\<lambda>out. case out of For j x \<Rightarrow> j = i \<and> is_answer x | Own x \<Rightarrow> False) outs)"

lemma total_answers_to: "total (weight_for i answer_weight) outs = int (answers_to i outs)"
  by (induction outs) (auto simp: answers_to_def weight_for_def answer_weight_def split: daemon_out.split)

lemma total_refs:
  "total (weight_for i ref_weight) outs = int (count_list outs (For i MessageRef)) - int (count_list outs (For i MessageUnref))"
  by (induction outs) (auto simp: weight_for_def ref_weight_def split: daemon_out.split service_out.split)

lemma answered_run:
  assumes "ls_schema ls"
  shows "answers_to i (snd (run (daemon_step g width env ls) daemon_init es)) =
    (if i < dm_calls (fst (run (daemon_step g width env ls) daemon_init es))
       \<and> dm_requests (fst (run (daemon_step g width env ls) daemon_init es)) i = None then 1 else 0)"
proof -
  have "known daemon_init \<and> ls_schema ls" using assms known_init by simp
  from message_answers.inv_level_run [OF this, of i g width env es] show ?thesis
    by (auto simp: total_map total_answers_to daemon_init_def split: if_splits)
qed



text \<open>
  C8.  The adapter holds exactly one reference to the message of every request in flight and none to
  any other message: a message is never freed while its answer is outstanding, and never leaked.
\<close>

theorem message_references_balanced:
  "count_list (snd (run (daemon_step g width env ls) daemon_init es)) (For i MessageRef) =
     count_list (snd (run (daemon_step g width env ls) daemon_init es)) (For i MessageUnref)
     + (if dm_requests (fst (run (daemon_step g width env ls) daemon_init es)) i = None then 0 else 1)"
  using message_refs.inv_level_run [OF known_init, of g width env ls es i]
  by (auto simp: total_map total_refs daemon_init_def split: if_splits)

section \<open>The client under the service\<close>

text \<open>Every method leaves the client where it was or makes one of the client's own steps.\<close>

lemma method_world:
  "fst (nfc_service_methods ls (e_ossl env) bus exported call w m) = w
   \<or> (\<exists>e. fst (nfc_service_methods ls (e_ossl env) bus exported call w m) = fst (client_step g width env w e))"
proof -
  have reads: "\<exists>e. fst (nfcd_client_read_passport (e_ossl env) w doc dob expiry ph) = fst (client_step g width env w e)"
    "\<exists>e. fst (nfcd_client_read_passport_pace w can ph) = fst (client_step g width env w e)" for doc dob expiry can ph
    by (rule exI [of _ "E_ReadPassport doc dob expiry ph"], simp) (rule exI [of _ "E_ReadPassportPace can ph"], simp)
  have hce: "\<exists>e. fst (hce_world_event w (H_Add bus exported aid data impl)) = fst (client_step g width env w e)"
    "\<exists>e. fst (hce_world_event w (H_Remove aid)) = fst (client_step g width env w e)"
    "\<exists>e. fst (hce_world_event w H_Clear) = fst (client_step g width env w e)" for aid data impl
    by (rule exI [of _ "E_HceAdd bus exported aid data impl"], simp) (rule exI [of _ "E_HceRemove aid"], simp,
      rule exI [of _ E_HceClear], simp)
  show ?thesis
    by (cases call) (auto simp: method_defs case_prod_unfold Let_def reads hce simp del: client_step.simps
        split: option.split jvalue.split)
qed

lemma world_step:
  assumes "reachable g width env (dm_world d)"
  shows "reachable g width env (dm_world (fst (daemon_step g width env ls d e)))"
proof -
  have client: "reachable g width env (fst (client_step g width env (dm_world d) ce))" for ce
    by (rule reach_step [OF assms])
  show ?thesis
  proof (cases e)
    case (D_Call call m bus exported)
    with method_world [of ls env bus exported call "dm_world d" m g width] assms client show ?thesis
      by (auto simp: daemon_call_def case_prod_unfold Let_def)
  next
    case (D_Result i ev)
    with assms show ?thesis
      by (auto simp: daemon_result_def case_prod_unfold Let_def split: option.split started.split)
  qed (use assms client in \<open>auto simp: daemon_signal_def daemon_enabled_def daemon_passport_def daemon_registered_def
      case_prod_unfold Let_def simp del: client_step.simps split: option.split started.split\<close>)
qed

interpretation daemon_client: invariant_machine "daemon_step g width env ls" "\<lambda>d. reachable g width env (dm_world d)" for g width env ls
  by unfold_locales (rule world_step)

lemma daemon_world_reachable: "reachable g width env (dm_world (fst (run (daemon_step g width env ls) daemon_init es)))"
  by (rule daemon_client.inv_run) (simp add: daemon_init_def reach_init)

section \<open>Writing, cloning and locking come to an end\<close>

definition on_tag :: "started \<Rightarrow> bool" where
  "on_tag st \<longleftrightarrow> (case st of StartedWrite req \<Rightarrow> True | StartedClone req \<Rightarrow> True | StartedLock req \<Rightarrow> True | _ \<Rightarrow> False)"

definition request_fuel :: "started \<Rightarrow> nat" where
  "request_fuel st = (case st of StartedWrite req \<Rightarrow> write_fuel req | StartedClone req \<Rightarrow> write_fuel req
     | StartedLock req \<Rightarrow> lock_fuel req | _ \<Rightarrow> 0)"

fun result_for :: "nat \<Rightarrow> daemon_event \<Rightarrow> bool" where
  "result_for i (D_Result j ev) = (j = i)"
| "result_for i e = False"

lemma request_next_fuel:
  assumes "live_request st" "on_tag st" "request_next c ev st = Some st'"
  shows "on_tag st' \<and> request_fuel st' < request_fuel st"
  using assms writing.fuel_decreases locking.fuel_decreases
  by (cases st) (auto simp: request_next_def on_tag_def request_fuel_def live_request_def case_prod_unfold Let_def
      live_after live_after_lock split: if_splits)

lemma request_kept:
  assumes "known d" "dm_requests d i = Some st" "on_tag st" "\<not> result_for i e"
  shows "dm_requests (fst (daemon_step g width env ls d e)) i = Some st"
proof (cases e)
  case (D_Call call m bus exported)
  have "i < dm_calls d" using assms(1,2) by (simp add: known_def)
  with D_Call assms(2) show ?thesis by (simp add: daemon_call_def case_prod_unfold Let_def)
next
  case (D_Result j ev)
  with assms show ?thesis by (simp add: result_requests)
qed (use assms(2,3) in \<open>auto simp: daemon_signal_def daemon_enabled_def daemon_passport_def daemon_registered_def settle_def
    on_tag_def case_prod_unfold Let_def simp del: client_step.simps split: option.split started.split\<close>)

lemma answered_stays:
  assumes "known d" "i < dm_calls d" "dm_requests d i = None"
  shows "i < dm_calls (fst (daemon_step g width env ls d e)) \<and> dm_requests (fst (daemon_step g width env ls d e)) i = None"
proof (cases "is_call e")
  case True
  with assms(2,3) show ?thesis by (cases e) (auto simp: daemon_call_def case_prod_unfold Let_def)
next
  case False
  from settles_step [OF callback_refs this, of d i g width env ls] assms(2,3) show ?thesis by (auto simp: settles_def)
qed

lemma answered_stays_run:
  "known d \<Longrightarrow> i < dm_calls d \<Longrightarrow> dm_requests d i = None \<Longrightarrow>
    dm_requests (fst (run (daemon_step g width env ls) d es)) i = None"
  by (induction es arbitrary: d) (simp_all add: run_fst_Cons known_step answered_stays del: run.simps(2) daemon_step.simps)

lemma calls_grow: "dm_calls d \<le> dm_calls (fst (run (daemon_step g width env ls) d es))"
proof (induction es arbitrary: d)
  case (Cons e es)
  have "dm_calls d \<le> dm_calls (fst (daemon_step g width env ls d e))"
  proof (cases "is_call e")
    case True
    then show ?thesis by (cases e) (auto simp: daemon_call_def case_prod_unfold Let_def)
  next
    case False
    from settles_step [OF callback_refs this, where d = d and g = g and width = width and env = env and ls = ls]
    show ?thesis by (auto simp: settles_def)
  qed
  with Cons.IH [of "fst (daemon_step g width env ls d e)"] show ?case
    by (simp add: run_fst_Cons del: run.simps(2) daemon_step.simps)
qed simp

lemma tag_request_ends:
  "known d \<Longrightarrow> dm_requests d i = Some st \<Longrightarrow> on_tag st \<Longrightarrow> request_fuel st < length (filter (result_for i) es) \<Longrightarrow>
    dm_requests (fst (run (daemon_step g width env ls) d es)) i = None"
proof (induction es arbitrary: d st)
  case (Cons e es)
  let ?d = "fst (daemon_step g width env ls d e)"
  have d: "known ?d" by (rule known_step [OF Cons.prems(1)])
  show ?case
  proof (cases "result_for i e")
    case False
    from Cons.IH [OF d request_kept [OF Cons.prems(1-3) False] Cons.prems(3)] Cons.prems(4) False show ?thesis
      by (simp add: run_fst_Cons del: run.simps(2) daemon_step.simps)
  next
    case True
    then obtain ev where e: "e = D_Result i ev" by (cases e) auto
    have known: "i < dm_calls d" "live_request st" using Cons.prems(1,2) by (auto simp: known_def)
    have rest: "dm_requests ?d i = request_next (client (dm_world d)) ev st" "dm_calls ?d = dm_calls d"
      using Cons.prems(2) settles_result [OF callback_refs, of d i ls i ev] by (simp_all add: e result_requests settles_def)
    show ?thesis
    proof (cases "request_next (client (dm_world d)) ev st")
      case None
      with answered_stays_run [OF d, of i g width env ls es] rest known(1) show ?thesis
        by (simp add: run_fst_Cons del: run.simps(2) daemon_step.simps)
    next
      case (Some st')
      from request_next_fuel [OF known(2) Cons.prems(3) Some] Cons.IH [OF d, of st'] rest(1) Some Cons.prems(4) True
      show ?thesis by (simp add: run_fst_Cons del: run.simps(2) daemon_step.simps)
    qed
  qed
qed simp

text \<open>
  C9.  A write, clone or lock in flight is answered, exactly once, at the latest when nfcd has given
  six results for it, whatever they are and whatever else happens in between: other calls,
  tags coming and going, nfcd disappearing.
\<close>

theorem tag_requests_answered:
  assumes "ls_schema ls" and "dm_requests (fst (run (daemon_step g width env ls) daemon_init es0)) i = Some st"
    and "on_tag st" and "6 \<le> length (filter (result_for i) es)"
  shows "answers_to i (snd (run (daemon_step g width env ls) daemon_init (es0 @ es))) = 1"
proof -
  let ?start = "fst (run (daemon_step g width env ls) daemon_init es0)"
  let ?d = "fst (run (daemon_step g width env ls) daemon_init (es0 @ es))"
  have d0: "known ?start" by (rule daemon_states.inv_run [OF known_init])
  have "request_fuel st < 6"
    by (auto simp: request_fuel_def write_fuel_def lock_fuel_def split: started.split write_stage.split lock_stage.split)
  then have "dm_requests (fst (run (daemon_step g width env ls) ?start es)) i = None"
    using tag_request_ends [OF d0 assms(2,3), of es] assms(4) by simp
  then have over: "dm_requests ?d i = None" by (simp add: run_append case_prod_unfold Let_def)
  have "i < dm_calls ?start" using d0 assms(2) by (simp add: known_def)
  moreover have "dm_calls ?start \<le> dm_calls ?d" by (simp add: run_append case_prod_unfold Let_def calls_grow)
  ultimately show ?thesis
    using answered_run [OF assms(1), of i g width env "es0 @ es"] over by simp
qed

text \<open>A Type 2 tag comes into the field, is read, and is to be locked; then nfcd only fails.\<close>

definition type2_info :: tag_info where
  "type2_info = blank_info\<lparr>ti_protocol := 2, ti_interfaces := [TAG_IFACE_TYPE2]\<rparr>"

definition demo_lock_events :: "daemon_event list" where
  "demo_lock_events = [D_Signal (E_AdapterGetAll (Some demo_adapter)), D_Signal (E_Tag 0 call_ok),
     D_Signal (E_Tag 0 (call_ok\<lparr>t_info := type2_info\<rparr>)), D_Signal (E_Tag 0 call_ok), D_Signal (E_Tag 0 call_ok),
     D_Call LockTag demo_message True True]"

definition failed_result :: req_event where
  "failed_result = \<lparr>q_ok = False, q_message = [], q_written = 0, q_data = []\<rparr>"

theorem tag_requests_answered_witness:
  "answers_to 0 (snd (run (daemon_step demo_glib 64 demo_env demo_luna) daemon_init
     (demo_lock_events @ replicate 6 (D_Result 0 failed_result)))) = 1"
proof -
  have schema: "ls_schema demo_luna" by (simp add: demo_luna_def)
  let ?st = "dm_requests (fst (run (daemon_step demo_glib 64 demo_env demo_luna) daemon_init demo_lock_events)) 0"
  have "case ?st of Some st \<Rightarrow> on_tag st | None \<Rightarrow> False" by code_simp
  then obtain st where st: "?st = Some st" "on_tag st" by (auto split: option.splits)
  have "6 \<le> length (filter (result_for 0) (replicate 6 (D_Result 0 failed_result)))" by code_simp
  from tag_requests_answered [OF schema st this] show ?thesis .
qed

end
