(* ===== verification/Subscriptions.thy ===== *)
theory Subscriptions
  imports Daemon_Facts
begin

text \<open>
  Subscribers are kept up to date: what a subscriber of getTagInfo or getCardEmulationEvent was
  last sent is what the method would answer now, and for getStatus all but the version of
  nfcd and the path of the adapter.
\<close>

section \<open>What a read of a tag publishes\<close>

text \<open>The parts of the client getTagInfo shows.\<close>

definition tag_view :: "nfcd_client \<Rightarrow> bool \<times> jvalue option" where
  "tag_view c = (present c, tag_json c)"

definition status_view :: "nfcd_client \<Rightarrow> bool \<times> bool \<times> bool \<times> bool \<times> nat \<times> nat \<times> nat" where
  "status_view c = (available c, nfcd_client_is_enabled c, powered c, present c, mode c, supported_modes c, techs c)"

definition hce_view :: "nfcd_client \<Rightarrow> (bytes \<times> bool) option" where
  "hce_view c = nfcd_client_get_hce_event c"

lemmas views = tag_view_def status_view_def hce_view_def nfcd_client_is_enabled_def nfcd_client_get_hce_event_def

definition same_views :: "nfcd_client \<Rightarrow> nfcd_client \<Rightarrow> bool" where
  "same_views c c' \<longleftrightarrow> tag_view c' = tag_view c \<and> status_view c' = status_view c \<and> hce_view c' = hce_view c"

definition read_notices :: "tag_out \<Rightarrow> nfcd_client list" where
  "read_notices out = (case out of OutNotifyTag c \<Rightarrow> [c] | _ \<Rightarrow> [])"

lemma read_notices_simps [simp]:
  "read_notices (OutNotifyTag c) = [c]" "read_notices (OutCall call) = []" "read_notices OutFreeRead = []"
  by (simp_all add: read_notices_def)

definition read_told :: "nfcd_client \<Rightarrow> tag_step \<Rightarrow> bool" where
  "read_told c s \<longleftrightarrow> last (tag_view c # map tag_view (concat (map read_notices (snd (snd s))))) = tag_view (fst s)
     \<and> status_view (fst s) = status_view c \<and> hce_view (fst s) = hce_view c"

lemma told_same: "same_views c c' \<Longrightarrow> read_told c' s \<Longrightarrow> read_told c s"
  by (simp add: read_told_def same_views_def)

lemma told_plain:
  "read_told c (tag_read_free c r)" "read_told c (tag_read_finish c r)" "read_told c (tag_wait c r call st)"
  "read_told c (mifare_send_auth c r k)" "read_told c (mifare_read_block c r b)"
  "read_told c (tag_read_free (c\<lparr>reading := x\<rparr>) r)" "read_told c (c, r, [])"
  by (simp_all add: read_told_def views tag_read_free_def
      tag_read_finish_def Let_def tag_wait_def mifare_send_auth_def mifare_read_block_def)

lemma told_next_sector: "read_told c (tag_read_mifare_next_sector c r)"
  by (auto simp: tag_read_mifare_next_sector_def told_plain mifare_publish_progress_def mifare_try_cached_key_def
      Let_def split: option.split)
    (simp_all add: read_told_def mifare_send_auth_def tag_wait_def views)

lemma told_mifare:
  "read_told c (mifare_next_attempt c r)" "read_told c (mifare_sector_done c r)" "read_told c (tag_read_mifare_start c r)"
proof -
  show "read_told c (mifare_next_attempt c r)" "read_told c (tag_read_mifare_start c r)"
    by (simp_all add: mifare_next_attempt_def tag_read_mifare_try_key_def tag_read_mifare_start_def
        told_plain told_next_sector)
  have "same_views c (mifare_cache_store c u s k)" for u s k
    by (simp add: mifare_cache_store_def same_views_def views Let_def split: option.split)
  then show "read_told c (mifare_sector_done c r)"
    unfolding mifare_sector_done_def Let_def by (rule told_same [OF _ told_next_sector])
qed

lemma told_records: "read_told c (tag_read_next_record c r)"
  by (simp add: tag_read_next_record_def tag_read_raw_data_def told_plain)

lemma told_get_all: "read_told c (tag_get_all_ready c r ev)"
proof -
  have "same_views c (c\<lparr>tag_protocol := x\<rparr>)" for x by (simp add: same_views_def views)
  note same = told_same [OF this]
  show ?thesis
    by (simp add: tag_get_all_ready_def Let_def told_plain same [OF told_mifare(3)] same [OF told_records])
qed

lemma told_read_step: "read_told c (tag_read_step g w c r ev)"
  by (cases "tr_stage r")
    (auto simp: tag_read_step_def tag_proxy_ready_def ndef_proxy_ready_def ndef_get_all_ready_def
      raw_data_proxy_ready_def raw_data_ready_def mifare_auth_ready_def mifare_block_read_ready_def told_plain
      told_records told_get_all told_mifare Let_def split: option.split)

section \<open>What the client publishes\<close>

definition tag_notices :: "client_out \<Rightarrow> nfcd_client list" where
  "tag_notices out = (case out of NotifyState c \<Rightarrow> [c] | NotifyTag c \<Rightarrow> [c] | FromRead a r \<Rightarrow> read_notices r | _ \<Rightarrow> [])"

definition state_notices :: "client_out \<Rightarrow> nfcd_client list" where
  "state_notices out = (case out of NotifyState c \<Rightarrow> [c] | _ \<Rightarrow> [])"

definition hce_notices :: "client_out \<Rightarrow> nfcd_client list" where
  "hce_notices out = (case out of FromHce (HceNotify c) \<Rightarrow> [c] | _ \<Rightarrow> [])"

lemmas notices_def = tag_notices_def state_notices_def hce_notices_def

definition told :: "'g world \<Rightarrow> 'g world_step \<Rightarrow> bool" where
  "told w s \<longleftrightarrow>
     last (tag_view (client w) # map tag_view (concat (map tag_notices (snd s)))) = tag_view (client (fst s))
     \<and> last (status_view (client w) # map status_view (concat (map state_notices (snd s)))) = status_view (client (fst s))
     \<and> last (hce_view (client w) # map hce_view (concat (map hce_notices (snd s)))) = hce_view (client (fst s))"

text \<open>Effects that notify no one, and changes no view shows.\<close>

definition silent :: "client_out list \<Rightarrow> bool" where
  "silent outs \<longleftrightarrow> (\<forall>out \<in> set outs. tag_notices out = [] \<and> state_notices out = [] \<and> hce_notices out = [])"

lemma silent_concat:
  "silent outs \<Longrightarrow> concat (map tag_notices outs) = [] \<and> concat (map state_notices outs) = [] \<and> concat (map hce_notices outs) = []"
  by (auto simp: silent_def)

lemma told_silent: "silent outs \<Longrightarrow> same_views (client w) (client w') \<Longrightarrow> told w (w', outs)"
  by (simp add: told_def same_views_def silent_concat)

lemma told_changed: "told w (changed w c)" if "hce_view c = hce_view (client w)"
  using that by (simp add: told_def notices_def)

lemma told_set_tag: "told w (set_current_tag w p)"
  by (cases p)
    (simp_all add: set_current_tag_def tag_read_start_def abort_passport_read_def abort_tag_read_def told_def notices_def views
      Let_def split: option.split)

lemma told_later:
  assumes "told w' (w'', outs)" "same_views (client w) (client w')"
  shows "told w (w'', outs)"
  using assms by (simp only: told_def same_views_def fst_conv snd_conv)

text \<open>A state notification before or after further effects.\<close>

lemma told_notify_first:
  assumes "told w' (w'', outs)" "hce_view (client w') = hce_view (client w)"
  shows "told w (w'', NotifyState (client w') # outs)"
  using assms by (simp add: told_def notices_def [of "NotifyState c" for c])

lemma told_notify_last:
  assumes "told w (w', outs)"
  shows "told w (w', outs @ [NotifyState (client w')])"
  using assms by (simp add: told_def notices_def [of "NotifyState c" for c])

lemma told_attach: "told w (attach_adapter w p)"
proof (cases p)
  case None
  let ?w = "w\<lparr>client := (client w)\<lparr>adapter := False, adapter_path := None, available := False\<rparr>\<rparr>"
  have "told ?w (set_current_tag ?w None)" by (rule told_set_tag)
  then have "last (hce_view (client w) # map hce_view (concat (map hce_notices (snd (set_current_tag ?w None)))))
      = hce_view (client (fst (set_current_tag ?w None)))" by (simp add: told_def views)
  with None show ?thesis
    by (simp add: attach_adapter_def told_def notices_def [of "NotifyState c" for c] case_prod_unfold Let_def)
qed (auto simp: attach_adapter_def intro!: told_silent, simp_all add: silent_def notices_def same_views_def views)

lemma told_daemon:
  "told w (adapter_get_all_ready w info)" "told w (daemon_get_all_ready w res)" "told w (daemon_vanished w)"
proof -
  have idle: "told w (w, [])" by (simp add: told_def)
  have notify: "told w (fst (set_current_tag (with_client w c) p), NotifyState c # snd (set_current_tag (with_client w c) p))"
    if "hce_view c = hce_view (client w)" for c p
    using told_notify_first [of "with_client w c" _ _ w] told_set_tag [of "with_client w c" p] that by simp
  show "told w (adapter_get_all_ready w info)"
    by (cases info) (simp_all add: adapter_get_all_ready_def update_tags_def case_prod_unfold Let_def idle notify
        hce_view_def nfcd_client_get_hce_event_def)
  have attach: "told w (attach_adapter (w\<lparr>client := c\<rparr>) p)" if "same_views (client w) c" for c p
    using told_later [of "w\<lparr>client := c\<rparr>" "fst (attach_adapter (w\<lparr>client := c\<rparr>) p)" "snd (attach_adapter (w\<lparr>client := c\<rparr>) p)" w]
      told_attach [of "w\<lparr>client := c\<rparr>" p] that by simp
  show "told w (daemon_get_all_ready w res)"
    by (cases res) (auto simp: daemon_get_all_ready_def idle intro!: attach, simp_all add: same_views_def views)
  show "told w (daemon_vanished w)"
    unfolding daemon_vanished_def by (rule attach) (simp add: same_views_def views)
qed

lemma told_reads:
  "told w (tag_read_event g width w a ev)" "told w (passport_read_event env w a pev)"
  "told w (nfcd_client_read_passport ossl w doc dob expiry ph)" "told w (nfcd_client_read_passport_pace w can ph)"
proof -
  have idle: "told w (w, [])" by (simp add: told_def)
  have notices: "tag_notices (FromRead a out) = read_notices out" "state_notices (FromRead a out) = []"
    "hce_notices (FromRead a out) = []" for out
    by (simp_all add: notices_def)
  have none: "concat (map (\<lambda>x. []) xs) = []" for xs :: "tag_out list" by (induction xs) simp_all
  show "told w (tag_read_event g width w a ev)"
  proof (cases "tag_reads w a")
    case (Some r)
    from told_read_step [of "client w" g width r ev] Some idle show ?thesis
      by (auto simp: tag_read_event_def told_def read_told_def notices none comp_def case_prod_unfold Let_def
          simp del: last.simps)
  qed (simp add: tag_read_event_def idle)
  show "told w (passport_read_event env w a pev)"
    by (cases "passport_reads w a") (auto simp: passport_read_event_def idle case_prod_unfold Let_def intro!: told_silent,
      auto simp: silent_def notices_def same_views_def views)
  show "told w (nfcd_client_read_passport ossl w doc dob expiry ph)" "told w (nfcd_client_read_passport_pace w can ph)"
    by (auto simp: nfcd_client_read_passport_def nfcd_client_read_passport_pace_def passport_read_dispatch_def Let_def
        intro!: told_silent split: option.split, auto simp: silent_def notices_def same_views_def views)
qed

definition hce_told :: "nfcd_client \<Rightarrow> nfcd_client \<times> hce_out list \<Rightarrow> bool" where
  "hce_told c s \<longleftrightarrow> (\<forall>out \<in> set (snd s). hce_notices (FromHce out) = []) \<and> same_views c (fst s)"

lemma hce_notices_simps:
  "hce_notices (FromHce (HceComplete m)) = []" "hce_notices (FromHce (HceAnswer r sw1 sw2 i)) = []"
  "hce_notices (FromHce (HceCall call)) = []" "hce_notices (FromHce (HceReply ok err)) = []"
  "hce_notices (FromHce (HceNotify c)) = [c]"
  by (simp_all add: notices_def)

lemma hce_told_register: "\<forall>out \<in> set (hce_do_register c p aid). hce_notices (FromHce out) = []"
  by (simp add: hce_do_register_def hce_notices_simps)

lemma hce_told_add:
  "hce_told c (fst (nfcd_client_add_card_emulation_profile c addr bus exported aid data impl),
     fst (snd (nfcd_client_add_card_emulation_profile c addr bus exported aid data impl)))"
  by (auto simp: nfcd_client_add_card_emulation_profile_def hce_told_def hce_told_register hce_export_skeleton_def
      same_views_def views Let_def hce_notices_simps split: option.split)

lemma hce_told_remove: "hce_told c (nfcd_client_remove_card_emulation_profile c aid)"
  by (auto simp: nfcd_client_remove_card_emulation_profile_def hce_told_def same_views_def views Let_def
      hce_notices_simps split: option.split)

lemma hce_told_clear: "hce_told c (nfcd_client_clear_card_emulation c)"
  by (auto simp: nfcd_client_clear_card_emulation_def hce_told_def same_views_def views Let_def hce_notices_simps)

lemma hce_told_registered: "hce_register_ready c addr err = Some s \<Longrightarrow> hce_told c s"
  by (auto simp: hce_register_ready_def update_profile_def hce_told_def same_views_def views hce_notices_simps
      split: option.splits if_splits)

lemma told_hce_quiet:
  assumes "hce_told (client w) (client w', outs)"
  shows "told w (w', map FromHce outs)"
  using assms by (intro told_silent) (auto simp: hce_told_def silent_def tag_notices_def state_notices_def)

lemma told_hce: "told w (hce_world_event w e)"
proof (cases e)
  case (H_Add bus exported aid data impl)
  from hce_told_add [of "client w" "next_address w" bus exported aid data impl] show ?thesis
    by (simp add: H_Add hce_world_event_def case_prod_unfold Let_def told_hce_quiet)
next
  case (H_Remove aid)
  from hce_told_remove [of "client w" aid] show ?thesis
    by (simp add: H_Remove hce_world_event_def case_prod_unfold Let_def told_hce_quiet)
next
  case H_Clear
  from hce_told_clear [of "client w"] show ?thesis
    by (simp add: H_Clear hce_world_event_def case_prod_unfold Let_def told_hce_quiet)
next
  case (H_Registered addr err)
  have "told w (w', [])" if "client w' = client w" for w' :: "'a world"
    using that by (simp add: told_def)
  with H_Registered hce_told_registered [of "client w" addr err] show ?thesis
    by (auto simp: hce_world_event_def told_hce_quiet split: option.split)
next
  case (H_Status aid ok)
  show ?thesis
    by (cases "map_of (hce_profiles (client w)) aid")
      (simp_all add: H_Status hce_world_event_def hce_handle_response_status_def told_def notices_def views Let_def)
qed (auto simp: hce_world_event_def hce_mode_ready_def hce_handle_process_def Let_def hce_told_def same_views_def views
    hce_notices_simps intro!: told_hce_quiet [where outs = "[]", simplified] told_hce_quiet [where outs = "[x]" for x, simplified]
    split: option.split)

lemma told_enabled: "told w (w, nfcd_client_set_enabled (client w) b)" "told w (w, set_enabled_ready err)"
  by (auto simp: nfcd_client_set_enabled_def set_enabled_ready_def told_def notices_def split: option.split)

lemma told_quiet: "same_views (client w) c \<Longrightarrow> told w (with_client w c, [ClientCall call])"
  "same_views (client w) c \<Longrightarrow> told w (with_client w c, [])"
  "told w (w, [ClientCall call])" "told w (w, [])"
  by (auto simp: told_def same_views_def notices_def)

lemma told_handlers:
  "told w (adapter_enabled_changed w b)" "told w (adapter_powered_changed w b)" "told w (adapter_mode_changed w m)"
  "told w (adapter_present_changed w b)" "told w (adapter_tags_changed w tags)" "told w (adapter_proxy_ready w b)"
  "told w (daemon_adapters_changed w tags)" "told w (request_reader_writer_mode_ready w rid)"
  "told w (daemon_proxy_ready w b)" "told w (daemon_appeared w)" "told w (settings_enabled_changed w b)"
  "told w (settings_get_all_ready w en)" "told w (settings_proxy_ready w b)" "told w (settings_appeared w)"
  "told w (settings_vanished w)"
proof -
  note hce = hce_view_def nfcd_client_get_hce_event_def
  show "told w (adapter_enabled_changed w b)" "told w (adapter_powered_changed w b)" "told w (adapter_mode_changed w m)"
    "told w (adapter_present_changed w b)" "told w (settings_enabled_changed w b)" "told w (settings_vanished w)"
    unfolding adapter_enabled_changed_def adapter_powered_changed_def adapter_mode_changed_def adapter_present_changed_def
      settings_enabled_changed_def settings_vanished_def by (rule told_changed, simp add: hce)+
  show "told w (settings_get_all_ready w en)"
    by (cases en) (simp_all add: settings_get_all_ready_def told_quiet told_changed hce del: changed_def)
  show "told w (adapter_tags_changed w tags)" "told w (daemon_adapters_changed w tags)"
    by (simp_all add: adapter_tags_changed_def update_tags_def daemon_adapters_changed_def told_set_tag told_attach)
  show "told w (daemon_proxy_ready w b)"
    by (simp add: daemon_proxy_ready_def told_quiet) (simp add: told_def notices_def views)
  show "told w (adapter_proxy_ready w b)" "told w (request_reader_writer_mode_ready w rid)" "told w (daemon_appeared w)"
    "told w (settings_proxy_ready w b)" "told w (settings_appeared w)"
    by (auto simp: adapter_proxy_ready_def request_reader_writer_mode_ready_def daemon_appeared_def settings_proxy_ready_def
        settings_appeared_def same_views_def views intro!: told_quiet split: option.split)
qed

lemma told_step: "told w (client_step g width env w e)"
  by (cases e) (simp_all only: client_step.simps told_handlers told_daemon told_reads told_hce told_enabled
    passport_release_ready_def told_quiet)

section \<open>What the service publishes\<close>

text \<open>No method changes what a subscriber can see: it starts something, or answers.\<close>

lemma same_views_refl [simp]: "same_views c c"
  by (simp add: same_views_def)

lemma methods_same_views: "same_views (client w) (client (fst (nfc_service_methods ls ossl bus exported call w m)))"
proof -
  have reads: "same_views (client w) (client (fst (nfcd_client_read_passport ossl w doc dob expiry ph)))"
    "same_views (client w) (client (fst (nfcd_client_read_passport_pace w can ph)))" for doc dob expiry can ph
    by (auto simp: nfcd_client_read_passport_def nfcd_client_read_passport_pace_def passport_read_dispatch_def Let_def
        same_views_def views split: option.split)
  have hce: "same_views (client w) (client (fst (hce_world_event w (H_Add bus exported aid data impl))))"
    "same_views (client w) (client (fst (hce_world_event w (H_Remove aid))))"
    "same_views (client w) (client (fst (hce_world_event w H_Clear)))" for aid data impl
    using hce_told_add [of "client w" "next_address w" bus exported aid data impl] hce_told_remove [of "client w" aid]
      hce_told_clear [of "client w"]
    by (simp_all add: hce_world_event_def hce_told_def case_prod_unfold Let_def)
  show ?thesis
    by (cases call) (auto simp: method_defs case_prod_unfold Let_def reads hce split: option.split jvalue.split)
qed

definition posted :: "string \<Rightarrow> service_out \<Rightarrow> jvalue list" where
  "posted n out = (case out of Post m j \<Rightarrow> if m = n then [j] else [] | _ \<Rightarrow> [])"

definition own_posted :: "string \<Rightarrow> daemon_out \<Rightarrow> jvalue list" where
  "own_posted n out = (case out of Own x \<Rightarrow> posted n x | For i x \<Rightarrow> [])"

lemma posted_simps [simp]:
  "posted n (Post m j) = (if m = n then [j] else [])" "posted n (FromClient out) = []"
  "own_posted n (Own x) = posted n x" "own_posted n (For i x) = []"
  by (simp_all add: posted_def own_posted_def)

lemma last_seen:
  assumes "last (V c # map V cs) = V c'" "\<And>a b. V a = V b \<Longrightarrow> f a = f b"
  shows "last (f c # map f cs) = f c'"
proof -
  have "last (V c # map V cs) = V (last (c # cs))" "last (f c # map f cs) = f (last (c # cs))"
    using last_map [of "c # cs" V] last_map [of "c # cs" f] by (simp_all del: last.simps)
  with assms(1) assms(2) [of "last (c # cs)" c'] show ?thesis by (simp del: last.simps)
qed


text \<open>
  A subscribable method: what its callbacks post, the part of the client that shows in it, and
  how.  The laws: the callbacks post the client they are told of, the client tells of every
  change (\<open>told\<close>), and no callback of a request is such a notification.
\<close>

locale topic =
  fixes ls :: luna and g :: glib_utf and width :: nat and env :: "('g, 'p) crypto_env"
    and name :: string and notices :: "client_out \<Rightarrow> nfcd_client list" and part :: "nfcd_client \<Rightarrow> 'v"
    and shown :: "nfcd_client \<Rightarrow> 'j" and reading_of :: "jvalue \<Rightarrow> 'j"
  assumes posts: "ls_schema ls \<Longrightarrow> map reading_of (concat (map (posted name) (notified ls out))) = map shown (notices out)"
    and replies: "notices (EnabledReply ok err) = []" "notices (FromPassport a pout) = []" "notices (FromHce (HceReply ok err)) = []"
    and determined: "part c = part c' \<Longrightarrow> shown c = shown c'"
    and same: "same_views c c' \<Longrightarrow> part c' = part c"
    and current: "told (w :: 'g world) s \<Longrightarrow>
      last (part (client w) # map part (concat (map notices (snd s)))) = part (client (fst s))"
begin

definition only_replies :: "(client_out \<Rightarrow> daemon_out list) \<Rightarrow> bool" where
  "only_replies reply \<longleftrightarrow> (\<forall>out. \<forall>x \<in> set (reply out). own_posted name x = [] \<and> notices out = [])"

lemma posts_effects:
  assumes "ls_schema ls" "only_replies reply"
  shows "map reading_of (concat (map (own_posted name) (client_effects ls reply outs))) = map shown (concat (map notices outs))"
proof (induction outs)
  case (Cons out outs)
  have posts_own: "concat (map (own_posted name) (map Own xs)) = concat (map (posted name) xs)" for xs
    by (induction xs) simp_all
  have "map reading_of (concat (map (own_posted name)
      (if reply out = [] then Own (FromClient out) # map Own (notified ls out) else reply out))) = map shown (notices out)"
  proof (cases "reply out = []")
    case True
    then show ?thesis by (simp add: posts_own posts [OF assms(1)] del: map_map map_concat)
  next
    case False
    then obtain x where "x \<in> set (reply out)" by (cases "reply out") auto
    with assms(2) have "notices out = []" by (auto simp: only_replies_def)
    moreover have "concat (map (own_posted name) (reply out)) = []" using assms(2) by (simp add: concat_eq_Nil_conv only_replies_def)
    ultimately show ?thesis using False by simp
  qed
  with Cons.IH show ?case by (simp add: client_effects_def)
qed (simp add: client_effects_def)

definition seen :: "'g daemon_state \<Rightarrow> 'j" where
  "seen d = shown (client (dm_world d))"

definition sent :: "daemon_out \<Rightarrow> 'j list" where
  "sent out = map reading_of (own_posted name out)"

lemma concat_sent: "concat (map sent outs) = map reading_of (concat (map (own_posted name) outs))"
  by (induction outs) (simp_all add: sent_def)

lemma seen_steps:
  assumes "ls_schema ls" "only_replies reply"
  shows "last (shown (client w) # concat (map sent (client_effects ls reply (snd (client_step g width env w e)))))
    = shown (client (fst (client_step g width env w e)))"
  unfolding concat_sent posts_effects [OF assms]
  by (rule last_seen [OF current [OF told_step] determined])

lemma sent_for_one: "sent (For i x) = []"
  by (simp add: sent_def)

lemma replies_only:
  "only_replies (passport_answer ls i)" "only_replies (registered_answer ls i)" "only_replies (\<lambda>out. [])"
  by (auto simp: only_replies_def passport_answer_def registered_answer_def replies split: client_out.splits passport_out.splits hce_out.splits)

lemma seen_call: "last (seen d # concat (map sent (snd (daemon_call ls ossl d call m bus exported))))
    = seen (fst (daemon_call ls ossl d call m bus exported))"
  using determined [OF same [OF methods_same_views [where w = "dm_world d" and ls = ls and ossl = ossl and bus = bus
    and exported = exported and call = call and m = m]]]
  by (simp add: daemon_call_def case_prod_unfold Let_def sent_for_one seen_def)

lemma seen_result: "last (seen d # concat (map sent (snd (daemon_result ls d i ev)))) = seen (fst (daemon_result ls d i ev))"
  by (auto simp: daemon_result_def case_prod_unfold Let_def sent_for_one seen_def split: option.split started.split)

lemma seen_enabled:
  assumes "ls_schema ls"
  shows "last (seen d # concat (map sent (snd (daemon_enabled ls d i err)))) = seen (fst (daemon_enabled ls d i err))"
proof -
  have "concat (map sent (client_effects ls (\<lambda>out. case out of EnabledReply s e \<Rightarrow> map (For i) (set_enabled_result_cb ls s e) | _ \<Rightarrow> [])
      (set_enabled_ready err))) = []"
    by (cases err) (simp_all add: set_enabled_ready_def client_effects_def sent_def notified_def comp_def)
  then show ?thesis by (auto simp: daemon_enabled_def seen_def split: option.split started.split)
qed

lemma seen_step:
  assumes "ls_schema ls"
  shows "last (seen d # concat (map sent (snd (daemon_step g width env ls d e)))) = seen (fst (daemon_step g width env ls d e))"
proof (cases e)
  case (D_Signal ce)
  from seen_steps [OF assms replies_only(3), of "dm_world d" ce] D_Signal show ?thesis
    by (simp add: daemon_signal_def case_prod_unfold Let_def seen_def last_ConsL del: client_step.simps last.simps)
next
  case (D_Passport i ev)
  from seen_steps [OF assms replies_only(1), of "dm_world d"] D_Passport show ?thesis
    by (simp add: daemon_passport_def case_prod_unfold Let_def seen_def last_ConsL del: client_step.simps last.simps
        split: option.split started.split)
next
  case (D_Registered i err)
  from seen_steps [OF assms replies_only(2), of "dm_world d"] D_Registered show ?thesis
    by (simp add: daemon_registered_def case_prod_unfold Let_def seen_def last_ConsL del: client_step.simps last.simps
        split: option.split started.split)
qed (simp_all only: daemon_step.simps seen_call seen_result seen_enabled [OF assms])

end

sublocale topic \<subseteq> published: publishing_machine "daemon_step g width env ls" "\<lambda>d. ls_schema ls" seen sent
  by unfold_locales (simp_all only: seen_step)

lemmas callback_defs = notified_def state_changed_cb_def tag_changed_cb_def hce_changed_cb_def luna_service_post_subscription_def

interpretation tag_topic: topic ls g width env "''getTagInfo''" tag_notices tag_view build_tag_info "\<lambda>j. j" for ls g width env
proof
  show "map (\<lambda>j. j) (concat (map (posted ''getTagInfo'') (notified ls out))) = map build_tag_info (tag_notices out)"
    if "ls_schema ls" for out
    using that by (auto simp: callback_defs notices_def read_notices_def split: client_out.split tag_out.split hce_out.split)
qed (simp_all add: told_def same_views_def notices_def build_tag_info_def views nfcd_client_is_present_def
  nfcd_client_get_tag_json_def)

interpretation hce_topic: topic ls g width env "''getCardEmulationEvent''" hce_notices hce_view build_hce_event "\<lambda>j. j"
  for ls g width env
proof
  show "map (\<lambda>j. j) (concat (map (posted ''getCardEmulationEvent'') (notified ls out))) = map build_hce_event (hce_notices out)"
    if "ls_schema ls" for out
    using that by (auto simp: callback_defs notices_def split: client_out.split tag_out.split hce_out.split)
qed (simp_all add: told_def same_views_def notices_def build_hce_event_def hce_view_def)

text \<open>The status without the two fields whose changes are not always announced.\<close>

definition announced :: "jvalue \<Rightarrow> string \<Rightarrow> jvalue option" where
  "announced j k = (if k = ''daemonVersion'' \<or> k = ''adapterPath'' then None else jget j k)"

lemma announced_put:
  "is_jobj j \<Longrightarrow> announced (jobject_put k v j) =
    (if k = ''daemonVersion'' \<or> k = ''adapterPath'' then announced j else (announced j)(k \<mapsto> v))"
  by (auto simp: announced_def fun_eq_iff)

lemma announced_status:
  assumes "status_view c = status_view c'"
  shows "announced (build_status c) = announced (build_status c')"
  using assms by (simp add: build_status_def status_view_def announced_put nfcd_client_get_techs_def
      nfcd_client_get_supported_modes_def nfcd_client_get_mode_def nfcd_client_is_present_def nfcd_client_is_powered_def
      nfcd_client_is_available_def Let_def split: option.split)

interpretation status_topic: topic ls g width env "''getStatus''" state_notices status_view "\<lambda>c. announced (build_status c)" announced
  for ls g width env
proof
  show "map announced (concat (map (posted ''getStatus'') (notified ls out))) = map (\<lambda>c. announced (build_status c)) (state_notices out)"
    if "ls_schema ls" for out
    using that by (auto simp: callback_defs notices_def split: client_out.split tag_out.split hce_out.split)
  show "announced (build_status c) = announced (build_status c')" if "status_view c = status_view c'" for c c'
    by (rule announced_status [OF that])
qed (simp_all add: told_def same_views_def notices_def)

section \<open>Subscribers are up to date\<close>

text \<open>What a subscriber knows who knew \<open>j\<close> before the effects \<open>outs\<close>: the last thing it was sent.\<close>

definition last_sent :: "string \<Rightarrow> jvalue \<Rightarrow> daemon_out list \<Rightarrow> jvalue" where
  "last_sent n j outs = last (j # concat (map (own_posted n) outs))"

text \<open>
  C4.  From any state and over any sequence of calls, signals and completions: a subscriber who knew
  the answer of the method at the start knows it at the end, from the last thing it was sent.
  For getTagInfo and getCardEmulationEvent that is the whole answer, for getStatus all of it
  but the version of nfcd and the path of the adapter.
\<close>

theorem subscribers_current:
  assumes "ls_schema ls" and "run (daemon_step g width env ls) d es = (d', outs)"
  shows "last_sent ''getTagInfo'' (build_tag_info (client (dm_world d))) outs = build_tag_info (client (dm_world d'))
    \<and> last_sent ''getCardEmulationEvent'' (build_hce_event (client (dm_world d))) outs = build_hce_event (client (dm_world d'))
    \<and> announced (last_sent ''getStatus'' (build_status (client (dm_world d))) outs) = announced (build_status (client (dm_world d')))"
proof -
  note facts = last_sent_def tag_topic.seen_def tag_topic.concat_sent hce_topic.seen_def hce_topic.concat_sent
    status_topic.seen_def status_topic.concat_sent
  have tag: "last_sent ''getTagInfo'' (build_tag_info (client (dm_world d))) outs = build_tag_info (client (dm_world d'))"
    using tag_topic.published.publishes_run [OF assms(1), of d g width env es] assms(2)
    by (simp add: facts del: last.simps)
  have hce: "last_sent ''getCardEmulationEvent'' (build_hce_event (client (dm_world d))) outs = build_hce_event (client (dm_world d'))"
    using hce_topic.published.publishes_run [OF assms(1), of d g width env es] assms(2)
    by (simp add: facts del: last.simps)
  have last: "announced (last (j # js)) = last (announced j # map announced js)" for j js
    using last_map [of "j # js" announced] by (simp del: last.simps)
  have "announced (last_sent ''getStatus'' (build_status (client (dm_world d))) outs) = announced (build_status (client (dm_world d')))"
    using status_topic.published.publishes_run [OF assms(1), of d g width env es] assms(2)
    by (simp add: facts last del: last.simps)
  with tag hce show ?thesis by simp
qed

theorem subscribers_current_witness:
  "last_sent ''getTagInfo'' (build_tag_info nfcd_client_create)
     (snd (run (daemon_step demo_glib 64 demo_env demo_luna) daemon_init demo_lock_events))
   = build_tag_info (client (dm_world (fst (run (daemon_step demo_glib 64 demo_env demo_luna) daemon_init demo_lock_events))))"
proof -
  have schema: "ls_schema demo_luna" by (simp add: demo_luna_def)
  from subscribers_current [OF schema prod.collapse [symmetric], where g = demo_glib and width = 64 and env = demo_env
    and d = daemon_init and es = demo_lock_events]
  show ?thesis by (simp add: daemon_init_def world_init_def del: run.simps)
qed

lemma set_current_tag_keeps:
  "daemon_version (client (fst (set_current_tag w p))) = daemon_version (client w)"
  "adapter_path (client (fst (set_current_tag w p))) = adapter_path (client w)"
  "concat (map (own_posted ''getStatus'') (client_effects ls (\<lambda>_. []) (snd (set_current_tag w p)))) = []"
  by (cases p; simp add: set_current_tag_def tag_read_start_def abort_passport_read_def abort_tag_read_def Let_def
      client_effects_def callback_defs split: option.split)+



end
