(* ===== verification/Main_Loop.thy ===== *)
theory Main_Loop
  imports Service
begin

text \<open>
  The process (\<open>main.c\<close>): its options, the signal descriptor that ends the main loop, the
  order in which the service is created and freed, and what it prints.
\<close>

section \<open>Output\<close>

text \<open>\<open>g_message\<close> ends up in the log handler, which prints the message as a line.\<close>

definition log_handler :: "bytes \<Rightarrow> bytes" where
  "log_handler message = message @ str [CHR 0x0A]"

text \<open>\<open>perror\<close>, with the text of \<open>errno\<close>.\<close>

definition perror :: "string \<Rightarrow> bytes \<Rightarrow> bytes" where
  "perror s errno = str s @ str '': '' @ errno @ str [CHR 0x0A]"

section \<open>Signals\<close>

definition SIGINT :: nat where "SIGINT = 2"
definition SIGTERM :: nat where "SIGTERM = 15"

text \<open>
  The watch on the signal descriptor: whether GLib still has it, and \<open>__terminated\<close>.
\<close>

record signal_state =
  watching :: bool
  terminated :: bool

text \<open>One dispatch: the descriptor failed, or a read of it gave a whole record or not.\<close>

record signal_event =
  sg_failed :: bool
  sg_whole :: bool
  sg_signo :: nat

datatype loop_out = ScheduleQuit | Logged bytes

text \<open>Returning \<open>FALSE\<close> removes the watch.\<close>

definition signal_handler :: "signal_state \<Rightarrow> signal_event \<Rightarrow> signal_state \<times> loop_out list" where
  "signal_handler s ev =
     (if \<not> watching s then (s, [])
      else if sg_failed ev then (s\<lparr>watching := False\<rparr>, [])
      else if \<not> sg_whole ev then (s\<lparr>watching := False\<rparr>, [])
      else if sg_signo ev = SIGINT \<or> sg_signo ev = SIGTERM
        then (s\<lparr>terminated := True\<rparr>, if \<not> terminated s then [Logged (log_handler (str ''Terminating'')), ScheduleQuit] else [])
      else (s, []))"

text \<open>The loop after the scheduled callback ran, and what the callback returns: not to be called again.\<close>

definition quit_eventloop :: "bool \<Rightarrow> bool \<times> bool" where
  "quit_eventloop running = (False, False)"

text \<open>\<open>Some\<close>: the watch exists.  Next to it what goes to standard error.\<close>

definition setup_signalfd :: "bool \<Rightarrow> bool \<Rightarrow> bytes \<Rightarrow> signal_state option \<times> bytes list" where
  "setup_signalfd mask_ok fd_ok errno =
     (if \<not> mask_ok then (None, [perror ''Failed to set signal mask'' errno])
      else if \<not> fd_ok then (None, [perror ''Failed to create signal descriptor'' errno])
      else (Some \<lparr>watching = True, terminated = False\<rparr>, []))"

section \<open>The process\<close>

text \<open>
  What the environment answers.  \<open>nodetach\<close> is a flag with \<open>G_OPTION_FLAG_REVERSE\<close>: giving
  it sets \<open>option_detach\<close> to \<open>FALSE\<close>, which it is to begin with.
\<close>

record process_env =
  args_failed :: "bytes option option"
  nodetach_given :: bool
  version_given :: bool
  daemon_ok :: bool
  mask_ok :: bool
  fd_ok :: bool
  errno_text :: bytes
  bus_ok :: "ls_call \<Rightarrow> bool"

definition VERSION :: bytes where
  "VERSION = str ''0.1''"

definition option_detach :: "process_env \<Rightarrow> bool" where
  "option_detach env = (if nodetach_given env then False else False)"

datatype process_out = Print bytes | PrintErr bytes | Detach | Bus ls_call | RunLoop | RemoveSource

definition main :: "process_env \<Rightarrow> nat \<times> process_out list" where
  "main env =
     (case args_failed env of
        Some (Some message) \<Rightarrow> (1, [PrintErr (message @ str [CHR 0x0A])])
      | Some None \<Rightarrow> (1, [PrintErr (str (''An unknown error occurred'' @ [CHR 0x0A]))])
      | None \<Rightarrow>
          if version_given env then (0, [Print (VERSION @ str [CHR 0x0A])])
          else if option_detach env \<and> \<not> daemon_ok env
            then (1, [Detach, PrintErr (perror (''Can'' @ [CHR 0x27] @ ''t start daemon'') (errno_text env))])
          else
            (let (signals, errs) = setup_signalfd (mask_ok env) (fd_ok env) (errno_text env);
                 (service, calls) = nfc_service_create (bus_ok env) in
             (if service then 0 else 1,
              (if option_detach env then [Detach] else [])
              @ [Print (log_handler (str ''webOS NFC adapter '' @ VERSION))]
              @ map PrintErr errs @ map Bus calls @ (if service then [RunLoop] else [])
              @ [Print (log_handler (str ''Cleaning up''))]
              @ map Bus (nfc_service_free service)
              @ (if signals \<noteq> None then [RemoveSource] else []))))"

section \<open>Facts\<close>

definition quit_weight :: "loop_out \<Rightarrow> int" where
  "quit_weight out = (if out = ScheduleQuit then 1 else 0)"

interpretation signals: balanced_machine signal_handler "\<lambda>s. if terminated s then 1 else 0" quit_weight
proof
  show "(if terminated (fst (signal_handler s e)) then 1 else 0) =
      (if terminated s then 1 else 0) + sum_list (map quit_weight (snd (signal_handler s e)))" for s e
    by (auto simp: signal_handler_def quit_weight_def)
qed

lemma quit_weight_sum: "sum_list (map quit_weight outs) = int (count_list outs ScheduleQuit)"
  by (induction outs) (simp_all add: quit_weight_def)

definition ends_process :: "signal_event \<Rightarrow> bool" where
  "ends_process ev \<longleftrightarrow> \<not> sg_failed ev \<and> sg_whole ev \<and> sg_signo ev \<in> {SIGINT, SIGTERM}"

definition keeps_watch :: "signal_event \<Rightarrow> bool" where
  "keeps_watch ev \<longleftrightarrow> \<not> sg_failed ev \<and> sg_whole ev"

lemma handler_dead: "\<not> watching s \<Longrightarrow> run signal_handler s evs = (s, [])"
  by (induction evs) (simp_all add: signal_handler_def)

lemma terminated_run:
  "watching s \<Longrightarrow> terminated (fst (run signal_handler s evs)) \<longleftrightarrow>
     terminated s \<or> (\<exists>ev \<in> set (takeWhile keeps_watch evs). ends_process ev)"
proof (induction evs arbitrary: s)
  case (Cons ev evs)
  show ?case
  proof (cases "keeps_watch ev")
    case True
    then have "watching (fst (signal_handler s ev))"
      "terminated (fst (signal_handler s ev)) \<longleftrightarrow> terminated s \<or> ends_process ev"
      using Cons.prems by (auto simp: signal_handler_def keeps_watch_def ends_process_def)
    with Cons.IH True show ?thesis by (auto simp: run_fst_Cons simp del: run.simps)
  next
    case False
    then have "\<not> watching (fst (signal_handler s ev))" "terminated (fst (signal_handler s ev)) = terminated s"
      using Cons.prems by (auto simp: signal_handler_def keeps_watch_def)
    with False show ?thesis by (simp add: run_fst_Cons handler_dead del: run.simps)
  qed
qed simp

text \<open>
  The main loop is told to quit at most once, and exactly if a SIGINT or SIGTERM is read before
  the signal descriptor first fails or gives a short read; after that no signal ends the
  process any more.
\<close>

theorem quit_scheduled_once:
  assumes "setup_signalfd blocked opened errno = (Some s, errs)"
  shows "count_list (snd (run signal_handler s evs)) ScheduleQuit =
    (if \<exists>ev \<in> set (takeWhile keeps_watch evs). ends_process ev then 1 else 0)"
proof -
  have s: "watching s" "\<not> terminated s" using assms by (auto simp: setup_signalfd_def split: if_splits)
  have "int (count_list (snd (run signal_handler s evs)) ScheduleQuit) = (if terminated (fst (run signal_handler s evs)) then 1 else 0)"
    using signals.level_run [of s evs] s(2) by (simp add: quit_weight_sum)
  then show ?thesis using terminated_run [OF s(1), of evs] s(2) by (auto split: if_splits)
qed

theorem quit_scheduled_once_witness:
  "count_list (snd (run signal_handler \<lparr>watching = True, terminated = False\<rparr>
     (replicate 3 \<lparr>sg_failed = False, sg_whole = True, sg_signo = 15\<rparr>))) ScheduleQuit = 1"
  using quit_scheduled_once [of True True "[]" "\<lparr>watching = True, terminated = False\<rparr>" "[]"
      "replicate 3 \<lparr>sg_failed = False, sg_whole = True, sg_signo = 15\<rparr>"]
  by (simp add: setup_signalfd_def ends_process_def keeps_watch_def SIGTERM_def numeral_eq_Suc)

text \<open>
  Whatever the environment does: the loop runs exactly if the service was created, and then the
  process exits with 0 unless arguments or detaching failed; every registration with the
  bus that succeeded is undone; and the process never detaches, with or without \<open>-n\<close>.
\<close>

theorem main_cleans_up:
  "main env = (code, outs) \<Longrightarrow>
     (RunLoop \<in> set outs \<longleftrightarrow> Bus ClientCreate \<in> set outs)
     \<and> (RunLoop \<in> set outs \<longrightarrow> code = 0)
     \<and> (Bus ClientCreate \<in> set outs \<longleftrightarrow> Bus ClientFree \<in> set outs)
     \<and> (Bus LSRegister \<in> set outs \<and> bus_ok env LSRegister \<longrightarrow> Bus LSUnregister \<in> set outs)
     \<and> Detach \<notin> set outs"
  by (auto simp: main_def nfc_service_create_def nfc_service_free_def option_detach_def Let_def
      split: if_splits option.splits prod.splits)

definition demo_process :: process_env where
  "demo_process = \<lparr>args_failed = None, nodetach_given = False, version_given = False, daemon_ok = True, mask_ok = True,
     fd_ok = True, errno_text = [], bus_ok = (\<lambda>_. True)\<rparr>"

theorem main_cleans_up_witness:
  "Bus LSUnregister \<in> set (snd (main demo_process)) \<and> Detach \<notin> set (snd (main demo_process))"
proof -
  have "Bus LSRegister \<in> set (snd (main demo_process)) \<and> bus_ok demo_process LSRegister"
    by (simp add: main_def demo_process_def nfc_service_create_def nfc_service_free_def option_detach_def setup_signalfd_def Let_def)
  with main_cleans_up [of demo_process "fst (main demo_process)" "snd (main demo_process)"] show ?thesis by simp
qed

end
