(* ===== verification/Spec2Isabelle.thy ===== *)
theory Spec2Isabelle
  imports Ndef_Facts Client_Refinement Subscriptions Main_Loop
begin

text \<open>
  \<^bold>\<open>Verification of webos-nfc-adapter.\<close>

  The adapter is one single-threaded process between two buses: it exposes the Luna service
  \<open>com.webos.service.nfc\<close> (documented in \<open>docs/API.md\<close>) and drives nfcd over D-Bus.  The
  development models \<open>src/*.c\<close> function by function, under the names of the C functions, and
  proves what its callers and the owners of the tags rely on.

  \<^bold>\<open>The program and its theories\<close>

  The theories come in pairs or triples: the model, then the facts about it.

  \<^item> \<open>Prelude\<close>: bytes, zero terminated strings, bounds-checked reads (\<open>rd\<close>, \<open>rd_n\<close>: \<open>None\<close> is a
    read outside the buffer), the result type \<open>outcome\<close> (\<open>Parsed\<close>, \<open>Malformed\<close>, \<open>Undefined\<close> for
    undefined behaviour), \<open>run\<close> over sequences of events, and the contracts of state machines as
    locales.
  \<^item> \<open>ndef.c\<close>: \<open>Ndef\<close>, \<open>Ndef_Facts\<close>.  JSON values and objects (in order of insertion, as
    pbnjson prints them), record decoding, the encoders behind writeTag, hex, the Type 2 TLV.
  \<^item> \<open>bac.c\<close>: \<open>Tlv\<close> (BER lengths, the data objects of a secure messaging response), \<open>Blocks\<close>
    (ISO padding, send sequence counters; shared with \<open>pace.c\<close>), \<open>Mrz\<close>, \<open>Mrz_Facts\<close> (check
    digits, MRZ fields, EF.DG1, EF.DG2), \<open>Bac\<close>, \<open>Bac_Facts\<close> (keys, MUTUAL AUTHENTICATE, secure
    messaging).  \<open>Openssl\<close> holds the OpenSSL calls as a record of functions.
  \<^item> \<open>pace.c\<close>: \<open>Pace\<close> (EF.CardAccess, keys, tokens, secure messaging), \<open>Pace_Exchange\<close> (the four
    rounds of \<open>PaceExchange\<close> over an abstract elliptic curve library), \<open>Pace_Facts\<close>,
    \<open>Pace_Agreement\<close>.  \<open>Secure_Messaging\<close> holds what the two secure messaging layers share.
  \<^item> \<open>photo_convert.c\<close>: \<open>Photo\<close>.
  \<^item> \<open>nfcd_client.c\<close>, whose requests are asynchronous: a request is a record with the stage it
    is in, that is the D-Bus call it waits for; every completion callback is a definition from the
    request and the result of that call to the new request and the calls and replies made, in
    order; one step function dispatches on the stage.
    \<open>Passport\<close> (\<open>struct passport_read\<close>) with \<open>Passport_Facts\<close>, \<open>Passport_Success\<close> and
    \<open>Passport_Run\<close>; \<open>Tag_Read\<close> (\<open>struct tag_read\<close>, with the MIFARE Classic sweep and its key
    cache) with \<open>Tag_Read_Facts\<close>, \<open>Tag_Read_Run\<close>; \<open>Write_Lock\<close> (\<open>struct write_req\<close>,
    \<open>struct lock_req\<close>) with \<open>Write_Lock_Facts\<close>; \<open>Hce\<close> (\<open>struct hce_profile\<close> and the objects
    exported to nfcd) with \<open>Hce_Facts\<close>.
    \<open>Client_State\<close> is \<open>struct nfcd_client\<close>; \<open>Client\<close> puts the parts together: \<open>world\<close> is the
    client with the reads in flight as a heap (pointers of the client are addresses into it),
    \<open>client_step\<close> is one callback or call of the service at a time, \<open>reachable\<close> the states after any
    sequence of them.  \<open>Client_Facts\<close> holds its invariants, \<open>Client_Refinement\<close> its specification,
    \<open>Client_Passport\<close> what the passport reads do inside it.
  \<^item> \<open>nfc_service.c\<close>, \<open>luna_service_utils.c\<close>: \<open>Service\<close>, \<open>Service_Facts\<close>: every method from the
    message to the replies and client calls it makes, every result callback, the posts to
    subscribers.
    \<open>Daemon\<close> puts the service on top of the client: \<open>daemon_state\<close> holds the client's world and the
    requests not yet answered by the number of their message, \<open>daemon_step\<close> is one call on the Luna
    bus, signal of nfcd or completion.  A notification (\<open>notify_state\<close>, \<open>notify_tag\<close>) carries the client as
    it is when the callback of the service runs; \<open>nfc_request_new\<close> and \<open>nfc_request_free\<close> are the references
    taken to the message.  \<open>Daemon_Facts\<close> and \<open>Subscriptions\<close> hold what is proved of the whole.
  \<^item> \<open>main.c\<close>: \<open>Main_Loop\<close>, with what is printed.

  \<^bold>\<open>What the lemmas show\<close>

  \<^item> Callers are answered: each method answers at once or starts exactly one request
    (\<open>Service_Facts\<close>), and each request replies exactly once (\<open>Passport_Facts\<close>,
    \<open>Write_Lock_Facts\<close>, \<open>Hce_Facts\<close>) or frees itself exactly once (\<open>Tag_Read_Facts\<close>), whatever the
    results of its calls are.  A tag is released exactly as often as it was acquired.  For the whole
    (\<open>Daemon_Facts\<close>): under every interleaving a message is answered exactly once and referenced
    exactly until then, and a write, clone or lock is answered within six results for it.
  \<^item> Subscribers are kept current (\<open>Subscriptions\<close>): what was posted last is what the method would answer,
    except for the version of nfcd and the adapter path in getStatus; a lemma shows the version going stale.
  \<^item> Reads, writes and locks do what is asked: \<open>Tag_Read_Run\<close> (the records published are the
    records delivered), \<open>Write_Lock_Facts\<close> (answers are those of a reference function of the results;
    calls go to the tag that was acquired as long as it stays in the field, and a lemma where it
    does not), \<open>Service_Facts\<close> (what writeTag writes is what a reader decodes), \<open>Passport_Run\<close> (an honest
    document is read to the end).
  \<^item> Security: a passport result is only ever reported under session keys the document proved
    to know in that read (\<open>Passport_Success\<close>), in every state of the daemon (\<open>Client_Passport\<close>); BAC and PACE agree with an honest chip and reject
    messages without a valid code (\<open>Bac_Facts\<close>, \<open>Pace_Facts\<close>, \<open>Pace_Agreement\<close>); commands to a MIFARE
    Classic tag stay in its sectors, and keys are cached only once proved (\<open>Tag_Read_Facts\<close>).
  \<^item> The client is consistent under every interleaving: no dangling pointer to a read, at most one
    read of each kind, the published tag is the one in the field (\<open>Client_Facts\<close>), the profile table
    is well formed (\<open>Hce_Facts\<close>); adapter, tag and availability refine a three-field specification
    of what nfcd reports (\<open>Client_Refinement\<close>).
  \<^item> Parsers of untrusted bytes stay inside their buffers, or a theorem gives the input with which
    they do not (\<open>Ndef_Facts\<close>, \<open>Mrz_Facts\<close>, \<open>Pace_Facts\<close>), and invert the encoders.

  \<^bold>\<open>Interfaces\<close>

  The contracts of \<open>Prelude\<close> are locales, interpreted on the step functions of the model:
  \<open>reply_machine\<close> (one reply), \<open>terminating_machine\<close> (and it comes), \<open>locking_machine\<close> (one release),
  \<open>balanced_machine\<close> (acquire and release, or quit requests, add up; a sublocale of \<open>accounting_machine\<close>,
  the same under an invariant, which counts the answers to passport requests), \<open>safe_machine\<close> (effects of a certain
  kind only), \<open>invariant_machine\<close>, \<open>publishing_machine\<close> (its extension: what was published last is what
  holds now) and \<open>refining_machine\<close>.  \<open>topic\<close> is the contract of a subscribable method, interpreted for
  getStatus, getTagInfo and getCardEmulationEvent; the daemon as a \<open>publishing_machine\<close> is a sublocale of it.  \<open>block_padding\<close> and \<open>send_counter\<close> are interpreted
  for BAC (8 bytes) and PACE (16 bytes), as are \<open>sm_unwrapping\<close> and \<open>sm_channel\<close>, the contract of a secure
  messaging layer.

  \<^bold>\<open>Parameters\<close>

  Code that is not in the repository is an argument: OpenSSL (record \<open>openssl\<close>; its documented laws
  are \<open>digest_sizes\<close>, \<open>cipher_works\<close>, \<open>cmac_works\<close>), its elliptic curves (\<open>ec_lib\<close>, \<open>ec_laws\<close>), OpenJPEG (a
  function from the bytes to the components), the UTF routines of GLib (\<open>glib_utf\<close>), pbnjson parsing,
  base64 decoding and subscriptions of the Luna bus (\<open>luna\<close>, \<open>message\<close>), nfcd and the tags (the events).
  Concrete instances (\<open>demo_openssl\<close>, \<open>demo_ec\<close>, \<open>demo_glib\<close>, \<open>demo_luna\<close>) keep the laws and serve the witnesses.

  \<^bold>\<open>Widths, bounds and fuel\<close>

  \<open>gsize\<close> has the width the NDEF and passport definitions get as an argument; results hold for 64 bits
  where stated, and the wrap-around of 32 bits is shown.  Response ids are 32-bit words, lengths in
  headers are reduced as their casts do.  No definition runs out of fuel: recursions are structural or
  have a termination proof.  The measures behind termination: a write ends within 5 results, a lock within 6, a
  tag read whose tag has at most \<open>B\<close> records within \<open>max 656 (2 * B + 4) + 2\<close> callbacks; 656 is the sweep
  of the 40 sectors of a MIFARE Classic 4K tag with all keys.  A passport read has no such bound: a
  document decides itself how long it is read (theorem \<open>passport_dg1_overrun\<close> shows the worst case).

  \<^bold>\<open>Not modelled\<close>

  Warnings written to the log; the marshalling of D-Bus messages and the proxies themselves (a proxy is its object
  path, or present or not); allocation and reference counts, except those of Luna
  messages and where a pointer outlives its target (addresses of reads and of card emulation profiles); the order in which GHashTable visits
  the profiles; the usage text GLib prints; headers without definitions, build and service
  files.  Calls that GLib delivers with an error after cancellation are events with \<open>cancelled\<close> set.
\<close>

end
